theory Spec2Isabelle
  imports Complex_Main
begin

section \<open>Python exceptions, dictionaries and loops\<close>

text \<open>
  Every exception the modelled code can raise is a value; a function that can raise
  returns \<open>error + 'a\<close> with \<open>Inl\<close> for the exception. \<open>Unsupported\<close> is
  not a Python exception: it marks an operand of a kind the model does not cover (the
  kinds it covers are listed with the heap below).
\<close>

datatype error =
  KeyError | ValueError | IndexError | TypeError | AttributeError
  | UnboundLocalError | NotImplementedError | RuntimeError | AssertionError
  | RecursionError | Unsupported

text \<open>
  A Python dictionary keeps its keys in insertion order and the order is observable
  (\<open>items()\<close>), so it is an association list with the assignment \<open>d[k] = v\<close>
  written out: an existing key keeps its place, a new key goes to the end.
\<close>

fun dict_set :: "('k \<times> 'v) list \<Rightarrow> 'k \<Rightarrow> 'v \<Rightarrow> ('k \<times> 'v) list" where
  "dict_set [] k v = [(k, v)]"
| "dict_set ((k', v') # d) k v =
     (if k' = k then (k', v) # d else (k', v') # dict_set d k v)"

definition dict_get :: "('k \<times> 'v) list \<Rightarrow> 'k \<Rightarrow> error + 'v" where
  "dict_get d k = (case map_of d k of None \<Rightarrow> Inl KeyError | Some v \<Rightarrow> Inr v)"

definition dict_contains :: "('k \<times> 'v) list \<Rightarrow> 'k \<Rightarrow> bool" where
  "dict_contains d k = (map_of d k \<noteq> None)"

text \<open>A \<open>for\<close> loop over a list whose body may raise: the first exception ends it.\<close>

fun for_loop :: "('a \<Rightarrow> 's \<Rightarrow> error + 's) \<Rightarrow> 'a list \<Rightarrow> 's \<Rightarrow> error + 's" where
  "for_loop body [] s = Inr s"
| "for_loop body (x # xs) s =
     (case body x s of Inl e \<Rightarrow> Inl e | Inr s' \<Rightarrow> for_loop body xs s')"

section \<open>The numpy operations the registry uses\<close>

text \<open>
  Arrays are one-dimensional and their entries are real numbers: the registry only
  copies, slices and adds them.
\<close>

fun cumsum_from :: "nat \<Rightarrow> nat list \<Rightarrow> nat list" where
  "cumsum_from acc [] = []"
| "cumsum_from acc (x # xs) = (acc + x) # cumsum_from (acc + x) xs"

definition np_cumsum :: "nat list \<Rightarrow> nat list" where
  "np_cumsum xs = cumsum_from 0 xs"

definition np_arange :: "nat \<Rightarrow> nat \<Rightarrow> nat list" where
  "np_arange a b = [a..<b]"

definition np_zeros :: "nat \<Rightarrow> real list" where
  "np_zeros n = replicate n 0"

definition index_list :: "'a list \<Rightarrow> nat \<Rightarrow> error + 'a" where
  "index_list xs i = (if i < length xs then Inr (xs ! i) else Inl IndexError)"

text \<open>\<open>values[inds]\<close> for an index array: every index must be in range.\<close>

definition np_take :: "'a list \<Rightarrow> nat list \<Rightarrow> error + 'a list" where
  "np_take xs inds =
     (if list_all (\<lambda>i. i < length xs) inds then Inr (map (\<lambda>i. xs ! i) inds)
      else Inl IndexError)"

text \<open>
  \<open>values[inds] = rhs\<close>: the right-hand side has as many entries as there are
  indices, or one entry that is broadcast; any other shape is a ValueError.
\<close>

definition np_put :: "real list \<Rightarrow> nat list \<Rightarrow> real list \<Rightarrow> error + real list" where
  "np_put xs inds rhs =
     (if \<not> list_all (\<lambda>i. i < length xs) inds then Inl IndexError
      else if length rhs = length inds then Inr (fold (\<lambda>(i, x) ys. ys[i := x]) (zip inds rhs) xs)
      else if length rhs = 1 then Inr (fold (\<lambda>i ys. ys[i := hd rhs]) inds xs)
      else Inl ValueError)"

text \<open>
  An elementwise operation on two arrays, with numpy's broadcasting of a one-entry
  array; \<open>a + b\<close> is the instance the registry uses.
\<close>

definition np_elementwise :: "(real \<Rightarrow> real \<Rightarrow> real) \<Rightarrow> real list \<Rightarrow> real list \<Rightarrow> error + real list" where
  "np_elementwise f a b =
     (if length a = length b then Inr (map2 f a b)
      else if length a = 1 then Inr (map (\<lambda>y. f (hd a) y) b)
      else if length b = 1 then Inr (map (\<lambda>x. f x (hd b)) a)
      else Inl ValueError)"

definition np_add :: "real list \<Rightarrow> real list \<Rightarrow> error + real list" where
  "np_add a b = np_elementwise (+) a b"

text \<open>
  \<open>np.argmax\<close> of a boolean array is the index of the first \<open>True\<close>, and 0 when
  there is none.
\<close>

fun first_true :: "bool list \<Rightarrow> nat option" where
  "first_true [] = None"
| "first_true (b # bs) = (if b then Some 0 else map_option Suc (first_true bs))"

definition np_argmax :: "bool list \<Rightarrow> nat" where
  "np_argmax bs = (case first_true bs of None \<Rightarrow> 0 | Some k \<Rightarrow> k)"

section \<open>Grids, their data dictionaries and the mixed-dimensional grid\<close>

text \<open>
  A subdomain grid exposes its numbers of cells, faces and nodes, an interface
  (mortar) grid its number of cells. Python hashes both by identity; the name field
  stands for the identity.
\<close>

datatype Grid = Grid (grid_name: nat) (num_cells: nat) (num_faces: nat) (num_nodes: nat)

datatype MortarGrid = MortarGrid (mortar_name: nat) (mortar_num_cells: nat)

datatype GridLike = Subdomain Grid | Interface MortarGrid

text \<open>
  Modelled from the spec: the key constants \<open>pp.PRIMARY_VARIABLES\<close>, \<open>pp.STATE\<close>
  and \<open>pp.ITERATE\<close> are declared outside the sources, so the dictionary of an
  entity is a record with one optional field per key the registry reads:
  the declared variables (name to per-cell, per-face and per-node multiplicities, in
  declaration order) and the state. The state holds the stored array of each variable
  and, under \<open>pp.ITERATE\<close>, the optional dictionary of iterates (the two logical
  stores of the spec).
\<close>

record state_dict =
  stored :: "string \<rightharpoonup> real list"
  iterate :: "(string \<rightharpoonup> real list) option"

record data_dict =
  primary_variables :: "(string \<times> (string \<rightharpoonup> nat)) list option"
  state :: "state_dict option"

text \<open>
  Modelled from the spec: \<open>MixedDimensionalGrid\<close> is outside the sources. The
  registry uses its ordered subdomains and interfaces and the data dictionary of each
  (\<open>subdomain_data\<close>, \<open>interface_data\<close>), which it mutates in place; the model
  returns the updated grid.
\<close>

record MixedDimensionalGrid =
  subdomains :: "Grid list"
  interfaces :: "MortarGrid list"
  subdomain_data :: "Grid \<Rightarrow> data_dict"
  interface_data :: "MortarGrid \<Rightarrow> data_dict"

definition grid_data :: "MixedDimensionalGrid \<Rightarrow> GridLike \<Rightarrow> data_dict" where
  "grid_data mdg g =
     (case g of Interface i \<Rightarrow> interface_data mdg i | Subdomain s \<Rightarrow> subdomain_data mdg s)"

definition set_grid_data :: "MixedDimensionalGrid \<Rightarrow> GridLike \<Rightarrow> data_dict \<Rightarrow> MixedDimensionalGrid" where
  "set_grid_data mdg g d =
     (case g of
        Interface i \<Rightarrow> mdg\<lparr>interface_data := (interface_data mdg)(i := d)\<rparr>
      | Subdomain s \<Rightarrow> mdg\<lparr>subdomain_data := (subdomain_data mdg)(s := d)\<rparr>)"

section \<open>The degree-of-freedom manager\<close>

record DofManager =
  block_dof :: "((GridLike \<times> string) \<times> nat) list"
  full_dof :: "nat list"

definition dofs_get :: "(string \<rightharpoonup> nat) \<Rightarrow> string \<Rightarrow> nat" where
  "dofs_get local_dofs k = (case local_dofs k of None \<Rightarrow> 0 | Some n \<Rightarrow> n)"

text \<open>
  The constructor's loop state: the block counter, \<open>block_dof\<close> and \<open>full_dof\<close>.
\<close>

type_synonym init_state = "nat \<times> ((GridLike \<times> string) \<times> nat) list \<times> nat list"

definition subdomain_variable :: "Grid \<Rightarrow> string \<times> (string \<rightharpoonup> nat) \<Rightarrow> init_state \<Rightarrow> init_state" where
  "subdomain_variable sd lv st =
     (case st of (block_dof_counter, bd, fd) \<Rightarrow>
      case lv of (local_var, local_dofs) \<Rightarrow>
        (block_dof_counter + 1,
         dict_set bd (Subdomain sd, local_var) block_dof_counter,
         fd @ [num_cells sd * dofs_get local_dofs ''cells''
               + num_faces sd * dofs_get local_dofs ''faces''
               + num_nodes sd * dofs_get local_dofs ''nodes'']))"

definition interface_variable :: "MortarGrid \<Rightarrow> string \<times> (string \<rightharpoonup> nat) \<Rightarrow> init_state \<Rightarrow> init_state" where
  "interface_variable intf lv st =
     (case st of (block_dof_counter, bd, fd) \<Rightarrow>
      case lv of (local_var, local_dofs) \<Rightarrow>
        (block_dof_counter + 1,
         dict_set bd (Interface intf, local_var) block_dof_counter,
         fd @ [mortar_num_cells intf * dofs_get local_dofs ''cells'']))"

definition subdomain_step :: "MixedDimensionalGrid \<Rightarrow> Grid \<Rightarrow> init_state \<Rightarrow> init_state" where
  "subdomain_step mdg sd st =
     (case primary_variables (subdomain_data mdg sd) of
        None \<Rightarrow> st
      | Some pv \<Rightarrow> fold (subdomain_variable sd) pv st)"

definition interface_step :: "MixedDimensionalGrid \<Rightarrow> MortarGrid \<Rightarrow> init_state \<Rightarrow> init_state" where
  "interface_step mdg intf st =
     (case primary_variables (interface_data mdg intf) of
        None \<Rightarrow> st
      | Some pv \<Rightarrow> fold (interface_variable intf) pv st)"

definition DofManager_init :: "MixedDimensionalGrid \<Rightarrow> DofManager" where
  "DofManager_init mdg =
     (case fold (interface_step mdg) (interfaces mdg)
             (fold (subdomain_step mdg) (subdomains mdg) (0, [], [])) of
        (block_dof_counter, bd, fd) \<Rightarrow> \<lparr>block_dof = bd, full_dof = fd\<rparr>)"

definition dof_start :: "DofManager \<Rightarrow> nat list" where
  "dof_start dm = 0 # np_cumsum (full_dof dm)"

definition grid_and_variable_to_dofs :: "DofManager \<Rightarrow> GridLike \<Rightarrow> string \<Rightarrow> error + nat list" where
  "grid_and_variable_to_dofs dm grid variable =
     (case dict_get (block_dof dm) (grid, variable) of
        Inl e \<Rightarrow> Inl e
      | Inr block_ind \<Rightarrow>
          (case index_list (dof_start dm) block_ind of
             Inl e \<Rightarrow> Inl e
           | Inr lo \<Rightarrow>
               (case index_list (dof_start dm) (block_ind + 1) of
                  Inl e \<Rightarrow> Inl e
                | Inr hi \<Rightarrow> Inr (np_arange lo hi))))"

definition num_dofs :: "DofManager \<Rightarrow> nat" where
  "num_dofs dm = sum_list (full_dof dm)"

text \<open>
  The inverse lookup. The index is a Python integer and may be negative; the block
  index \<open>argmax - 1\<close> is an integer too. The inverted dictionary is built from the
  items in order, a later item replacing an earlier one with the same block index.
\<close>

definition inv_block_dof :: "DofManager \<Rightarrow> (int \<times> (GridLike \<times> string)) list" where
  "inv_block_dof dm = fold (\<lambda>(k, v) d. dict_set d (int v) k) (block_dof dm) []"

definition dof_to_grid_and_variable :: "DofManager \<Rightarrow> int \<Rightarrow> error + (GridLike \<times> string)" where
  "dof_to_grid_and_variable dm ind =
     (if ind \<ge> int (last (dof_start dm)) then Inl ValueError
      else if ind < 0 then Inl ValueError
      else
        (let block_ind = int (np_argmax (map (\<lambda>s. int s > ind) (dof_start dm))) - 1
         in dict_get (inv_block_dof dm) block_ind))"


text \<open>
  The default selections \<open>list(set(...))\<close> of the grids and of the variable names
  in \<open>block_dof\<close>. Python does not fix the order of a set; the model lists each
  element once, in order of first registration, and the theorems below hold for the
  selection in any order.
\<close>

definition select_grids :: "DofManager \<Rightarrow> GridLike list option \<Rightarrow> GridLike list" where
  "select_grids dm grids =
     (case grids of None \<Rightarrow> remdups (map (\<lambda>(key, b). fst key) (block_dof dm)) | Some gs \<Rightarrow> gs)"

definition select_variables :: "DofManager \<Rightarrow> string list option \<Rightarrow> string list" where
  "select_variables dm variables =
     (case variables of None \<Rightarrow> remdups (map (\<lambda>(key, b). snd key) (block_dof dm)) | Some vs \<Rightarrow> vs)"

text \<open>\<open>itertools.product(grids, variables)\<close>, in the order of the loop.\<close>

definition selection ::
  "DofManager \<Rightarrow> GridLike list option \<Rightarrow> string list option \<Rightarrow> (GridLike \<times> string) list" where
  "selection dm grids variables =
     List.product (select_grids dm grids) (select_variables dm variables)"

text \<open>
  One pass of the loop of \<open>distribute_variable\<close> over a grid-variable combination.
  An exception ends the call; the partly updated dictionaries are not returned.
\<close>

definition distribute_pair ::
  "DofManager \<Rightarrow> real list \<Rightarrow> bool \<Rightarrow> bool \<Rightarrow> GridLike \<times> string
    \<Rightarrow> MixedDimensionalGrid \<Rightarrow> error + MixedDimensionalGrid" where
  "distribute_pair dm values is_additive to_iterate p mdg =
     (case p of (g, var) \<Rightarrow>
      if \<not> dict_contains (block_dof dm) (g, var) then Inr mdg
      else
        (case grid_and_variable_to_dofs dm g var of
           Inl e \<Rightarrow> Inl e
         | Inr dof_ind \<Rightarrow>
            (let data = grid_data mdg g;
                 st0 = (case state data of
                          None \<Rightarrow> \<lparr>stored = Map.empty, iterate = None\<rparr>
                        | Some st \<Rightarrow> st);
                 st1 = (if to_iterate \<and> iterate st0 = None
                        then st0\<lparr>iterate := Some Map.empty\<rparr> else st0)
             in
              (case np_take values dof_ind of
                 Inl e \<Rightarrow> Inl e
               | Inr vals \<Rightarrow>
                  if is_additive then
                    if to_iterate then
                      (case iterate st1 of
                         None \<Rightarrow> Inl KeyError
                       | Some it \<Rightarrow>
                          (case it var of
                             None \<Rightarrow> Inl KeyError
                           | Some old \<Rightarrow>
                              (case np_add old vals of
                                 Inl e \<Rightarrow> Inl e
                               | Inr new \<Rightarrow>
                                  Inr (set_grid_data mdg g
                                    (data\<lparr>state := Some (st1\<lparr>iterate := Some (it(var \<mapsto> new))\<rparr>)\<rparr>)))))
                    else
                      (case stored st1 var of
                         None \<Rightarrow> Inl KeyError
                       | Some old \<Rightarrow>
                          (case np_add old vals of
                             Inl e \<Rightarrow> Inl e
                           | Inr new \<Rightarrow>
                              Inr (set_grid_data mdg g
                                (data\<lparr>state := Some (st1\<lparr>stored := (stored st1)(var \<mapsto> new)\<rparr>)\<rparr>))))
                  else
                    if to_iterate then
                      (case iterate st1 of
                         None \<Rightarrow> Inl KeyError
                       | Some it \<Rightarrow>
                          Inr (set_grid_data mdg g
                            (data\<lparr>state := Some (st1\<lparr>iterate := Some (it(var \<mapsto> vals))\<rparr>)\<rparr>)))
                    else
                      Inr (set_grid_data mdg g
                        (data\<lparr>state := Some (st1\<lparr>stored := (stored st1)(var \<mapsto> vals)\<rparr>)\<rparr>))))))"

definition distribute_variable ::
  "DofManager \<Rightarrow> MixedDimensionalGrid \<Rightarrow> real list \<Rightarrow> GridLike list option
    \<Rightarrow> string list option \<Rightarrow> bool \<Rightarrow> bool \<Rightarrow> error + MixedDimensionalGrid" where
  "distribute_variable dm mdg values grids variables is_additive to_iterate =
     for_loop (distribute_pair dm values is_additive to_iterate)
       (selection dm grids variables) mdg"

text \<open>
  \<open>assemble_variable\<close> starts from \<open>np.zeros(self.num_dofs())\<close>. With no block
  registered \<open>full_dof\<close> is the empty array, whose sum is the float 0.0, and
  \<open>np.zeros\<close> refuses a float as a shape with a TypeError.
\<close>

definition assemble_pair ::
  "DofManager \<Rightarrow> MixedDimensionalGrid \<Rightarrow> bool \<Rightarrow> GridLike \<times> string
    \<Rightarrow> real list \<Rightarrow> error + real list" where
  "assemble_pair dm mdg from_iterate p values =
     (case p of (g, var) \<Rightarrow>
      if \<not> dict_contains (block_dof dm) (g, var) then Inr values
      else
        (case grid_and_variable_to_dofs dm g var of
           Inl e \<Rightarrow> Inl e
         | Inr dof_ind \<Rightarrow>
            (case state (grid_data mdg g) of
               None \<Rightarrow> Inl KeyError
             | Some st \<Rightarrow>
                if from_iterate then
                  (case iterate st of
                     None \<Rightarrow> Inl KeyError
                   | Some it \<Rightarrow>
                      (case it var of
                         None \<Rightarrow> Inl KeyError
                       | Some a \<Rightarrow> np_put values dof_ind a))
                else
                  (case stored st var of
                     None \<Rightarrow> Inl KeyError
                   | Some a \<Rightarrow> np_put values dof_ind a))))"

definition assemble_variable ::
  "DofManager \<Rightarrow> MixedDimensionalGrid \<Rightarrow> GridLike list option \<Rightarrow> string list option
    \<Rightarrow> bool \<Rightarrow> error + real list" where
  "assemble_variable dm mdg grids variables from_iterate =
     (if full_dof dm = [] then Inl TypeError
      else for_loop (assemble_pair dm mdg from_iterate)
             (selection dm grids variables)
             (np_zeros (num_dofs dm)))"

text \<open>
  \<open>get_variable_values\<close> iterates over \<open>self.block_dof.items()\<close> and unpacks each
  item into \<open>grid, name\<close>. An item is a pair of a key and a block index, and a key is
  itself a tuple of a grid and a variable name, so the loop variables are bound to
  dynamically typed objects: the model keeps the types apart to follow the
  \<open>isinstance\<close> tests. The local variable \<open>data\<close> is bound only inside the two
  branches and keeps its binding from one pass to the next.
\<close>

datatype pyobj =
  PyGrid Grid | PyMortarGrid MortarGrid | PyTuple pyobj pyobj | PyStr string | PyInt int

definition gridlike_obj :: "GridLike \<Rightarrow> pyobj" where
  "gridlike_obj g = (case g of Subdomain s \<Rightarrow> PyGrid s | Interface i \<Rightarrow> PyMortarGrid i)"

definition block_dof_items :: "DofManager \<Rightarrow> (pyobj \<times> pyobj) list" where
  "block_dof_items dm =
     map (\<lambda>((g, var), b). (PyTuple (gridlike_obj g) (PyStr var), PyInt (int b))) (block_dof dm)"

definition state_lookup :: "(string \<rightharpoonup> real list) \<Rightarrow> pyobj \<Rightarrow> error + real list" where
  "state_lookup d name =
     (case name of
        PyStr n \<Rightarrow> (case d n of None \<Rightarrow> Inl KeyError | Some a \<Rightarrow> Inr a)
      | _ \<Rightarrow> Inl KeyError)"

definition get_values_item ::
  "MixedDimensionalGrid \<Rightarrow> bool \<Rightarrow> pyobj \<times> pyobj
    \<Rightarrow> data_dict option \<times> real list list \<Rightarrow> error + (data_dict option \<times> real list list)" where
  "get_values_item mdg from_iterate item loop_state =
     (case item of (grid, name) \<Rightarrow>
      case loop_state of (data_before, values) \<Rightarrow>
       (let data = (case grid of
                      PyGrid sd \<Rightarrow> Some (subdomain_data mdg sd)
                    | PyMortarGrid intf \<Rightarrow> Some (interface_data mdg intf)
                    | _ \<Rightarrow> data_before)
        in
         (case data of
            None \<Rightarrow> Inl UnboundLocalError
          | Some d \<Rightarrow>
             (case state d of
                None \<Rightarrow> Inl KeyError
              | Some st \<Rightarrow>
                 if from_iterate then
                   (case iterate st of
                      None \<Rightarrow> Inl KeyError
                    | Some it \<Rightarrow>
                       (case state_lookup it name of
                          Inl e \<Rightarrow> Inl KeyError
                        | Inr a \<Rightarrow> Inr (data, values @ [a])))
                 else
                   (case state_lookup (stored st) name of
                      Inl e \<Rightarrow> Inl KeyError
                    | Inr a \<Rightarrow> Inr (data, values @ [a]))))))"

definition get_variable_values ::
  "DofManager \<Rightarrow> MixedDimensionalGrid \<Rightarrow> string list option \<Rightarrow> bool \<Rightarrow> error + real list" where
  "get_variable_values dm mdg variables from_iterate =
     (if variables \<noteq> None then Inl NotImplementedError
      else
        (case for_loop (get_values_item mdg from_iterate) (block_dof_items dm) (None, []) of
           Inl e \<Rightarrow> Inl e
         | Inr (data, values) \<Rightarrow> Inr (concat values)))"

section \<open>Well-formed registries and what the claims speak of\<close>

text \<open>
  The constructor numbers the blocks 0, 1, ... in registration order and appends one
  width per block. The keys it registers are distinct because the subdomains, the
  interfaces and the variables of an entity are keys of Python dictionaries.
\<close>

definition wf_dm :: "DofManager \<Rightarrow> bool" where
  "wf_dm dm = (distinct (map fst (block_dof dm))
     \<and> map snd (block_dof dm) = [0..<length (full_dof dm)])"

text \<open>The keys the constructor registers, in its order.\<close>

definition declared_variables :: "data_dict \<Rightarrow> string list" where
  "declared_variables d = (case primary_variables d of None \<Rightarrow> [] | Some pv \<Rightarrow> map fst pv)"

definition subdomain_keys :: "MixedDimensionalGrid \<Rightarrow> Grid \<Rightarrow> (GridLike \<times> string) list" where
  "subdomain_keys mdg sd = map (\<lambda>v. (Subdomain sd, v)) (declared_variables (subdomain_data mdg sd))"

definition interface_keys :: "MixedDimensionalGrid \<Rightarrow> MortarGrid \<Rightarrow> (GridLike \<times> string) list" where
  "interface_keys mdg intf = map (\<lambda>v. (Interface intf, v)) (declared_variables (interface_data mdg intf))"

definition all_keys :: "MixedDimensionalGrid \<Rightarrow> (GridLike \<times> string) list" where
  "all_keys mdg = concat (map (subdomain_keys mdg) (subdomains mdg))
                  @ concat (map (interface_keys mdg) (interfaces mdg))"

text \<open>The invariant of the constructor's loops, after the keys \<open>ks\<close>.\<close>

definition init_inv :: "init_state \<Rightarrow> (GridLike \<times> string) list \<Rightarrow> bool" where
  "init_inv st ks = (case st of (c, bd, fd) \<Rightarrow>
     c = length ks \<and> map fst bd = ks \<and> map snd bd = [0..<length ks] \<and> length fd = length ks)"

text \<open>
  The array stored for a variable on an entity (\<open>data[pp.STATE][var]\<close>), the entries
  of a global vector in the block of a pair, and the indices of that block.
\<close>

definition stored_value :: "MixedDimensionalGrid \<Rightarrow> GridLike \<Rightarrow> string \<Rightarrow> real list option" where
  "stored_value mdg g var = (case state (grid_data mdg g) of None \<Rightarrow> None | Some st \<Rightarrow> stored st var)"

definition block_slice :: "DofManager \<Rightarrow> real list \<Rightarrow> GridLike \<Rightarrow> string \<Rightarrow> real list" where
  "block_slice dm values g var =
     (case grid_and_variable_to_dofs dm g var of
        Inl e \<Rightarrow> []
      | Inr dof_ind \<Rightarrow> map (\<lambda>i. values ! i) dof_ind)"

definition block_range :: "DofManager \<Rightarrow> GridLike \<Rightarrow> string \<Rightarrow> nat set" where
  "block_range dm g var =
     (case grid_and_variable_to_dofs dm g var of Inl e \<Rightarrow> {} | Inr dof_ind \<Rightarrow> set dof_ind)"

text \<open>An index lies in the block of a registered pair of the list.\<close>

definition in_blocks :: "DofManager \<Rightarrow> (GridLike \<times> string) list \<Rightarrow> nat \<Rightarrow> bool" where
  "in_blocks dm ps j = list_ex (\<lambda>(g, var). dict_contains (block_dof dm) (g, var)
                                 \<and> j \<in> block_range dm g var) ps"

text \<open>
  The scenario of the specification: E1 has 3 cells, E2 has 2 cells, and both declare
  the variable p with one degree of freedom per cell.
\<close>

definition E1 :: Grid where "E1 = Grid 1 3 4 4"

definition E2 :: Grid where "E2 = Grid 2 2 3 3"

definition example_data :: data_dict where
  "example_data = \<lparr>primary_variables = Some [(''p'', [''cells'' \<mapsto> 1])], state = None\<rparr>"

definition example_mdg :: MixedDimensionalGrid where
  "example_mdg = \<lparr>subdomains = [E1, E2], interfaces = [],
      subdomain_data = (\<lambda>g. example_data),
      interface_data = (\<lambda>i. \<lparr>primary_variables = None, state = None\<rparr>)\<rparr>"

definition example_dm :: DofManager where
  "example_dm = DofManager_init example_mdg"

text \<open>The selection holds every registered pair; the default selection does.\<close>

definition covers_all :: "DofManager \<Rightarrow> GridLike list option \<Rightarrow> string list option \<Rightarrow> bool" where
  "covers_all dm grids variables =
     list_all (\<lambda>(key, b). key \<in> set (selection dm grids variables)) (block_dof dm)"

text \<open>The same scenario with an array stored for p on each grid, and a grid that declares nothing.\<close>

definition example_stored_mdg :: MixedDimensionalGrid where
  "example_stored_mdg = \<lparr>subdomains = [E1, E2], interfaces = [],
      subdomain_data = (\<lambda>g. \<lparr>primary_variables = Some [(''p'', [''cells'' \<mapsto> 1])],
         state = Some \<lparr>stored = [''p'' \<mapsto> replicate (num_cells g) 7], iterate = None\<rparr>\<rparr>),
      interface_data = (\<lambda>i. \<lparr>primary_variables = None, state = None\<rparr>)\<rparr>"

definition unregistered_grid :: Grid where "unregistered_grid = Grid 9 4 5 5"

section \<open>Python objects, the heap and sparse matrices\<close>

text \<open>
  The forward-mode module passes Python objects by reference and assigns fields in
  place, and two of the claims are about aliasing, so objects live in an explicit heap:
  a list of objects, an address being an index, allocation appending at the end. The
  kinds of object the model covers: Python floats and integers, one-dimensional numpy
  arrays of floats and of 64-bit integers, scipy sparse matrices of floats (shape and
  entries; the storage format is not modelled), numpy arrays of objects (the legacy
  Jacobian stored as an array of per-component matrices), Python lists, and instances
  of \<open>Ad_array\<close>. A float is a real number: rounding, overflow and NaN are outside the
  model. A Python integer is unbounded. An array of integers has its size, its copy and
  its conversion to an array of floats; its arithmetic, which numpy computes modulo
  \<open>2^64\<close>, is outside the model, and so is a sparse matrix of integers.
\<close>

type_synonym addr = nat

datatype matrix = Matrix (nrows: nat) (ncols: nat) (entries: "real list list")

datatype obj =
    PyFloat real
  | PyInt int
  | NdArray "real list"
  | IntArray "int list"
  | SpMatrix matrix
  | ObjArray "addr list"
  | PyList "addr list"
  | Ad_array (val: addr) (jac: addr)

type_synonym heap = "obj list"

type_synonym 'a py = "heap \<Rightarrow> error + ('a \<times> heap)"

definition ret :: "'a \<Rightarrow> 'a py" where
  "ret x = (\<lambda>h. Inr (x, h))"

definition raise_err :: "error \<Rightarrow> 'a py" where
  "raise_err e = (\<lambda>h. Inl e)"

definition hbind :: "'a py \<Rightarrow> ('a \<Rightarrow> 'b py) \<Rightarrow> 'b py" where
  "hbind m f = (\<lambda>h. case m h of Inl e \<Rightarrow> Inl e | Inr (x, h') \<Rightarrow> f x h')"

definition lift :: "error + 'a \<Rightarrow> 'a py" where
  "lift r = (\<lambda>h. case r of Inl e \<Rightarrow> Inl e | Inr x \<Rightarrow> Inr (x, h))"

definition new_obj :: "obj \<Rightarrow> addr py" where
  "new_obj ob = (\<lambda>h. Inr (length h, h @ [ob]))"

text \<open>Reading an address that was never allocated is outside the model.\<close>

definition get_obj :: "addr \<Rightarrow> obj py" where
  "get_obj a = (\<lambda>h. if a < length h then Inr (h ! a, h) else Inl Unsupported)"

definition set_obj :: "addr \<Rightarrow> obj \<Rightarrow> unit py" where
  "set_obj a ob = (\<lambda>h. if a < length h then Inr ((), h[a := ob]) else Inl Unsupported)"

text \<open>The attributes \<open>.val\<close> and \<open>.jac\<close>, read and assigned.\<close>

definition get_val :: "addr \<Rightarrow> addr py" where
  "get_val a = hbind (get_obj a) (\<lambda>ob.
     case ob of Ad_array v j \<Rightarrow> ret v | _ \<Rightarrow> raise_err AttributeError)"

definition get_jac :: "addr \<Rightarrow> addr py" where
  "get_jac a = hbind (get_obj a) (\<lambda>ob.
     case ob of Ad_array v j \<Rightarrow> ret j | _ \<Rightarrow> raise_err AttributeError)"

definition set_val :: "addr \<Rightarrow> addr \<Rightarrow> unit py" where
  "set_val a v = hbind (get_obj a) (\<lambda>ob.
     case ob of Ad_array v0 j \<Rightarrow> set_obj a (Ad_array v j) | _ \<Rightarrow> raise_err AttributeError)"

definition set_jac :: "addr \<Rightarrow> addr \<Rightarrow> unit py" where
  "set_jac a j = hbind (get_obj a) (\<lambda>ob.
     case ob of Ad_array v j0 \<Rightarrow> set_obj a (Ad_array v j) | _ \<Rightarrow> raise_err AttributeError)"

subsection \<open>Sparse matrices\<close>

definition wf_matrix :: "matrix \<Rightarrow> bool" where
  "wf_matrix A = (length (entries A) = nrows A \<and> list_all (\<lambda>r. length r = ncols A) (entries A))"

definition mat_entry :: "matrix \<Rightarrow> nat \<Rightarrow> nat \<Rightarrow> real" where
  "mat_entry A r c = entries A ! r ! c"

text \<open>\<open>sps.diags(xs)\<close>, \<open>sps.csc_matrix((n, m))\<close> and the identity matrix.\<close>

definition sps_diags :: "real list \<Rightarrow> matrix" where
  "sps_diags xs = Matrix (length xs) (length xs)
     (map (\<lambda>i. map (\<lambda>j. if i = j then xs ! i else 0) [0..<length xs]) [0..<length xs])"

definition np_ones :: "nat \<Rightarrow> real list" where
  "np_ones n = replicate n 1"

definition sps_zeros :: "nat \<Rightarrow> nat \<Rightarrow> matrix" where
  "sps_zeros n m = Matrix n m (replicate n (replicate m 0))"

text \<open>
  The matrix product \<open>A * B\<close> and the sum \<open>A + B\<close> of scipy, which raise a ValueError
  when the shapes do not fit, the product with a number and the negation.
\<close>

definition mat_mul :: "matrix \<Rightarrow> matrix \<Rightarrow> error + matrix" where
  "mat_mul A B =
     (if ncols A = nrows B then
        Inr (Matrix (nrows A) (ncols B)
          (map (\<lambda>row. map (\<lambda>c. sum_list (map (\<lambda>k. row ! k * entries B ! k ! c) [0..<ncols A]))
                          [0..<ncols B])
               (entries A)))
      else Inl ValueError)"

definition mat_add :: "matrix \<Rightarrow> matrix \<Rightarrow> error + matrix" where
  "mat_add A B =
     (if nrows A = nrows B \<and> ncols A = ncols B then
        Inr (Matrix (nrows A) (ncols A) (map2 (map2 (+)) (entries A) (entries B)))
      else Inl ValueError)"

definition mat_scale :: "real \<Rightarrow> matrix \<Rightarrow> matrix" where
  "mat_scale s A = Matrix (nrows A) (ncols A) (map (map (\<lambda>x. s * x)) (entries A))"

definition mat_neg :: "matrix \<Rightarrow> matrix" where
  "mat_neg A = Matrix (nrows A) (ncols A) (map (map uminus) (entries A))"

text \<open>
  \<open>sps.bmat([blocks])\<close> for one row of blocks: the blocks side by side. The blocks
  must have the same number of rows.
\<close>

definition bmat_row :: "matrix list \<Rightarrow> error + matrix" where
  "bmat_row blocks =
     (case blocks of
        [] \<Rightarrow> Inl ValueError
      | b # bs \<Rightarrow>
          if list_all (\<lambda>B. nrows B = nrows b) blocks then
            Inr (Matrix (nrows b) (sum_list (map ncols blocks))
                  (map (\<lambda>i. concat (map (\<lambda>B. entries B ! i) blocks)) [0..<nrows b]))
          else Inl ValueError)"

subsection \<open>The operators of numpy and scipy on objects\<close>

definition num_of :: "obj \<Rightarrow> real option" where
  "num_of ob = (case ob of PyFloat r \<Rightarrow> Some r | PyInt i \<Rightarrow> Some (of_int i) | _ \<Rightarrow> None)"

text \<open>
  An arithmetic operator on numbers and arrays of floats. Two Python integers give an
  integer when the operator is closed on the integers (\<open>+\<close>, \<open>*\<close>), every other pair of
  numbers gives a float; an array of floats with a number or an array of floats is
  elementwise. An array of integers as an operand is outside the model.
\<close>

definition num_binop :: "bool \<Rightarrow> (real \<Rightarrow> real \<Rightarrow> real) \<Rightarrow> obj \<Rightarrow> obj \<Rightarrow> error + obj" where
  "num_binop int_closed f x y =
     (case x of
        NdArray xs \<Rightarrow>
          (case y of
             NdArray ys \<Rightarrow>
               (case np_elementwise f xs ys of Inl e \<Rightarrow> Inl e | Inr zs \<Rightarrow> Inr (NdArray zs))
           | _ \<Rightarrow>
               (case num_of y of
                  None \<Rightarrow> Inl Unsupported
                | Some b \<Rightarrow> Inr (NdArray (map (\<lambda>a. f a b) xs))))
      | _ \<Rightarrow>
          (case num_of x of
             None \<Rightarrow> Inl Unsupported
           | Some a \<Rightarrow>
               (case y of
                  NdArray ys \<Rightarrow> Inr (NdArray (map (\<lambda>b. f a b) ys))
                | _ \<Rightarrow>
                    (case num_of y of
                       None \<Rightarrow> Inl Unsupported
                     | Some b \<Rightarrow>
                         (case (x, y) of
                            (PyInt i, PyInt j) \<Rightarrow>
                              if int_closed then Inr (PyInt (floor (f a b))) else Inr (PyFloat (f a b))
                          | _ \<Rightarrow> Inr (PyFloat (f a b)))))))"

text \<open>
  \<open>x * y\<close>: the matrix product of two sparse matrices, a sparse matrix scaled by a
  number, or the arithmetic product.
\<close>

definition mul_obj :: "obj \<Rightarrow> obj \<Rightarrow> error + obj" where
  "mul_obj x y =
     (case x of
        SpMatrix A \<Rightarrow>
          (case y of
             SpMatrix B \<Rightarrow> (case mat_mul A B of Inl e \<Rightarrow> Inl e | Inr C \<Rightarrow> Inr (SpMatrix C))
           | _ \<Rightarrow> (case num_of y of None \<Rightarrow> Inl Unsupported | Some s \<Rightarrow> Inr (SpMatrix (mat_scale s A))))
      | _ \<Rightarrow>
          (case y of
             SpMatrix B \<Rightarrow>
               (case num_of x of None \<Rightarrow> Inl Unsupported | Some s \<Rightarrow> Inr (SpMatrix (mat_scale s B)))
           | _ \<Rightarrow> num_binop True (\<lambda>a b. a * b) x y))"

text \<open>
  \<open>x + y\<close>: the sum of two sparse matrices; a sparse matrix and the number zero give a
  copy of the matrix, and scipy refuses any other number with a NotImplementedError.
\<close>

definition add_obj :: "obj \<Rightarrow> obj \<Rightarrow> error + obj" where
  "add_obj x y =
     (case x of
        SpMatrix A \<Rightarrow>
          (case y of
             SpMatrix B \<Rightarrow> (case mat_add A B of Inl e \<Rightarrow> Inl e | Inr C \<Rightarrow> Inr (SpMatrix C))
           | _ \<Rightarrow>
               (case num_of y of
                  None \<Rightarrow> Inl Unsupported
                | Some s \<Rightarrow> if s = 0 then Inr (SpMatrix A) else Inl NotImplementedError))
      | _ \<Rightarrow>
          (case y of
             SpMatrix B \<Rightarrow>
               (case num_of x of
                  None \<Rightarrow> Inl Unsupported
                | Some s \<Rightarrow> if s = 0 then Inr (SpMatrix B) else Inl NotImplementedError)
           | _ \<Rightarrow> num_binop True (\<lambda>a b. a + b) x y))"

definition neg_obj :: "obj \<Rightarrow> error + obj" where
  "neg_obj x =
     (case x of
        PyFloat r \<Rightarrow> Inr (PyFloat (- r))
      | PyInt i \<Rightarrow> Inr (PyInt (- i))
      | NdArray xs \<Rightarrow> Inr (NdArray (map uminus xs))
      | SpMatrix A \<Rightarrow> Inr (SpMatrix (mat_neg A))
      | _ \<Rightarrow> Inl Unsupported)"

text \<open>
  The power of floats. A whole exponent is repeated multiplication (or its inverse);
  any other exponent is the real power, which numpy leaves as NaN for a negative base.
\<close>

definition float_pow :: "real \<Rightarrow> real \<Rightarrow> real" where
  "float_pow x y =
     (if y = of_int (floor y) then
        (if 0 \<le> y then x ^ nat (floor y) else inverse (x ^ nat (floor (- y))))
      else x powr y)"

definition pow_obj :: "obj \<Rightarrow> obj \<Rightarrow> error + obj" where
  "pow_obj x y = num_binop False float_pow x y"

definition map_obj :: "(real \<Rightarrow> real) \<Rightarrow> obj \<Rightarrow> error + obj" where
  "map_obj f x =
     (case x of
        NdArray xs \<Rightarrow> Inr (NdArray (map f xs))
      | _ \<Rightarrow> (case num_of x of None \<Rightarrow> Inl Unsupported | Some a \<Rightarrow> Inr (PyFloat (f a))))"

subsection \<open>Operators on references\<close>

text \<open>
  Every numpy and scipy operator returns a new object. On an array of objects the
  operator works entry by entry and returns a new array of the new entries; an entry
  that is itself an array of objects is outside the model.
\<close>

fun for_each :: "('a \<Rightarrow> 'b py) \<Rightarrow> 'a list \<Rightarrow> 'b list py" where
  "for_each body [] = ret []"
| "for_each body (x # xs) =
     hbind (body x) (\<lambda>y. hbind (for_each body xs) (\<lambda>ys. ret (y # ys)))"

definition alloc_all :: "(error + obj) list \<Rightarrow> addr list py" where
  "alloc_all rs = for_each (\<lambda>r. hbind (lift r) new_obj) rs"

definition get_objs :: "addr list \<Rightarrow> obj list py" where
  "get_objs as = (\<lambda>h. if list_all (\<lambda>a. a < length h) as then Inr (map (\<lambda>a. h ! a) as, h)
                       else Inl Unsupported)"

definition py_unop :: "(obj \<Rightarrow> error + obj) \<Rightarrow> addr \<Rightarrow> addr py" where
  "py_unop f a = hbind (get_obj a) (\<lambda>x.
     case x of
       ObjArray cs \<Rightarrow>
         hbind (get_objs cs) (\<lambda>xs.
         hbind (alloc_all (map f xs)) (\<lambda>rs. new_obj (ObjArray rs)))
     | _ \<Rightarrow> hbind (lift (f x)) new_obj)"

definition py_binop :: "(obj \<Rightarrow> obj \<Rightarrow> error + obj) \<Rightarrow> addr \<Rightarrow> addr \<Rightarrow> addr py" where
  "py_binop f a b = hbind (get_obj a) (\<lambda>x. hbind (get_obj b) (\<lambda>y.
     case x of
       ObjArray cs \<Rightarrow>
         (case y of
            ObjArray ds \<Rightarrow>
              if length cs = length ds then
                hbind (get_objs cs) (\<lambda>xs. hbind (get_objs ds) (\<lambda>ys.
                hbind (alloc_all (map2 f xs ys)) (\<lambda>rs. new_obj (ObjArray rs))))
              else raise_err ValueError
          | _ \<Rightarrow>
              hbind (get_objs cs) (\<lambda>xs.
              hbind (alloc_all (map (\<lambda>c. f c y) xs)) (\<lambda>rs. new_obj (ObjArray rs))))
     | _ \<Rightarrow>
         (case y of
            ObjArray ds \<Rightarrow>
              hbind (get_objs ds) (\<lambda>ys.
              hbind (alloc_all (map (\<lambda>d. f x d) ys)) (\<lambda>rs. new_obj (ObjArray rs)))
          | _ \<Rightarrow> hbind (lift (f x y)) new_obj)))"

definition py_add :: "addr \<Rightarrow> addr \<Rightarrow> addr py" where
  "py_add a b = py_binop add_obj a b"

definition py_mul :: "addr \<Rightarrow> addr \<Rightarrow> addr py" where
  "py_mul a b = py_binop mul_obj a b"

definition py_pow :: "addr \<Rightarrow> addr \<Rightarrow> addr py" where
  "py_pow a b = py_binop pow_obj a b"

definition py_neg :: "addr \<Rightarrow> addr py" where
  "py_neg a = py_unop neg_obj a"

text \<open>
  \<open>x.copy()\<close>: an array of numbers and a sparse matrix are copied; an array of objects
  gets a new array that holds the same entries (numpy's copy of an object array is
  shallow); a number has no \<open>copy\<close> method, which is an AttributeError.
\<close>

definition py_copy :: "addr \<Rightarrow> addr py" where
  "py_copy a = hbind (get_obj a) (\<lambda>x.
     case x of
       NdArray xs \<Rightarrow> new_obj (NdArray xs)
     | IntArray ks \<Rightarrow> new_obj (IntArray ks)
     | SpMatrix A \<Rightarrow> new_obj (SpMatrix A)
     | ObjArray cs \<Rightarrow> new_obj (ObjArray cs)
     | PyList cs \<Rightarrow> new_obj (PyList cs)
     | Ad_array v j \<Rightarrow> raise_err Unsupported
     | _ \<Rightarrow> raise_err AttributeError)"

text \<open>\<open>try: ... except AttributeError: ...\<close>\<close>

definition except_AttributeError :: "'a py \<Rightarrow> 'a py \<Rightarrow> 'a py" where
  "except_AttributeError m handler =
     (\<lambda>h. case m h of Inl AttributeError \<Rightarrow> handler h | r \<Rightarrow> r)"

definition except_TypeError :: "'a py \<Rightarrow> 'a py \<Rightarrow> 'a py" where
  "except_TypeError m handler =
     (\<lambda>h. case m h of Inl TypeError \<Rightarrow> handler h | r \<Rightarrow> r)"

text \<open>
  \<open>float(x)\<close>, \<open>x.astype(float)\<close>, \<open>x - y\<close> and a numpy function applied to a
  number or entry by entry to an array.
\<close>

definition py_float :: "addr \<Rightarrow> addr py" where
  "py_float a = hbind (get_obj a) (\<lambda>x.
     case num_of x of None \<Rightarrow> raise_err TypeError | Some r \<Rightarrow> new_obj (PyFloat r))"

definition py_astype_float :: "addr \<Rightarrow> addr py" where
  "py_astype_float a = hbind (get_obj a) (\<lambda>x.
     case x of
       NdArray xs \<Rightarrow> new_obj (NdArray xs)
     | IntArray ks \<Rightarrow> new_obj (NdArray (map of_int ks))
     | _ \<Rightarrow> raise_err Unsupported)"

definition py_sub :: "addr \<Rightarrow> addr \<Rightarrow> addr py" where
  "py_sub a b = py_binop (num_binop True (\<lambda>x y. x - y)) a b"

definition py_ufunc :: "(real \<Rightarrow> real) \<Rightarrow> addr \<Rightarrow> addr py" where
  "py_ufunc f a = hbind (get_obj a) (\<lambda>x. hbind (lift (map_obj f x)) new_obj)"

text \<open>
  The attribute \<open>.size\<close>: numpy arrays have it, Python numbers, lists and
  \<open>Ad_array\<close> instances do not.
\<close>

definition size_of :: "obj \<Rightarrow> error + nat" where
  "size_of x =
     (case x of
        NdArray xs \<Rightarrow> Inr (length xs)
      | IntArray ks \<Rightarrow> Inr (length ks)
      | ObjArray cs \<Rightarrow> Inr (length cs)
      | SpMatrix A \<Rightarrow> Inl Unsupported
      | _ \<Rightarrow> Inl AttributeError)"

fun sizes_of :: "obj list \<Rightarrow> error + nat list" where
  "sizes_of [] = Inr []"
| "sizes_of (x # xs) =
     (case size_of x of
        Inl e \<Rightarrow> Inl e
      | Inr n \<Rightarrow> (case sizes_of xs of Inl e \<Rightarrow> Inl e | Inr ns \<Rightarrow> Inr (n # ns)))"

section \<open>Forward-mode automatic differentiation\<close>

subsection \<open>Seeding\<close>

text \<open>
  \<open>Ad_array(val, jac)\<close> stores the two references it is given;
  \<open>Ad_array()\<close> has the defaults \<open>val=1.0\<close> and \<open>jac=0.0\<close>.
\<close>

definition new_Ad_array :: "addr \<Rightarrow> addr \<Rightarrow> addr py" where
  "new_Ad_array v j = new_obj (Ad_array v j)"

definition default_Ad_array :: "addr py" where
  "default_Ad_array =
     hbind (new_obj (PyFloat 1)) (\<lambda>v. hbind (new_obj (PyFloat 0)) (\<lambda>j. new_Ad_array v j))"

text \<open>
  One pass of the loop of \<open>initAdArrays\<close>: a row of zero blocks, one per variable,
  with the block of variable \<open>i\<close> replaced by the identity, joined by \<open>sps.bmat\<close>.
\<close>

definition seed_jacobian :: "nat list \<Rightarrow> nat \<Rightarrow> error + matrix" where
  "seed_jacobian num_val i =
     (let n = num_val ! i;
          jac = map (\<lambda>m. sps_zeros n m) num_val;
          jac = jac[i := sps_diags (np_ones (num_val ! i))]
      in bmat_row jac)"

definition seed_variable :: "nat list \<Rightarrow> nat \<times> addr \<Rightarrow> addr py" where
  "seed_variable num_val iv =
     (case iv of (i, v) \<Rightarrow>
        hbind (lift (seed_jacobian num_val i)) (\<lambda>J.
        hbind (new_obj (SpMatrix J)) (\<lambda>jac.
        new_Ad_array v jac)))"

definition initAdArrays :: "addr \<Rightarrow> addr py" where
  "initAdArrays variables = hbind (get_obj variables) (\<lambda>x.
     case x of
       PyList vs \<Rightarrow>
         hbind (get_objs vs) (\<lambda>xs.
         hbind (lift (sizes_of xs)) (\<lambda>num_val.
         hbind (for_each (seed_variable num_val) (zip [0..<length vs] vs)) (\<lambda>ad_arrays.
         new_obj (PyList ad_arrays))))
     | _ \<Rightarrow>
         (let num_val = (case size_of x of Inr n \<Rightarrow> Inr n | Inl AttributeError \<Rightarrow> Inr 1 | Inl e \<Rightarrow> Inl e)
          in hbind (lift num_val) (\<lambda>n.
             hbind (new_obj (SpMatrix (sps_diags (np_ones n)))) (\<lambda>jac.
             new_Ad_array variables jac))))"

subsection \<open>The class \<open>Ad_array\<close>\<close>

definition is_Ad_array :: "obj \<Rightarrow> bool" where
  "is_Ad_array x = (case x of Ad_array v j \<Rightarrow> True | _ \<Rightarrow> False)"

text \<open>\<open>_cast\<close>: an \<open>Ad_array\<close> is returned as it is, anything else is wrapped.\<close>

definition cast_one :: "addr \<Rightarrow> addr py" where
  "cast_one var = hbind (get_obj var) (\<lambda>x.
     if is_Ad_array x then ret var
     else hbind (new_obj (PyFloat 0)) (\<lambda>j. new_Ad_array var j))"

definition cast :: "addr \<Rightarrow> addr py" where
  "cast variables = hbind (get_obj variables) (\<lambda>x.
     case x of
       PyList vars \<Rightarrow> hbind (for_each cast_one vars) (\<lambda>out_var. new_obj (PyList out_var))
     | _ \<Rightarrow> cast_one variables)"

definition Ad_array_copy :: "addr \<Rightarrow> addr py" where
  "Ad_array_copy self =
     hbind default_Ad_array (\<lambda>b.
     hbind (except_AttributeError
              (hbind (get_val self) (\<lambda>v. hbind (py_copy v) (\<lambda>c. set_val b c)))
              (hbind (get_val self) (\<lambda>v. set_val b v))) (\<lambda>u1.
     hbind (except_AttributeError
              (hbind (get_jac self) (\<lambda>j. hbind (py_copy j) (\<lambda>c. set_jac b c)))
              (hbind (get_jac self) (\<lambda>j. set_jac b j))) (\<lambda>u2.
     ret b)))"

definition Ad_array_add :: "addr \<Rightarrow> addr \<Rightarrow> addr py" where
  "Ad_array_add self other =
     hbind (cast other) (\<lambda>b.
     hbind default_Ad_array (\<lambda>c.
     hbind (get_val self) (\<lambda>sv. hbind (get_val b) (\<lambda>bv. hbind (py_add sv bv) (\<lambda>v.
     hbind (set_val c v) (\<lambda>u1.
     hbind (get_jac self) (\<lambda>sj. hbind (get_jac b) (\<lambda>bj. hbind (py_add sj bj) (\<lambda>j.
     hbind (set_jac c j) (\<lambda>u2.
     ret c))))))))))"

definition Ad_array_radd :: "addr \<Rightarrow> addr \<Rightarrow> addr py" where
  "Ad_array_radd self other = Ad_array_add self other"

definition negate_fields :: "addr \<Rightarrow> addr py" where
  "negate_fields b =
     hbind (get_val b) (\<lambda>v. hbind (py_neg v) (\<lambda>nv. hbind (set_val b nv) (\<lambda>u1.
     hbind (get_jac b) (\<lambda>j. hbind (py_neg j) (\<lambda>nj. hbind (set_jac b nj) (\<lambda>u2.
     ret b))))))"

definition Ad_array_sub :: "addr \<Rightarrow> addr \<Rightarrow> addr py" where
  "Ad_array_sub self other =
     hbind (cast other) (\<lambda>c.
     hbind (Ad_array_copy c) (\<lambda>b.
     hbind (negate_fields b) (\<lambda>b.
     Ad_array_add self b)))"

definition Ad_array_neg :: "addr \<Rightarrow> addr py" where
  "Ad_array_neg self = hbind (Ad_array_copy self) (\<lambda>b. negate_fields b)"

definition Ad_array_rsub :: "addr \<Rightarrow> addr \<Rightarrow> addr py" where
  "Ad_array_rsub self other = hbind (Ad_array_sub self other) (\<lambda>d. Ad_array_neg d)"

text \<open>
  \<open>diagvec_mul_jac\<close> and \<open>jac_mul_diagvec\<close>: \<open>sps.diags\<close> makes a diagonal matrix
  of an array and raises a TypeError on a number or a sparse matrix, which is then used
  as it is. A Jacobian stored as an array of matrices is multiplied entry by entry. The
  diagonal matrix of an array of integers is a matrix of integers, outside the model.
\<close>

definition sps_diags_py :: "addr \<Rightarrow> addr py" where
  "sps_diags_py a = hbind (get_obj a) (\<lambda>x.
     case x of
       NdArray xs \<Rightarrow> new_obj (SpMatrix (sps_diags xs))
     | IntArray ks \<Rightarrow> raise_err Unsupported
     | PyFloat r \<Rightarrow> raise_err TypeError
     | PyInt i \<Rightarrow> raise_err TypeError
     | SpMatrix A \<Rightarrow> raise_err TypeError
     | _ \<Rightarrow> raise_err Unsupported)"

definition diagvec_mul_jac :: "addr \<Rightarrow> addr \<Rightarrow> addr py" where
  "diagvec_mul_jac self a =
     hbind (except_TypeError (sps_diags_py a) (ret a)) (\<lambda>A.
     hbind (get_jac self) (\<lambda>jac.
     hbind (get_obj jac) (\<lambda>J.
     case J of
       ObjArray cs \<Rightarrow>
         hbind (for_each (\<lambda>c. py_mul A c) cs) (\<lambda>rs. new_obj (ObjArray rs))
     | NdArray xs \<Rightarrow> raise_err Unsupported
     | IntArray ks \<Rightarrow> raise_err Unsupported
     | _ \<Rightarrow> py_mul A jac)))"

definition jac_mul_diagvec :: "addr \<Rightarrow> addr \<Rightarrow> addr py" where
  "jac_mul_diagvec self a =
     hbind (except_TypeError (sps_diags_py a) (ret a)) (\<lambda>A.
     hbind (get_jac self) (\<lambda>jac.
     hbind (get_obj jac) (\<lambda>J.
     case J of
       ObjArray cs \<Rightarrow>
         hbind (for_each (\<lambda>c. py_mul c A) cs) (\<lambda>rs. new_obj (ObjArray rs))
     | NdArray xs \<Rightarrow> raise_err Unsupported
     | IntArray ks \<Rightarrow> raise_err Unsupported
     | _ \<Rightarrow> py_mul jac A)))"

definition Ad_array_mul :: "addr \<Rightarrow> addr \<Rightarrow> addr py" where
  "Ad_array_mul self other = hbind (get_obj other) (\<lambda>x.
     if \<not> is_Ad_array x then
       hbind (get_val self) (\<lambda>sv. hbind (py_mul sv other) (\<lambda>v.
       hbind (case x of
                NdArray xs \<Rightarrow> diagvec_mul_jac self other
              | IntArray ks \<Rightarrow> diagvec_mul_jac self other
              | ObjArray cs \<Rightarrow> diagvec_mul_jac self other
              | _ \<Rightarrow> hbind (get_jac self) (\<lambda>sj. py_mul sj other)) (\<lambda>j.
       new_Ad_array v j)))
     else
       hbind (get_val self) (\<lambda>sv. hbind (get_val other) (\<lambda>ov. hbind (py_mul sv ov) (\<lambda>v.
       hbind (diagvec_mul_jac self ov) (\<lambda>j1.
       hbind (get_val self) (\<lambda>sv2.
       hbind (diagvec_mul_jac other sv2) (\<lambda>j2.
       hbind (py_add j1 j2) (\<lambda>j.
       new_Ad_array v j))))))))"

definition Ad_array_rmul :: "addr \<Rightarrow> addr \<Rightarrow> addr py" where
  "Ad_array_rmul self other = hbind (get_obj other) (\<lambda>x.
     if is_Ad_array x then raise_err RuntimeError
     else
       hbind (get_val self) (\<lambda>sv. hbind (py_mul other sv) (\<lambda>v.
       hbind (get_jac self) (\<lambda>sj. hbind (py_mul other sj) (\<lambda>j.
       new_Ad_array v j)))))"

text \<open>
  \<open>__pow__\<close>. A plain exponent is a Python integer (first branch), an array of
  integers (second branch, with \<open>other.astype(float)\<close>) or anything else (last
  branch), an array of floats among them. For an \<open>Ad_array\<close> exponent whose value is
  an array of integers the products are outside the model.
\<close>

definition Ad_array_pow :: "addr \<Rightarrow> addr \<Rightarrow> addr py" where
  "Ad_array_pow self other = hbind (get_obj other) (\<lambda>x.
     hbind
       (if \<not> is_Ad_array x then
          (case x of
             PyInt i \<Rightarrow>
               hbind (get_val self) (\<lambda>sv. hbind (py_float other) (\<lambda>e. hbind (py_pow sv e) (\<lambda>v.
               hbind (new_obj (PyInt 1)) (\<lambda>one. hbind (py_sub other one) (\<lambda>d.
               hbind (py_float d) (\<lambda>e1. hbind (py_pow sv e1) (\<lambda>p. hbind (py_mul other p) (\<lambda>a.
               hbind (diagvec_mul_jac self a) (\<lambda>j. ret (v, j))))))))))
           | IntArray ks \<Rightarrow>
               hbind (get_val self) (\<lambda>sv. hbind (py_astype_float other) (\<lambda>e. hbind (py_pow sv e) (\<lambda>v.
               hbind (py_astype_float other) (\<lambda>e0. hbind (new_obj (PyInt 1)) (\<lambda>one.
               hbind (py_sub e0 one) (\<lambda>e1. hbind (py_pow sv e1) (\<lambda>p. hbind (py_mul other p) (\<lambda>a.
               hbind (diagvec_mul_jac self a) (\<lambda>j. ret (v, j))))))))))
           | _ \<Rightarrow>
               hbind (get_val self) (\<lambda>sv. hbind (py_pow sv other) (\<lambda>v.
               hbind (new_obj (PyInt 1)) (\<lambda>one. hbind (py_sub other one) (\<lambda>e1.
               hbind (py_pow sv e1) (\<lambda>p. hbind (py_mul other p) (\<lambda>a.
               hbind (diagvec_mul_jac self a) (\<lambda>j. ret (v, j)))))))))
        else
          hbind (get_val other) (\<lambda>ov. hbind (get_obj ov) (\<lambda>y.
          hbind (get_val self) (\<lambda>sv.
          case y of
            NdArray ys \<Rightarrow>
              hbind (py_astype_float ov) (\<lambda>e. hbind (py_pow sv e) (\<lambda>v.
              hbind (py_astype_float ov) (\<lambda>e0. hbind (new_obj (PyInt 1)) (\<lambda>one.
              hbind (py_sub e0 one) (\<lambda>e1. hbind (py_pow sv e1) (\<lambda>p. hbind (py_mul ov p) (\<lambda>a.
              hbind (diagvec_mul_jac self a) (\<lambda>j1.
              hbind (py_astype_float ov) (\<lambda>e2. hbind (py_pow sv e2) (\<lambda>q.
              hbind (py_ufunc ln sv) (\<lambda>l. hbind (py_mul q l) (\<lambda>a2.
              hbind (diagvec_mul_jac other a2) (\<lambda>j2.
              hbind (py_add j1 j2) (\<lambda>j. ret (v, j)))))))))))))))
          | IntArray ks \<Rightarrow> raise_err Unsupported
          | ObjArray cs \<Rightarrow> raise_err Unsupported
          | _ \<Rightarrow>
              if num_of y = None then raise_err AssertionError
              else
                hbind (py_float ov) (\<lambda>e. hbind (py_pow sv e) (\<lambda>v.
                hbind (py_float ov) (\<lambda>e0. hbind (new_obj (PyInt 1)) (\<lambda>one.
                hbind (py_sub e0 one) (\<lambda>e1. hbind (py_pow sv e1) (\<lambda>p. hbind (py_mul ov p) (\<lambda>a.
                hbind (diagvec_mul_jac self a) (\<lambda>j1.
                hbind (py_float ov) (\<lambda>e2. hbind (py_pow sv e2) (\<lambda>q.
                hbind (py_ufunc ln sv) (\<lambda>l. hbind (py_mul q l) (\<lambda>a2.
                hbind (diagvec_mul_jac other a2) (\<lambda>j2.
                hbind (py_add j1 j2) (\<lambda>j. ret (v, j)))))))))))))))))))
       (\<lambda>vj. case vj of (v, j) \<Rightarrow> new_Ad_array v j))"

text \<open>
  \<open>__rpow__\<close> (\<open>other ** self\<close> for a plain \<open>other\<close>). In its last branch, for a
  value that is neither an array nor an integer, the code evaluates \<open>other ** self\<close>
  again, which calls \<open>__rpow__\<close> without end: Python gives up with a RecursionError.
\<close>

definition Ad_array_rpow :: "addr \<Rightarrow> addr \<Rightarrow> addr py" where
  "Ad_array_rpow self other = hbind (get_obj other) (\<lambda>x.
     if is_Ad_array x then raise_err ValueError
     else
       hbind (get_val self) (\<lambda>sv. hbind (get_obj sv) (\<lambda>y.
       case y of
         NdArray ys \<Rightarrow>
           hbind (py_astype_float sv) (\<lambda>e. hbind (py_pow other e) (\<lambda>v.
           hbind (py_astype_float sv) (\<lambda>e2. hbind (py_pow other e2) (\<lambda>p.
           hbind (py_ufunc ln other) (\<lambda>l. hbind (py_mul p l) (\<lambda>a.
           hbind (diagvec_mul_jac self a) (\<lambda>j. new_Ad_array v j)))))))
       | PyInt i \<Rightarrow>
           hbind (py_float sv) (\<lambda>e. hbind (py_pow other e) (\<lambda>v.
           hbind (py_float sv) (\<lambda>e2. hbind (py_pow other e2) (\<lambda>p.
           hbind (py_ufunc ln other) (\<lambda>l. hbind (py_mul p l) (\<lambda>a.
           hbind (diagvec_mul_jac self a) (\<lambda>j. new_Ad_array v j)))))))
       | IntArray ks \<Rightarrow>
           hbind (py_astype_float sv) (\<lambda>e. hbind (py_pow other e) (\<lambda>v.
           hbind (py_astype_float sv) (\<lambda>e2. hbind (py_pow other e2) (\<lambda>p.
           hbind (py_ufunc ln other) (\<lambda>l. hbind (py_mul p l) (\<lambda>a.
           hbind (diagvec_mul_jac self a) (\<lambda>j. new_Ad_array v j)))))))
       | ObjArray cs \<Rightarrow> raise_err Unsupported
       | _ \<Rightarrow> raise_err RecursionError)))"

text \<open>
  \<open>__truediv__\<close>: multiplication by \<open>other ** -1\<close>, with the cast to float for a
  Python integer and for an array of integers.
\<close>

definition Ad_array_truediv :: "addr \<Rightarrow> addr \<Rightarrow> addr py" where
  "Ad_array_truediv self other = hbind (get_obj other) (\<lambda>x.
     case x of
       PyInt i \<Rightarrow>
         hbind (py_float other) (\<lambda>f. hbind (new_obj (PyInt (- 1))) (\<lambda>m1.
         hbind (py_pow f m1) (\<lambda>r. Ad_array_mul self r)))
     | IntArray ks \<Rightarrow>
         hbind (py_astype_float other) (\<lambda>f. hbind (new_obj (PyInt (- 1))) (\<lambda>m1.
         hbind (py_pow f m1) (\<lambda>r. Ad_array_mul self r)))
     | Ad_array v j \<Rightarrow>
         hbind (new_obj (PyInt (- 1))) (\<lambda>m1.
         hbind (Ad_array_pow other m1) (\<lambda>r. Ad_array_mul self r))
     | _ \<Rightarrow>
         hbind (new_obj (PyInt (- 1))) (\<lambda>m1.
         hbind (py_pow other m1) (\<lambda>r. Ad_array_mul self r)))"

subsection \<open>The elementary functions\<close>

text \<open>
  Every function of the library but the few below has one shape: on an \<open>Ad_array\<close>
  the value is a numpy function of \<open>var.val\<close> and the Jacobian is
  \<open>var.diagvec_mul_jac\<close> of a derivative multiplier computed from \<open>var.val\<close>; on
  anything else it is the numpy function alone. The multiplier is a numpy expression
  whose intermediate arrays are dropped; the model computes it in one step.
\<close>

definition elementary :: "(real \<Rightarrow> real) \<Rightarrow> (real \<Rightarrow> real) \<Rightarrow> addr \<Rightarrow> addr py" where
  "elementary f df var = hbind (get_obj var) (\<lambda>x.
     if is_Ad_array x then
       hbind (get_val var) (\<lambda>v. hbind (py_ufunc f v) (\<lambda>val.
       hbind (get_val var) (\<lambda>v2. hbind (py_ufunc df v2) (\<lambda>d.
       hbind (diagvec_mul_jac var d) (\<lambda>der.
       new_Ad_array val der)))))
     else py_ufunc f var)"

definition exp_ad :: "addr \<Rightarrow> addr py" where
  "exp_ad var = elementary exp exp var"

definition log_ad :: "addr \<Rightarrow> addr py" where
  "log_ad var = elementary ln (\<lambda>x. 1 / x) var"

definition sign_ad :: "addr \<Rightarrow> addr py" where
  "sign_ad var = hbind (get_obj var) (\<lambda>x.
     if \<not> is_Ad_array x then py_ufunc sgn var
     else hbind (get_val var) (\<lambda>v. py_ufunc sgn v))"

definition abs_ad :: "addr \<Rightarrow> addr py" where
  "abs_ad var = hbind (get_obj var) (\<lambda>x.
     if is_Ad_array x then
       hbind (get_val var) (\<lambda>v. hbind (py_ufunc abs v) (\<lambda>val.
       hbind (sign_ad var) (\<lambda>s.
       hbind (diagvec_mul_jac var s) (\<lambda>jac.
       new_Ad_array val jac))))
     else py_ufunc abs var)"

definition sin_ad :: "addr \<Rightarrow> addr py" where
  "sin_ad var = elementary sin cos var"

definition cos_ad :: "addr \<Rightarrow> addr py" where
  "cos_ad var = elementary cos (\<lambda>x. - sin x) var"

definition tan_ad :: "addr \<Rightarrow> addr py" where
  "tan_ad var = elementary tan (\<lambda>x. float_pow (float_pow (cos x) 2) (- 1)) var"

definition arcsin_ad :: "addr \<Rightarrow> addr py" where
  "arcsin_ad var = elementary arcsin (\<lambda>x. float_pow (1 - float_pow x 2) (- 0.5)) var"

definition arccos_ad :: "addr \<Rightarrow> addr py" where
  "arccos_ad var = elementary arccos (\<lambda>x. - float_pow (1 - float_pow x 2) (- 0.5)) var"

definition arctan_ad :: "addr \<Rightarrow> addr py" where
  "arctan_ad var = elementary arctan (\<lambda>x. float_pow (float_pow x 2 + 1) (- 1)) var"

definition sinh_ad :: "addr \<Rightarrow> addr py" where
  "sinh_ad var = elementary sinh cosh var"

definition cosh_ad :: "addr \<Rightarrow> addr py" where
  "cosh_ad var = elementary cosh sinh var"

definition tanh_ad :: "addr \<Rightarrow> addr py" where
  "tanh_ad var = elementary tanh (\<lambda>x. float_pow (cosh x) (- 2)) var"

definition arcsinh_ad :: "addr \<Rightarrow> addr py" where
  "arcsinh_ad var = elementary arsinh (\<lambda>x. float_pow (float_pow x 2 + 1) (- 0.5)) var"

definition arccosh_ad :: "addr \<Rightarrow> addr py" where
  "arccosh_ad var =
     elementary arcosh (\<lambda>x. float_pow (x - 1) (- 0.5) * float_pow (x + 1) (- 0.5)) var"

definition arctanh_ad :: "addr \<Rightarrow> addr py" where
  "arctanh_ad var = elementary artanh (\<lambda>x. float_pow (1 - float_pow x 2) (- 1)) var"

text \<open>\<open>np.heaviside(x, zerovalue)\<close>; the function returns a plain array for either input.\<close>

definition np_heaviside :: "real \<Rightarrow> real \<Rightarrow> real" where
  "np_heaviside zerovalue x = (if x < 0 then 0 else if x = 0 then zerovalue else 1)"

definition heaviside :: "addr \<Rightarrow> real \<Rightarrow> addr py" where
  "heaviside var zerovalue = hbind (get_obj var) (\<lambda>x.
     if is_Ad_array x then hbind (get_val var) (\<lambda>v. py_ufunc (np_heaviside zerovalue) v)
     else py_ufunc (np_heaviside zerovalue) var)"

definition heaviside_smooth :: "addr \<Rightarrow> real \<Rightarrow> addr py" where
  "heaviside_smooth var eps =
     elementary (\<lambda>x. 0.5 * (1 + 2 * float_pow pi (- 1) * arctan (x * float_pow eps (- 1))))
                (\<lambda>x. float_pow pi (- 1) * eps * float_pow (float_pow eps 2 + float_pow x 2) (- 1))
                var"

text \<open>
  \<open>sps.csr_matrix(var.jac.shape)\<close>: a zero matrix of the shape of the Jacobian. A
  number has no \<open>shape\<close>; the shape of an array of matrices is not the shape of a matrix
  and is outside the model.
\<close>

definition zeros_like_jac :: "addr \<Rightarrow> addr py" where
  "zeros_like_jac j = hbind (get_obj j) (\<lambda>J.
     case J of
       SpMatrix A \<Rightarrow> new_obj (SpMatrix (sps_zeros (nrows A) (ncols A)))
     | PyFloat r \<Rightarrow> raise_err AttributeError
     | PyInt i \<Rightarrow> raise_err AttributeError
     | _ \<Rightarrow> raise_err Unsupported)"

definition characteristic_function :: "real \<Rightarrow> addr \<Rightarrow> addr py" where
  "characteristic_function tol var =
     hbind (get_val var) (\<lambda>v. hbind (get_obj v) (\<lambda>x.
     hbind (lift (size_of x)) (\<lambda>n.
     case x of
       NdArray xs \<Rightarrow>
         hbind (new_obj (NdArray (map (\<lambda>a. if abs a \<le> tol then 1 else 0) xs))) (\<lambda>vals.
         hbind (get_jac var) (\<lambda>j. hbind (zeros_like_jac j) (\<lambda>jac.
         new_Ad_array vals jac)))
     | _ \<Rightarrow> raise_err Unsupported)))"

text \<open>
  \<open>l2_norm\<close>. The values come in groups of \<open>dim\<close> (here \<open>n_dim\<close>); the norm of group \<open>i\<close> is the
  value, and the Jacobian is \<open>norm_jac * var.jac\<close>, where row \<open>i\<close> of \<open>norm_jac\<close>
  holds the entries of group \<open>i\<close> divided by its norm in the columns of the group, and
  zeros when the norm is not above \<open>1e-12\<close>.
\<close>

definition group_norm :: "nat \<Rightarrow> real list \<Rightarrow> nat \<Rightarrow> real" where
  "group_norm n_dim xs i = sqrt (sum_list (map (\<lambda>k. (xs ! (i * n_dim + k))\<^sup>2) [0..<n_dim]))"

definition norm_jac :: "nat \<Rightarrow> real list \<Rightarrow> matrix" where
  "norm_jac n_dim xs =
     Matrix (length xs div n_dim) (length xs)
       (map (\<lambda>i. map (\<lambda>t. if t div n_dim = i \<and> group_norm n_dim xs i > 1 / 10 ^ 12
                           then xs ! t / group_norm n_dim xs i else 0) [0..<length xs])
            [0..<length xs div n_dim])"

definition l2_norm :: "nat \<Rightarrow> addr \<Rightarrow> addr py" where
  "l2_norm n_dim var =
     (if n_dim = 1 then abs_ad var
      else
        hbind (get_val var) (\<lambda>v. hbind (get_obj v) (\<lambda>x.
        case x of
          NdArray xs \<Rightarrow>
            if n_dim = 0 \<or> length xs mod n_dim \<noteq> 0 then raise_err ValueError
            else
              hbind (new_obj (NdArray (map (group_norm n_dim xs) [0..<length xs div n_dim]))) (\<lambda>vals.
              hbind (new_obj (SpMatrix (norm_jac n_dim xs))) (\<lambda>nj.
              hbind (get_jac var) (\<lambda>j. hbind (py_mul nj j) (\<lambda>jac.
              new_Ad_array vals jac))))
        | PyFloat r \<Rightarrow> raise_err ValueError
        | PyInt i \<Rightarrow> raise_err ValueError
        | _ \<Rightarrow> raise_err Unsupported)))"

subsection \<open>\<open>maximum\<close>\<close>

definition is_number :: "obj \<Rightarrow> bool" where
  "is_number x = (case x of PyFloat r \<Rightarrow> True | PyInt i \<Rightarrow> True | _ \<Rightarrow> False)"

text \<open>\<open>np.ones_like(x)\<close>, the comparison \<open>y >= x\<close> and the masked assignment
  \<open>xs[inds] = ys[inds]\<close>, in which the mask must have the length of both arrays.\<close>

definition ones_like :: "addr \<Rightarrow> addr py" where
  "ones_like a = hbind (get_obj a) (\<lambda>x.
     case x of
       NdArray xs \<Rightarrow> new_obj (NdArray (np_ones (length xs)))
     | PyFloat r \<Rightarrow> new_obj (PyFloat 1)
     | PyInt i \<Rightarrow> new_obj (PyInt 1)
     | _ \<Rightarrow> raise_err Unsupported)"

definition np_ge :: "obj \<Rightarrow> obj \<Rightarrow> error + bool list" where
  "np_ge y x =
     (case num_binop False (\<lambda>b a. if b \<ge> a then 1 else 0) y x of
        Inl e \<Rightarrow> Inl e
      | Inr (NdArray zs) \<Rightarrow> Inr (map (\<lambda>z. z = 1) zs)
      | Inr ob \<Rightarrow> Inl Unsupported)"

definition mask_assign :: "real list \<Rightarrow> bool list \<Rightarrow> real list \<Rightarrow> error + real list" where
  "mask_assign xs inds ys =
     (if length inds = length xs \<and> length inds = length ys then
        Inr (map (\<lambda>i. if inds ! i then ys ! i else xs ! i) [0..<length xs])
      else Inl IndexError)"

definition nonzero :: "bool list \<Rightarrow> nat list" where
  "nonzero inds = filter (\<lambda>i. inds ! i) [0..<length inds]"

text \<open>
  Modelled from the spec: the helpers \<open>pp.matrix_operations.slice_mat\<close> and
  \<open>pp.matrix_operations.merge_matrices\<close> are outside the sources. For row-major
  matrices the first returns the listed rows of a matrix and the second replaces the
  listed rows of a matrix, in place, by the rows of another; this is what the
  docstring of \<open>maximum\<close> and the specification say of the Jacobian (the row of the
  operand that attains the maximum) and what the branch for dense Jacobians,
  \<open>max_jac[inds] = jacs[1][inds]\<close>, does. The storage format of a sparse matrix
  is not modelled.
\<close>

definition slice_mat :: "matrix \<Rightarrow> nat list \<Rightarrow> error + matrix" where
  "slice_mat A ind =
     (if list_all (\<lambda>i. i < nrows A) ind
      then Inr (Matrix (length ind) (ncols A) (map (\<lambda>i. entries A ! i) ind))
      else Inl IndexError)"

definition merge_matrices :: "matrix \<Rightarrow> matrix \<Rightarrow> nat list \<Rightarrow> error + matrix" where
  "merge_matrices A B lines =
     (if ncols A \<noteq> ncols B \<or> nrows B \<noteq> length lines \<or> \<not> list_all (\<lambda>i. i < nrows A) lines
      then Inl ValueError
      else Inr (Matrix (nrows A) (ncols A)
                 (fold (\<lambda>(i, row) rows. rows[i := row]) (zip lines (entries B)) (entries A))))"

text \<open>The value and the Jacobian that \<open>maximum\<close> collects for one argument.\<close>

definition value_and_jacobian :: "addr \<Rightarrow> addr \<Rightarrow> (addr \<times> addr) py" where
  "value_and_jacobian var zero_jac = hbind (get_obj var) (\<lambda>x.
     if is_Ad_array x then hbind (get_val var) (\<lambda>v. hbind (get_jac var) (\<lambda>j. ret (v, j)))
     else ret (var, zero_jac))"

text \<open>
  The three stages of \<open>maximum\<close> after the values and Jacobians are collected:
  the broadcasting of a scalar value, the entrywise maximum with its mask
  \<open>inds = vals[1] >= vals[0]\<close>, and the Jacobian.
\<close>

definition broadcast_values :: "addr \<Rightarrow> addr \<Rightarrow> (addr \<times> addr) py" where
  "broadcast_values v0 v1 = hbind (get_obj v0) (\<lambda>y0. hbind (get_obj v1) (\<lambda>y1.
     hbind (if is_number y0 then ret v0
            else hbind (ones_like v1) (\<lambda>o1. py_mul o1 v0)) (\<lambda>w0.
     hbind (if is_number y1 then hbind (ones_like w0) (\<lambda>o0. py_mul o0 v1)
            else ret v1) (\<lambda>w1.
     ret (w0, w1)))))"

definition masked_maximum :: "addr \<Rightarrow> addr \<Rightarrow> (addr \<times> bool list) py" where
  "masked_maximum w0 w1 = hbind (get_obj w0) (\<lambda>a0. hbind (get_obj w1) (\<lambda>a1.
     hbind (lift (np_ge a1 a0)) (\<lambda>inds.
     hbind (py_copy w0) (\<lambda>max_val.
     hbind (get_obj max_val) (\<lambda>m.
     hbind (case m of
              NdArray xs \<Rightarrow>
                (case a1 of
                   NdArray ys \<Rightarrow>
                     hbind (lift (mask_assign xs inds ys)) (\<lambda>zs. set_obj max_val (NdArray zs))
                 | _ \<Rightarrow> raise_err Unsupported)
            | _ \<Rightarrow> raise_err Unsupported) (\<lambda>u.
     ret (max_val, inds)))))))"

definition maximum_jacobian :: "addr \<Rightarrow> addr \<Rightarrow> bool list \<Rightarrow> addr \<Rightarrow> addr py" where
  "maximum_jacobian j0 j1 inds max_val = hbind (get_obj j0) (\<lambda>J0.
     if is_number J0 then
       hbind (get_obj j1) (\<lambda>J1.
       if num_of J0 = Some 0 \<and> num_of J1 = Some 0
       then hbind (new_obj (PyInt 0)) (\<lambda>z. new_Ad_array max_val z)
       else raise_err AssertionError)
     else
       hbind (py_copy j0) (\<lambda>max_jac.
       hbind (get_obj max_jac) (\<lambda>M.
       case M of
         SpMatrix A \<Rightarrow>
           hbind (get_obj j1) (\<lambda>J1.
           case J1 of
             SpMatrix B \<Rightarrow>
               hbind (lift (slice_mat B (nonzero inds))) (\<lambda>lines.
               hbind (lift (merge_matrices A lines (nonzero inds))) (\<lambda>C.
               hbind (set_obj max_jac (SpMatrix C)) (\<lambda>u.
               new_Ad_array max_val max_jac)))
           | PyFloat r \<Rightarrow> raise_err AttributeError
           | PyInt i \<Rightarrow> raise_err AttributeError
           | _ \<Rightarrow> raise_err Unsupported)
       | _ \<Rightarrow> raise_err Unsupported)))"

definition maximum :: "addr \<Rightarrow> addr \<Rightarrow> addr py" where
  "maximum var_0 var_1 = hbind (get_obj var_0) (\<lambda>x0. hbind (get_obj var_1) (\<lambda>x1.
     if \<not> is_Ad_array x0 \<and> \<not> is_Ad_array x1 then
       py_binop (num_binop True max) var_0 var_1
     else
       hbind (if is_Ad_array x0 then hbind (get_jac var_0) zeros_like_jac
              else hbind (get_jac var_1) zeros_like_jac) (\<lambda>zero_jac.
       hbind (value_and_jacobian var_0 zero_jac) (\<lambda>vj0.
       hbind (value_and_jacobian var_1 zero_jac) (\<lambda>vj1.
       hbind (get_obj (fst vj0)) (\<lambda>y0. hbind (get_obj (fst vj1)) (\<lambda>y1.
       if is_number y0 \<and> is_number y1 then
         hbind (py_binop (num_binop False max) (fst vj0) (fst vj1)) (\<lambda>val.
         hbind (new_obj (PyInt 0)) (\<lambda>z. new_Ad_array val z))
       else
         hbind (broadcast_values (fst vj0) (fst vj1)) (\<lambda>w.
         hbind (masked_maximum (fst w) (snd w)) (\<lambda>mi.
         maximum_jacobian (snd vj0) (snd vj1) (snd mi) (fst mi))))))))))"

text \<open>
  What an address holds when it is an \<open>Ad_array\<close> whose value is a numeric array
  and whose Jacobian is a sparse matrix: the entries of the array and the matrix.
\<close>

definition ad_view :: "heap \<Rightarrow> addr \<Rightarrow> (real list \<times> matrix) option" where
  "ad_view h a =
     (if a < length h then
        (case h ! a of
           Ad_array v j \<Rightarrow>
             if v < length h \<and> j < length h then
               (case h ! v of
                  NdArray xs \<Rightarrow> (case h ! j of SpMatrix A \<Rightarrow> Some (xs, A) | _ \<Rightarrow> None)
                | _ \<Rightarrow> None)
             else None
         | _ \<Rightarrow> None)
      else None)"

text \<open>The matrix whose row \<open>r\<close> is row \<open>r\<close> of \<open>A\<close> times \<open>ys ! r\<close>.\<close>

definition row_scale :: "real list \<Rightarrow> matrix \<Rightarrow> matrix" where
  "row_scale ys A = Matrix (length ys) (ncols A)
      (map (\<lambda>r. map (\<lambda>c. ys ! r * mat_entry A r c) [0..<ncols A]) [0..<length ys])"

text \<open>The Jacobian of a product, entry by entry.\<close>

definition product_rule_jac :: "real list \<Rightarrow> matrix \<Rightarrow> real list \<Rightarrow> matrix \<Rightarrow> matrix" where
  "product_rule_jac xs A ys B = Matrix (length xs) (ncols A)
     (map (\<lambda>r. map (\<lambda>c. ys ! r * mat_entry A r c + xs ! r * mat_entry B r c) [0..<ncols A])
          [0..<length xs])"

text \<open>A heap with one seeded variable: the value [3, 4] with the identity as Jacobian.\<close>

definition square_heap :: heap where
  "square_heap = [NdArray [3, 4], SpMatrix (sps_diags (np_ones 2)), Ad_array 0 1]"

text \<open>
  The scenario of the specification: a list of the two one-entry vectors [3] and [4]
  (and the exponent 2), the heap after seeding it, and the same list holding the Python
  integers 3 and 4 themselves.
\<close>

definition seed_heap :: heap where
  "seed_heap = [NdArray [3], NdArray [4], PyList [0, 1], PyInt 2]"

definition seeded_heap :: heap where
  "seeded_heap = seed_heap @
     [SpMatrix (Matrix 1 2 [[1, 0]]), Ad_array 0 4,
      SpMatrix (Matrix 1 2 [[0, 1]]), Ad_array 1 6, PyList [5, 7]]"

definition int_seed_heap :: heap where
  "int_seed_heap = [PyInt 3, PyInt 4, PyList [0, 1]]"

text \<open>
  The Jacobian the seeding gives variable \<open>i\<close> of a list with the sizes \<open>num_val\<close>:
  one row per entry of the variable, one column per entry of the whole list, and a one
  exactly where the column is the position of the entry in the whole list.
\<close>

definition block_identity :: "nat list \<Rightarrow> nat \<Rightarrow> matrix" where
  "block_identity num_val i = Matrix (num_val ! i) (sum_list num_val)
     (map (\<lambda>r. map (\<lambda>c. if c = sum_list (take i num_val) + r then 1 else 0) [0..<sum_list num_val])
          [0..<num_val ! i])"

text \<open>
  The kinds of object the model covers as the value and as the Jacobian of an
  \<open>Ad_array\<close>, and an \<open>Ad_array\<close> whose two fields are of these kinds.
\<close>

definition value_kind :: "obj \<Rightarrow> bool" where
  "value_kind x =
     (case x of NdArray xs \<Rightarrow> True | IntArray ks \<Rightarrow> True | PyFloat r \<Rightarrow> True
      | PyInt i \<Rightarrow> True | _ \<Rightarrow> False)"

definition jacobian_kind :: "obj \<Rightarrow> bool" where
  "jacobian_kind x =
     (case x of SpMatrix A \<Rightarrow> True | ObjArray cs \<Rightarrow> True | PyFloat r \<Rightarrow> True | PyInt i \<Rightarrow> True
      | _ \<Rightarrow> False)"

definition ad_at :: "heap \<Rightarrow> addr \<Rightarrow> addr \<Rightarrow> addr \<Rightarrow> bool" where
  "ad_at h a v j = (a < length h \<and> h ! a = Ad_array v j \<and> v < length h \<and> j < length h
     \<and> value_kind (h ! v) \<and> jacobian_kind (h ! j))"

text \<open>
  What \<open>x.copy()\<close> gives for a field \<open>x\<close> of the original in the heap after the
  copy: a number is reused, anything else is a new object with the same content (for
  an array of matrices, the same entries: the matrices themselves are shared).
\<close>

definition copied_field :: "heap \<Rightarrow> heap \<Rightarrow> addr \<Rightarrow> addr \<Rightarrow> bool" where
  "copied_field h h' x x' =
     (if is_number (h ! x) then x' = x
      else length h \<le> x' \<and> x' < length h' \<and> h' ! x' = h ! x)"

text \<open>
  A heap with an \<open>Ad_array\<close> (address 3) whose Jacobian (address 2) is an array of
  one matrix (address 1), and a matrix to overwrite a component with.
\<close>

definition legacy_heap :: heap where
  "legacy_heap = [NdArray [5], SpMatrix (Matrix 1 1 [[1]]), ObjArray [1], Ad_array 0 2]"

text \<open>The rows of the Jacobian of a maximum: row \<open>r\<close> of \<open>B\<close> where the mask holds,
  row \<open>r\<close> of \<open>A\<close> elsewhere.\<close>

definition select_rows :: "bool list \<Rightarrow> matrix \<Rightarrow> matrix \<Rightarrow> matrix" where
  "select_rows inds A B = Matrix (nrows A) (ncols A)
     (map (\<lambda>r. if inds ! r then entries B ! r else entries A ! r) [0..<nrows A])"

text \<open>A heap with two seeded variables of two entries each and a plain array.\<close>

definition max_heap :: heap where
  "max_heap = [NdArray [1, 5], SpMatrix (Matrix 2 4 [[1, 0, 0, 0], [0, 1, 0, 0]]), Ad_array 0 1,
               NdArray [1, 2], SpMatrix (Matrix 2 4 [[0, 0, 1, 0], [0, 0, 0, 1]]), Ad_array 3 4,
               NdArray [7, 0]]"

text \<open>
  Frame properties relative to the first \<open>n\<close> addresses (the heap at the start of
  an operator): a step keeps them as they are; a step also returns a value with a
  property; a step returns a new object whose fields, when it is an \<open>Ad_array\<close>, are
  new objects too.
\<close>

definition keeps_with :: "nat \<Rightarrow> 'a py \<Rightarrow> ('a \<Rightarrow> bool) \<Rightarrow> bool" where
  "keeps_with n m P = (\<forall>h x h'. n \<le> length h \<and> m h = Inr (x, h')
       \<longrightarrow> n \<le> length h' \<and> take n h' = take n h \<and> P x)"

definition fresh_at :: "nat \<Rightarrow> addr \<Rightarrow> heap \<Rightarrow> bool" where
  "fresh_at n r h = (n \<le> r \<and> r < length h \<and> (\<forall>v j. h ! r = Ad_array v j \<longrightarrow> n \<le> v \<and> n \<le> j))"

definition safe :: "nat \<Rightarrow> addr py \<Rightarrow> bool" where
  "safe n m = (\<forall>h r h'. n \<le> length h \<and> m h = Inr (r, h')
       \<longrightarrow> n \<le> length h' \<and> take n h' = take n h \<and> fresh_at n r h')"

text \<open>A step that only allocates, and one that allocates and returns a new address.\<close>

definition extends :: "'a py \<Rightarrow> bool" where
  "extends m = (\<forall>h x h'. m h = Inr (x, h') \<longrightarrow> (\<exists>ext. h' = h @ ext))"

definition allocates :: "addr py \<Rightarrow> bool" where
  "allocates m = (\<forall>h r h'. m h = Inr (r, h')
      \<longrightarrow> (\<exists>ext. h' = h @ ext) \<and> length h \<le> r \<and> r < length h'
          \<and> (\<forall>v j. h' ! r = Ad_array v j \<longrightarrow> length h \<le> v \<and> length h \<le> j))"

text \<open>The operators on objects never make an \<open>Ad_array\<close>.\<close>

definition plain :: "(error + obj) \<Rightarrow> bool" where
  "plain r = (case r of Inl e \<Rightarrow> True | Inr ob \<Rightarrow> \<not> is_Ad_array ob)"

text \<open>
  A call of one arithmetic operator of \<open>Ad_array\<close> or of one function of the
  library, with the references it is applied to. For a reflected operator the first
  reference is \<open>self\<close>.
\<close>

datatype ad_call =
    Call_add addr addr
  | Call_radd addr addr
  | Call_sub addr addr
  | Call_rsub addr addr
  | Call_mul addr addr
  | Call_rmul addr addr
  | Call_pow addr addr
  | Call_rpow addr addr
  | Call_truediv addr addr
  | Call_neg addr
  | Call_exp addr
  | Call_log addr
  | Call_sign addr
  | Call_abs addr
  | Call_l2_norm nat addr
  | Call_sin addr
  | Call_cos addr
  | Call_tan addr
  | Call_arcsin addr
  | Call_arccos addr
  | Call_arctan addr
  | Call_sinh addr
  | Call_cosh addr
  | Call_tanh addr
  | Call_arcsinh addr
  | Call_arccosh addr
  | Call_arctanh addr
  | Call_heaviside addr real
  | Call_heaviside_smooth addr real
  | Call_maximum addr addr
  | Call_characteristic_function real addr

fun run_call :: "ad_call \<Rightarrow> addr py" where
  "run_call (Call_add self other) = Ad_array_add self other"
| "run_call (Call_radd self other) = Ad_array_radd self other"
| "run_call (Call_sub self other) = Ad_array_sub self other"
| "run_call (Call_rsub self other) = Ad_array_rsub self other"
| "run_call (Call_mul self other) = Ad_array_mul self other"
| "run_call (Call_rmul self other) = Ad_array_rmul self other"
| "run_call (Call_pow self other) = Ad_array_pow self other"
| "run_call (Call_rpow self other) = Ad_array_rpow self other"
| "run_call (Call_truediv self other) = Ad_array_truediv self other"
| "run_call (Call_neg self) = Ad_array_neg self"
| "run_call (Call_exp var) = exp_ad var"
| "run_call (Call_log var) = log_ad var"
| "run_call (Call_sign var) = sign_ad var"
| "run_call (Call_abs var) = abs_ad var"
| "run_call (Call_l2_norm n_dim var) = l2_norm n_dim var"
| "run_call (Call_sin var) = sin_ad var"
| "run_call (Call_cos var) = cos_ad var"
| "run_call (Call_tan var) = tan_ad var"
| "run_call (Call_arcsin var) = arcsin_ad var"
| "run_call (Call_arccos var) = arccos_ad var"
| "run_call (Call_arctan var) = arctan_ad var"
| "run_call (Call_sinh var) = sinh_ad var"
| "run_call (Call_cosh var) = cosh_ad var"
| "run_call (Call_tanh var) = tanh_ad var"
| "run_call (Call_arcsinh var) = arcsinh_ad var"
| "run_call (Call_arccosh var) = arccosh_ad var"
| "run_call (Call_arctanh var) = arctanh_ad var"
| "run_call (Call_heaviside var zerovalue) = heaviside var zerovalue"
| "run_call (Call_heaviside_smooth var eps) = heaviside_smooth var eps"
| "run_call (Call_maximum var_0 var_1) = maximum var_0 var_1"
| "run_call (Call_characteristic_function tol var) = characteristic_function tol var"

text \<open>Two \<open>Ad_array\<close> operands \<open>a\<close> (address 2) and \<open>b\<close> (address 5), each with its
  value and its Jacobian.\<close>

definition operand_heap :: heap where
  "operand_heap = [NdArray [5], SpMatrix (Matrix 1 1 [[1]]), Ad_array 0 1,
                   NdArray [2], SpMatrix (Matrix 1 1 [[3]]), Ad_array 3 4]"

lemma dict_set_append: "k \<notin> fst ` set d \<Longrightarrow> dict_set d k v = d @ [(k, v)]"
  by (induction d) auto

lemma cumsum_from_length [simp]: "length (cumsum_from acc xs) = length xs"
  by (induction xs arbitrary: acc) auto

lemma cumsum_from_nth: "k < length xs \<Longrightarrow> cumsum_from acc xs ! k = acc + sum_list (take (Suc k) xs)"
proof (induction xs arbitrary: acc k)
  case Nil then show ?case by simp
next
  case (Cons x xs)
  show ?case
  proof (cases k)
    case 0 then show ?thesis by simp
  next
    case (Suc j)
    with Cons.prems have "j < length xs" by simp
    from Cons.IH[OF this, of "acc + x"] Suc show ?thesis by simp
  qed
qed

lemma dof_start_length [simp]: "length (dof_start dm) = Suc (length (full_dof dm))"
  by (simp add: dof_start_def np_cumsum_def)

lemma dof_start_nth: "k \<le> length (full_dof dm) \<Longrightarrow> dof_start dm ! k = sum_list (take k (full_dof dm))"
  by (cases k) (simp_all add: dof_start_def np_cumsum_def cumsum_from_nth)

lemma dof_start_last: "last (dof_start dm) = num_dofs dm"
proof -
  have "last (dof_start dm) = dof_start dm ! length (full_dof dm)"
    by (subst last_conv_nth) (auto simp: dof_start_def np_cumsum_def)
  then show ?thesis by (simp add: dof_start_nth num_dofs_def)
qed

lemma first_true_Some:
  "first_true bs = Some k \<Longrightarrow> k < length bs \<and> bs ! k \<and> (\<forall>j<k. \<not> bs ! j)"
proof (induction bs arbitrary: k)
  case Nil then show ?case by simp
next
  case (Cons b bs)
  show ?case
  proof (cases b)
    case True with Cons.prems show ?thesis by simp
  next
    case False
    with Cons.prems obtain k' where k': "first_true bs = Some k'" "k = Suc k'" by auto
    from Cons.IH[OF k'(1)] k'(2) False show ?thesis
      by (auto simp: nth_Cons split: nat.splits)
  qed
qed

lemma first_true_None: "first_true bs = None \<Longrightarrow> \<forall>j<length bs. \<not> bs ! j"
proof (induction bs)
  case Nil then show ?case by simp
next
  case (Cons b bs)
  then show ?case by (auto simp: nth_Cons split: if_splits nat.splits)
qed

lemma block_of_index:
  assumes "i < num_dofs dm"
  shows "\<exists>k. np_argmax (map (\<lambda>s. int s > int i) (dof_start dm)) = Suc k \<and> k < length (full_dof dm)
            \<and> dof_start dm ! k \<le> i \<and> i < dof_start dm ! Suc k"
proof -
  let ?bs = "map (\<lambda>s. int s > int i) (dof_start dm)"
  have len: "length ?bs = Suc (length (full_dof dm))" by simp
  have lastT: "?bs ! length (full_dof dm)"
    using assms by (simp add: dof_start_nth num_dofs_def)
  obtain k where k: "first_true ?bs = Some k"
    using first_true_None[of ?bs] lastT len by (cases "first_true ?bs") auto
  from first_true_Some[OF k] have kp: "k < length ?bs" "?bs ! k" "\<forall>j<k. \<not> ?bs ! j" by auto
  have "k \<noteq> 0" using kp(2) by (cases k) (auto simp: dof_start_def)
  then obtain k' where k': "k = Suc k'" by (cases k) auto
  have "\<not> ?bs ! k'" using kp(3) k' by simp
  then have "dof_start dm ! k' \<le> i" using kp(1) k' by simp
  moreover have "i < dof_start dm ! Suc k'" using kp(1,2) k' by simp
  ultimately show ?thesis using k k' kp(1) by (auto simp: np_argmax_def)
qed

lemma fold_inv_block_dof:
  "distinct (map fst acc @ map (\<lambda>(k, v). int v) bd) \<Longrightarrow>
   fold (\<lambda>(k, v) d. dict_set d (int v) k) bd acc = acc @ map (\<lambda>(k, v). (int v, k)) bd"
proof (induction bd arbitrary: acc)
  case Nil then show ?case by simp
next
  case (Cons a bd)
  obtain k v where a: "a = (k, v)" by (cases a)
  have notin: "int v \<notin> fst ` set acc" using Cons.prems a by auto
  have d: "distinct (map fst (acc @ [(int v, k)]) @ map (\<lambda>(k, v). int v) bd)"
    using Cons.prems a by auto
  show ?case using Cons.IH[OF d] a notin by (simp add: dict_set_append)
qed

lemma wf_dm_length: "wf_dm dm \<Longrightarrow> length (block_dof dm) = length (full_dof dm)"
  unfolding wf_dm_def by (metis length_map length_upt minus_nat.diff_0)

lemma wf_dm_nth:
  assumes "wf_dm dm" "b < length (full_dof dm)"
  shows "block_dof dm ! b = (fst (block_dof dm ! b), b)"
proof -
  have "snd (block_dof dm ! b) = map snd (block_dof dm) ! b"
    using assms wf_dm_length[OF assms(1)] by simp
  also have "\<dots> = b" using assms unfolding wf_dm_def by simp
  finally show ?thesis by (simp add: prod_eq_iff)
qed

lemma wf_dm_lookup:
  assumes "wf_dm dm" "b < length (full_dof dm)"
  shows "dict_get (block_dof dm) (fst (block_dof dm ! b)) = Inr b"
proof -
  have "block_dof dm ! b \<in> set (block_dof dm)" using assms wf_dm_length[OF assms(1)] by simp
  then have "(fst (block_dof dm ! b), b) \<in> set (block_dof dm)" using wf_dm_nth[OF assms] by simp
  moreover have "distinct (map fst (block_dof dm))" using assms(1) by (simp add: wf_dm_def)
  ultimately have "map_of (block_dof dm) (fst (block_dof dm ! b)) = Some b" by simp
  then show ?thesis by (simp add: dict_get_def)
qed

lemma wf_dm_registered:
  assumes "wf_dm dm" "dict_get (block_dof dm) key = Inr b"
  shows "b < length (full_dof dm)"
proof -
  from assms(2) have "map_of (block_dof dm) key = Some b"
    by (auto simp: dict_get_def split: option.splits)
  then have "(key, b) \<in> set (block_dof dm)" by (rule map_of_SomeD)
  then have "b \<in> set (map snd (block_dof dm))" by force
  moreover have "map snd (block_dof dm) = [0..<length (full_dof dm)]"
    using assms(1) by (simp add: wf_dm_def)
  ultimately have "b \<in> set [0..<length (full_dof dm)]" by (simp only:)
  then show ?thesis by simp
qed

lemma wf_dm_inv_lookup:
  assumes "wf_dm dm" "b < length (full_dof dm)"
  shows "dict_get (inv_block_dof dm) (int b) = Inr (fst (block_dof dm ! b))"
proof -
  have vals: "map (\<lambda>(k, v). int v) (block_dof dm) = map int [0..<length (full_dof dm)]"
  proof -
    have "map (\<lambda>(k, v). int v) (block_dof dm) = map int (map snd (block_dof dm))"
      by (simp add: case_prod_unfold)
    moreover have "map snd (block_dof dm) = [0..<length (full_dof dm)]"
      using assms(1) by (simp add: wf_dm_def)
    ultimately show ?thesis by (simp only:)
  qed
  have dist: "distinct (map (\<lambda>(k, v). int v) (block_dof dm))"
    unfolding vals by (simp add: distinct_map)
  have inv: "inv_block_dof dm = map (\<lambda>(k, v). (int v, k)) (block_dof dm)"
    unfolding inv_block_dof_def using fold_inv_block_dof[of "[]" "block_dof dm"] dist by simp
  have fsts: "map fst (inv_block_dof dm) = map (\<lambda>(k, v). int v) (block_dof dm)"
    unfolding inv by (simp add: case_prod_unfold comp_def)
  have mem: "(int b, fst (block_dof dm ! b)) \<in> set (inv_block_dof dm)"
  proof -
    have "block_dof dm ! b \<in> set (block_dof dm)"
      using assms wf_dm_length[OF assms(1)] by simp
    then have "(fst (block_dof dm ! b), b) \<in> set (block_dof dm)"
      using wf_dm_nth[OF assms] by simp
    then show ?thesis unfolding inv by force
  qed
  have "map_of (inv_block_dof dm) (int b) = Some (fst (block_dof dm ! b))"
    using mem dist fsts by (intro map_of_is_SomeI) simp_all
  then show ?thesis by (simp add: dict_get_def)
qed

lemma to_dofs_block:
  assumes "wf_dm dm" "dict_get (block_dof dm) (g, var) = Inr b"
  shows "grid_and_variable_to_dofs dm g var = Inr [dof_start dm ! b ..< dof_start dm ! Suc b]"
  using assms wf_dm_registered[OF assms]
  by (simp add: grid_and_variable_to_dofs_def index_list_def np_arange_def)

lemma init_inv_register:
  assumes "init_inv (c, bd, fd) ks" "key \<notin> set ks"
  shows "init_inv (c + 1, dict_set bd key c, fd @ [w]) (ks @ [key])"
proof -
  from assms(1) have "map fst bd = ks" by (simp add: init_inv_def)
  then have "fst ` set bd = set ks" by (metis set_map)
  then have "key \<notin> fst ` set bd" using assms(2) by simp
  then have "dict_set bd key c = bd @ [(key, c)]" by (rule dict_set_append)
  then show ?thesis using assms(1) by (simp add: init_inv_def)
qed

lemma init_inv_subdomain_vars:
  "init_inv st ks \<Longrightarrow> distinct (ks @ map (\<lambda>lv. (Subdomain sd, fst lv)) pv) \<Longrightarrow>
   init_inv (fold (subdomain_variable sd) pv st) (ks @ map (\<lambda>lv. (Subdomain sd, fst lv)) pv)"
proof (induction pv arbitrary: st ks)
  case Nil then show ?case by simp
next
  case (Cons lv pv)
  obtain c bd fd where st: "st = (c, bd, fd)" by (cases st)
  obtain v ld where lv: "lv = (v, ld)" by (cases lv)
  have notin: "(Subdomain sd, v) \<notin> set ks" using Cons.prems(2) lv by auto
  have step: "init_inv (subdomain_variable sd lv st) (ks @ [(Subdomain sd, v)])"
    unfolding st lv subdomain_variable_def using init_inv_register[OF Cons.prems(1)[unfolded st] notin]
    by simp
  have d: "distinct ((ks @ [(Subdomain sd, v)]) @ map (\<lambda>lv. (Subdomain sd, fst lv)) pv)"
    using Cons.prems(2) lv by auto
  from Cons.IH[OF step d] lv show ?case by simp
qed

lemma init_inv_interface_vars:
  "init_inv st ks \<Longrightarrow> distinct (ks @ map (\<lambda>lv. (Interface intf, fst lv)) pv) \<Longrightarrow>
   init_inv (fold (interface_variable intf) pv st) (ks @ map (\<lambda>lv. (Interface intf, fst lv)) pv)"
proof (induction pv arbitrary: st ks)
  case Nil then show ?case by simp
next
  case (Cons lv pv)
  obtain c bd fd where st: "st = (c, bd, fd)" by (cases st)
  obtain v ld where lv: "lv = (v, ld)" by (cases lv)
  have notin: "(Interface intf, v) \<notin> set ks" using Cons.prems(2) lv by auto
  have step: "init_inv (interface_variable intf lv st) (ks @ [(Interface intf, v)])"
    unfolding st lv interface_variable_def using init_inv_register[OF Cons.prems(1)[unfolded st] notin]
    by simp
  have d: "distinct ((ks @ [(Interface intf, v)]) @ map (\<lambda>lv. (Interface intf, fst lv)) pv)"
    using Cons.prems(2) lv by auto
  from Cons.IH[OF step d] lv show ?case by simp
qed

lemma init_inv_subdomain_step:
  assumes "init_inv st ks" "distinct (ks @ subdomain_keys mdg sd)"
  shows "init_inv (subdomain_step mdg sd st) (ks @ subdomain_keys mdg sd)"
proof (cases "primary_variables (subdomain_data mdg sd)")
  case None
  then show ?thesis using assms
    by (simp add: subdomain_step_def subdomain_keys_def declared_variables_def)
next
  case (Some pv)
  then have k: "subdomain_keys mdg sd = map (\<lambda>lv. (Subdomain sd, fst lv)) pv"
    by (simp add: subdomain_keys_def declared_variables_def comp_def)
  show ?thesis using init_inv_subdomain_vars[OF assms(1), of sd pv] assms(2) Some
    by (simp add: k subdomain_step_def)
qed

lemma init_inv_interface_step:
  assumes "init_inv st ks" "distinct (ks @ interface_keys mdg intf)"
  shows "init_inv (interface_step mdg intf st) (ks @ interface_keys mdg intf)"
proof (cases "primary_variables (interface_data mdg intf)")
  case None
  then show ?thesis using assms
    by (simp add: interface_step_def interface_keys_def declared_variables_def)
next
  case (Some pv)
  then have k: "interface_keys mdg intf = map (\<lambda>lv. (Interface intf, fst lv)) pv"
    by (simp add: interface_keys_def declared_variables_def comp_def)
  show ?thesis using init_inv_interface_vars[OF assms(1), of intf pv] assms(2) Some
    by (simp add: k interface_step_def)
qed

lemma init_inv_subdomains:
  "init_inv st ks \<Longrightarrow> distinct (ks @ concat (map (subdomain_keys mdg) sds)) \<Longrightarrow>
   init_inv (fold (subdomain_step mdg) sds st) (ks @ concat (map (subdomain_keys mdg) sds))"
proof (induction sds arbitrary: st ks)
  case Nil then show ?case by simp
next
  case (Cons sd sds)
  have d1: "distinct (ks @ subdomain_keys mdg sd)" using Cons.prems(2) by auto
  have d2: "distinct ((ks @ subdomain_keys mdg sd) @ concat (map (subdomain_keys mdg) sds))"
    using Cons.prems(2) by simp
  from Cons.IH[OF init_inv_subdomain_step[OF Cons.prems(1) d1] d2] show ?case by simp
qed

lemma init_inv_interfaces:
  "init_inv st ks \<Longrightarrow> distinct (ks @ concat (map (interface_keys mdg) is)) \<Longrightarrow>
   init_inv (fold (interface_step mdg) is st) (ks @ concat (map (interface_keys mdg) is))"
proof (induction "is" arbitrary: st ks)
  case Nil then show ?case by simp
next
  case (Cons i "is")
  have d1: "distinct (ks @ interface_keys mdg i)" using Cons.prems(2) by auto
  have d2: "distinct ((ks @ interface_keys mdg i) @ concat (map (interface_keys mdg) is))"
    using Cons.prems(2) by simp
  from Cons.IH[OF init_inv_interface_step[OF Cons.prems(1) d1] d2] show ?case by simp
qed

lemma init_inv_all:
  assumes "distinct (all_keys mdg)"
  shows "init_inv (fold (interface_step mdg) (interfaces mdg)
           (fold (subdomain_step mdg) (subdomains mdg) (0, [], []))) (all_keys mdg)"
proof -
  have i0: "init_inv (0, [], []) []" by (simp add: init_inv_def)
  have d1: "distinct ([] @ concat (map (subdomain_keys mdg) (subdomains mdg)))"
    using assms by (simp add: all_keys_def)
  from init_inv_subdomains[OF i0 d1]
  have i1: "init_inv (fold (subdomain_step mdg) (subdomains mdg) (0, [], []))
              (concat (map (subdomain_keys mdg) (subdomains mdg)))" by simp
  have d2: "distinct (concat (map (subdomain_keys mdg) (subdomains mdg))
              @ concat (map (interface_keys mdg) (interfaces mdg)))"
    using assms by (simp add: all_keys_def)
  from init_inv_interfaces[OF i1 d2] show ?thesis by (simp add: all_keys_def)
qed

lemma DofManager_init_keys:
  assumes "distinct (all_keys mdg)"
  shows "map fst (block_dof (DofManager_init mdg)) = all_keys mdg"
    and "wf_dm (DofManager_init mdg)"
  using init_inv_all[OF assms] assms
  by (auto simp: DofManager_init_def init_inv_def wf_dm_def split: prod.splits)

lemma grid_data_set:
  "grid_data (set_grid_data mdg g d) g' = (if g' = g then d else grid_data mdg g')"
  by (auto simp: grid_data_def set_grid_data_def split: GridLike.splits)

lemma for_loop_append:
  "for_loop body (xs @ ys) s =
     (case for_loop body xs s of Inl e \<Rightarrow> Inl e | Inr s' \<Rightarrow> for_loop body ys s')"
  by (induction xs arbitrary: s) (auto split: sum.splits)

lemma for_loop_skip:
  "for_loop (\<lambda>x s. if \<not> P x then Inr s else body x s) xs s
     = for_loop body (filter P xs) s"
  by (induction xs arbitrary: s) (auto split: sum.splits)

lemma dof_start_mono:
  assumes "j \<le> k" "k \<le> length (full_dof dm)"
  shows "dof_start dm ! j \<le> dof_start dm ! k"
proof -
  have "take k (full_dof dm) = take j (full_dof dm) @ drop j (take k (full_dof dm))"
    using assms by (metis append_take_drop_id min.absorb2 take_take min.commute)
  then have "sum_list (take k (full_dof dm)) = sum_list (take j (full_dof dm)) + sum_list (drop j (take k (full_dof dm)))"
    by (metis sum_list_append)
  then show ?thesis using assms by (simp add: dof_start_nth)
qed

lemma dof_start_le_num:
  "k \<le> length (full_dof dm) \<Longrightarrow> dof_start dm ! k \<le> num_dofs dm"
  using dof_start_mono[of k "length (full_dof dm)" dm] by (simp add: dof_start_nth num_dofs_def)

lemma registered_block:
  assumes "dict_contains (block_dof dm) p"
  shows "\<exists>b. dict_get (block_dof dm) p = Inr b"
  using assms by (auto simp: dict_contains_def dict_get_def split: option.splits)

lemma take_block:
  assumes "wf_dm dm" "dict_get (block_dof dm) (g, var) = Inr b" "num_dofs dm \<le> length values"
  shows "np_take values [dof_start dm ! b ..< dof_start dm ! Suc b] = Inr (block_slice dm values g var)"
proof -
  have b: "b < length (full_dof dm)" by (rule wf_dm_registered[OF assms(1,2)])
  have "dof_start dm ! Suc b \<le> length values"
    using dof_start_le_num[of "Suc b" dm] b assms(3) by simp
  then have "list_all (\<lambda>i. i < length values) [dof_start dm ! b ..< dof_start dm ! Suc b]"
    by (simp add: list_all_iff)
  then show ?thesis
    by (simp add: np_take_def block_slice_def to_dofs_block[OF assms(1,2)])
qed

lemma distribute_pair_overwrite:
  assumes "wf_dm dm" "dict_contains (block_dof dm) (g, var)" "num_dofs dm \<le> length values"
  shows "\<exists>mdg'. distribute_pair dm values False False (g, var) mdg = Inr mdg'
           \<and> (\<forall>g' var'. stored_value mdg' g' var' =
                 (if (g', var') = (g, var) then Some (block_slice dm values g var)
                  else stored_value mdg g' var'))"
proof -
  from registered_block[OF assms(2)] obtain b where b: "dict_get (block_dof dm) (g, var) = Inr b" by blast
  show ?thesis
    using assms(2) to_dofs_block[OF assms(1) b] take_block[OF assms(1) b assms(3)]
    by (auto simp: distribute_pair_def stored_value_def grid_data_set Let_def split: option.splits)
qed

lemma distribute_pair_unregistered:
  "\<not> dict_contains (block_dof dm) p \<Longrightarrow> distribute_pair dm values a t p mdg = Inr mdg"
  by (cases p) (simp add: distribute_pair_def)

lemma distribute_pairs_overwrite:
  assumes "wf_dm dm" "num_dofs dm \<le> length values"
  shows "\<exists>mdg'. for_loop (distribute_pair dm values False False) ps mdg = Inr mdg'
           \<and> (\<forall>g var. stored_value mdg' g var =
                 (if (g, var) \<in> set ps \<and> dict_contains (block_dof dm) (g, var)
                  then Some (block_slice dm values g var)
                  else stored_value mdg g var))"
proof (induction ps arbitrary: mdg)
  case Nil then show ?case by simp
next
  case (Cons p ps)
  obtain g var where p: "p = (g, var)" by (cases p)
  show ?case
  proof (cases "dict_contains (block_dof dm) (g, var)")
    case False
    then have "distribute_pair dm values False False p mdg = Inr mdg"
      unfolding p by (rule distribute_pair_unregistered)
    moreover from Cons.IH[of mdg] obtain mdg' where
      "for_loop (distribute_pair dm values False False) ps mdg = Inr mdg'"
      "\<forall>g var. stored_value mdg' g var =
                 (if (g, var) \<in> set ps \<and> dict_contains (block_dof dm) (g, var)
                  then Some (block_slice dm values g var)
                  else stored_value mdg g var)" by blast
    ultimately show ?thesis using False p by auto
  next
    case True
    from distribute_pair_overwrite[OF assms(1) True assms(2), of mdg] obtain mdg1 where
      m1: "distribute_pair dm values False False (g, var) mdg = Inr mdg1"
          "\<forall>g' var'. stored_value mdg1 g' var' =
                 (if (g', var') = (g, var) then Some (block_slice dm values g var)
                  else stored_value mdg g' var')" by blast
    from Cons.IH[of mdg1] obtain mdg' where
      m2: "for_loop (distribute_pair dm values False False) ps mdg1 = Inr mdg'"
      "\<forall>g var. stored_value mdg' g var =
                 (if (g, var) \<in> set ps \<and> dict_contains (block_dof dm) (g, var)
                  then Some (block_slice dm values g var)
                  else stored_value mdg1 g var)" by blast
    show ?thesis using m1 m2 True p by auto
  qed
qed

lemma fold_update_slice:
  "list_all (\<lambda>i. i < length ys) inds \<Longrightarrow>
   fold (\<lambda>(i, x) ys. ys[i := x]) (zip inds (map f inds)) ys
     = map (\<lambda>j. if j \<in> set inds then f j else ys ! j) [0..<length ys]"
proof (induction inds arbitrary: ys)
  case Nil
  then show ?case by (simp add: map_nth)
next
  case (Cons i inds)
  have len: "list_all (\<lambda>k. k < length (ys[i := f i])) inds" using Cons.prems by simp
  have i: "i < length ys" using Cons.prems by simp
  have "fold (\<lambda>(i, x) ys. ys[i := x]) (zip (i # inds) (map f (i # inds))) ys
        = fold (\<lambda>(i, x) ys. ys[i := x]) (zip inds (map f inds)) (ys[i := f i])" by simp
  also have "\<dots> = map (\<lambda>j. if j \<in> set inds then f j else ys[i := f i] ! j) [0..<length ys]"
    using Cons.IH[OF len] by simp
  also have "\<dots> = map (\<lambda>j. if j \<in> set (i # inds) then f j else ys ! j) [0..<length ys]"
    using i by (intro map_cong) (auto simp: nth_list_update)
  finally show ?case .
qed

lemma np_put_slice:
  assumes "list_all (\<lambda>i. i < length ys) inds"
  shows "np_put ys inds (map f inds)
           = Inr (map (\<lambda>j. if j \<in> set inds then f j else ys ! j) [0..<length ys])"
  using assms by (simp add: np_put_def fold_update_slice)

lemma assemble_pair_unregistered:
  "\<not> dict_contains (block_dof dm) p \<Longrightarrow> assemble_pair dm mdg fi p vals = Inr vals"
  by (cases p) (simp add: assemble_pair_def)

lemma assemble_pair_slice:
  assumes "wf_dm dm" "dict_contains (block_dof dm) (g, var)"
    and "stored_value mdg g var = Some (block_slice dm v g var)"
    and "length vals = num_dofs dm"
  shows "assemble_pair dm mdg False (g, var) vals
           = Inr (map (\<lambda>j. if j \<in> block_range dm g var then v ! j else vals ! j) [0..<num_dofs dm])"
proof -
  from registered_block[OF assms(2)] obtain b where b: "dict_get (block_dof dm) (g, var) = Inr b" by blast
  have bl: "b < length (full_dof dm)" by (rule wf_dm_registered[OF assms(1) b])
  let ?inds = "[dof_start dm ! b ..< dof_start dm ! Suc b]"
  have dofs: "grid_and_variable_to_dofs dm g var = Inr ?inds" by (rule to_dofs_block[OF assms(1) b])
  have "dof_start dm ! Suc b \<le> length vals"
    using dof_start_le_num[of "Suc b" dm] bl assms(4) by simp
  then have all: "list_all (\<lambda>i. i < length vals) ?inds" by (simp add: list_all_iff)
  obtain st where st: "state (grid_data mdg g) = Some st" "stored st var = Some (map (\<lambda>i. v ! i) ?inds)"
    using assms(3) dofs by (auto simp: stored_value_def block_slice_def split: option.splits)
  show ?thesis
    using assms(2) st np_put_slice[OF all, of "\<lambda>i. v ! i"] assms(4)
    by (simp add: assemble_pair_def dofs block_range_def)
qed

lemma in_blocks_Nil [simp]: "in_blocks dm [] j = False"
  by (simp add: in_blocks_def)

lemma in_blocks_Cons:
  "in_blocks dm ((g, var) # ps) j =
     ((dict_contains (block_dof dm) (g, var) \<and> j \<in> block_range dm g var) \<or> in_blocks dm ps j)"
  by (simp add: in_blocks_def)

lemma assemble_pairs_slices:
  assumes "wf_dm dm"
    and "\<And>g var. (g, var) \<in> set ps \<Longrightarrow> dict_contains (block_dof dm) (g, var)
            \<Longrightarrow> stored_value mdg g var = Some (block_slice dm v g var)"
    and "length vals = num_dofs dm"
  shows "for_loop (assemble_pair dm mdg False) ps vals
           = Inr (map (\<lambda>j. if in_blocks dm ps j then v ! j else vals ! j) [0..<num_dofs dm])"
  using assms(2,3)
proof (induction ps arbitrary: vals)
  case Nil
  from Nil.prems(2) have "map (\<lambda>j. vals ! j) [0..<num_dofs dm] = vals" by (metis map_nth)
  then show ?case by simp
next
  case (Cons p ps)
  obtain g var where p: "p = (g, var)" by (cases p)
  have IHprem: "\<And>g var. (g, var) \<in> set ps \<Longrightarrow> dict_contains (block_dof dm) (g, var)
            \<Longrightarrow> stored_value mdg g var = Some (block_slice dm v g var)"
    using Cons.prems(1) by simp
  show ?case
  proof (cases "dict_contains (block_dof dm) (g, var)")
    case False
    have skip: "assemble_pair dm mdg False p vals = Inr vals"
      unfolding p by (rule assemble_pair_unregistered[OF False])
    have eq: "\<And>j. in_blocks dm (p # ps) j = in_blocks dm ps j"
      unfolding p by (simp add: in_blocks_Cons False)
    have "for_loop (assemble_pair dm mdg False) (p # ps) vals
            = for_loop (assemble_pair dm mdg False) ps vals"
      by (simp add: skip)
    also have "\<dots> = Inr (map (\<lambda>j. if in_blocks dm ps j then v ! j else vals ! j) [0..<num_dofs dm])"
      by (rule Cons.IH[OF IHprem Cons.prems(2)])
    finally show ?thesis by (simp only: eq)
  next
    case True
    let ?vals1 = "map (\<lambda>j. if j \<in> block_range dm g var then v ! j else vals ! j) [0..<num_dofs dm]"
    have s: "stored_value mdg g var = Some (block_slice dm v g var)"
      using Cons.prems(1)[of g var] p True by simp
    have step: "assemble_pair dm mdg False p vals = Inr ?vals1"
      unfolding p by (rule assemble_pair_slice[OF assms(1) True s Cons.prems(2)])
    have len1: "length ?vals1 = num_dofs dm" by simp
    have pt: "\<And>j. j < num_dofs dm \<Longrightarrow>
        (if in_blocks dm ps j then v ! j else ?vals1 ! j)
          = (if in_blocks dm (p # ps) j then v ! j else vals ! j)"
      unfolding p by (simp add: in_blocks_Cons True)
    have "for_loop (assemble_pair dm mdg False) (p # ps) vals
            = for_loop (assemble_pair dm mdg False) ps ?vals1"
      by (simp add: step)
    also have "\<dots> = Inr (map (\<lambda>j. if in_blocks dm ps j then v ! j else ?vals1 ! j) [0..<num_dofs dm])"
      by (rule Cons.IH[OF IHprem len1])
    also have "\<dots> = Inr (map (\<lambda>j. if in_blocks dm (p # ps) j then v ! j else vals ! j) [0..<num_dofs dm])"
      using pt by (simp only: sum.inject, intro map_cong) auto
    finally show ?thesis .
  qed
qed

lemma index_in_block:
  assumes "wf_dm dm" "j < num_dofs dm"
  shows "\<exists>g var. dof_to_grid_and_variable dm (int j) = Inr (g, var)
           \<and> dict_contains (block_dof dm) (g, var)
           \<and> (g, var) \<in> fst ` set (block_dof dm)
           \<and> (\<exists>dofs. grid_and_variable_to_dofs dm g var = Inr dofs \<and> j \<in> set dofs)"
proof -
  from block_of_index[OF assms(2)] obtain k where
    k: "np_argmax (map (\<lambda>s. int s > int j) (dof_start dm)) = Suc k" "k < length (full_dof dm)"
       "dof_start dm ! k \<le> j" "j < dof_start dm ! Suc k"
    by blast
  let ?key = "fst (block_dof dm ! k)"
  have res: "dof_to_grid_and_variable dm (int j) = Inr ?key"
    using assms(2) k(1) wf_dm_inv_lookup[OF assms(1) k(2)]
    by (simp add: dof_to_grid_and_variable_def dof_start_last)
  have look: "dict_get (block_dof dm) ?key = Inr k" by (rule wf_dm_lookup[OF assms(1) k(2)])
  then have cont: "dict_contains (block_dof dm) ?key"
    by (auto simp: dict_get_def dict_contains_def split: option.splits)
  have mem: "?key \<in> fst ` set (block_dof dm)"
    using k(2) wf_dm_length[OF assms(1)] by simp
  obtain g var where key: "?key = (g, var)" by (cases ?key)
  have dofs: "grid_and_variable_to_dofs dm g var = Inr [dof_start dm ! k ..< dof_start dm ! Suc k]"
    using to_dofs_block[OF assms(1)] look key by simp
  show ?thesis using res cont dofs k(3,4) key mem by auto
qed

lemma example_dm_eq:
  "example_dm = \<lparr>block_dof = [((Subdomain E1, ''p''), 0), ((Subdomain E2, ''p''), 1)],
                  full_dof = [3, 2]\<rparr>"
  by (simp add: example_dm_def DofManager_init_def example_mdg_def example_data_def
      subdomain_step_def subdomain_variable_def dofs_get_def E1_def E2_def)

lemma example_wf: "wf_dm example_dm"
  by (simp add: example_dm_eq wf_dm_def E1_def E2_def upt_rec)

lemma distribute_pair_frame:
  assumes "distribute_pair dm values a t (g', var') mdg = Inr mdg'"
    and "g \<noteq> g' \<or> \<not> dict_contains (block_dof dm) (g', var')"
  shows "grid_data mdg' g = grid_data mdg g"
  using assms
  by (auto simp: distribute_pair_def grid_data_set Let_def split: sum.splits option.splits if_splits)

lemma distribute_pairs_frame:
  assumes "for_loop (distribute_pair dm values a t) ps mdg = Inr mdg'"
    and "\<And>var. (g, var) \<in> set ps \<Longrightarrow> \<not> dict_contains (block_dof dm) (g, var)"
  shows "grid_data mdg' g = grid_data mdg g"
  using assms
proof (induction ps arbitrary: mdg)
  case Nil then show ?case by simp
next
  case (Cons p ps)
  obtain g' var' where p: "p = (g', var')" by (cases p)
  from Cons.prems(1) obtain mdg1 where
    m1: "distribute_pair dm values a t (g', var') mdg = Inr mdg1"
    and m2: "for_loop (distribute_pair dm values a t) ps mdg1 = Inr mdg'"
    unfolding p by (auto split: sum.splits)
  have "g \<noteq> g' \<or> \<not> dict_contains (block_dof dm) (g', var')"
    using Cons.prems(2)[of var'] p by auto
  from distribute_pair_frame[OF m1 this] have "grid_data mdg1 g = grid_data mdg g" .
  moreover have "grid_data mdg' g = grid_data mdg1 g"
    using Cons.IH[OF m2] Cons.prems(2) by simp
  ultimately show ?case by simp
qed

lemma distribute_pair_guard:
  "distribute_pair dm values a t =
     (\<lambda>p mdg. if \<not> dict_contains (block_dof dm) p then Inr mdg else distribute_pair dm values a t p mdg)"
  by (intro ext) (auto simp: distribute_pair_def)

lemma for_loop_none:
  "list_all (\<lambda>x. \<forall>s. body x s = Inr s) xs \<Longrightarrow> for_loop body xs s = Inr s"
  by (induction xs) auto

lemma covers_all_default: "covers_all dm None None"
  by (force simp: covers_all_def selection_def select_grids_def select_variables_def list_all_iff)

lemma get_values_item_tuple:
  "get_values_item mdg fi (PyTuple a b, n) (None, vs) = Inl UnboundLocalError"
  by (simp add: get_values_item_def)

lemma example_registered:
  "dict_contains (block_dof example_dm) (g, var) = ((g = Subdomain E1 \<or> g = Subdomain E2) \<and> var = ''p'')"
  by (auto simp: example_dm_eq dict_contains_def)

lemma example_slices:
  "block_slice example_dm [1, 2, 3, 4, 5] (Subdomain E1) ''p'' = [1, 2, 3]"
  "block_slice example_dm [1, 2, 3, 4, 5] (Subdomain E2) ''p'' = [4, 5]"
  by (simp_all add: block_slice_def example_dm_eq grid_and_variable_to_dofs_def dof_start_def
      np_cumsum_def dict_get_def index_list_def np_arange_def E1_def E2_def upt_rec)

section \<open>Running the heap operations\<close>

named_theorems exec

lemma hbind_apply [exec]: "hbind m f h = (case m h of Inl e \<Rightarrow> Inl e | Inr (x, h') \<Rightarrow> f x h')"
  by (simp add: hbind_def)

lemma ret_apply [exec]: "ret x h = Inr (x, h)" by (simp add: ret_def)

lemma raise_err_apply [exec]: "raise_err e h = Inl e" by (simp add: raise_err_def)

lemma lift_apply [exec]: "lift (Inr x) h = Inr (x, h)" "lift (Inl e) h = Inl e" by (simp_all add: lift_def)

lemma new_obj_apply [exec]: "new_obj ob h = Inr (length h, h @ [ob])" by (simp add: new_obj_def)

lemma get_obj_apply [exec]: "get_obj a h = (if a < length h then Inr (h ! a, h) else Inl Unsupported)"
  by (simp add: get_obj_def)

lemma set_obj_apply [exec]: "set_obj a ob h = (if a < length h then Inr ((), h[a := ob]) else Inl Unsupported)"
  by (simp add: set_obj_def)

lemma get_objs_apply [exec]:
  "get_objs as h = (if list_all (\<lambda>a. a < length h) as then Inr (map (\<lambda>a. h ! a) as, h) else Inl Unsupported)"
  by (simp add: get_objs_def)

lemma except_AttributeError_apply [exec]:
  "except_AttributeError m handler h = (case m h of Inl AttributeError \<Rightarrow> handler h | r \<Rightarrow> r)"
  by (simp add: except_AttributeError_def)

lemma except_TypeError_apply [exec]:
  "except_TypeError m handler h = (case m h of Inl TypeError \<Rightarrow> handler h | r \<Rightarrow> r)"
  by (simp add: except_TypeError_def)

lemmas prim_defs =
  get_val_def get_jac_def set_val_def set_jac_def alloc_all_def py_unop_def py_binop_def
  py_add_def py_mul_def py_pow_def py_neg_def py_sub_def py_copy_def py_float_def
  py_astype_float_def py_ufunc_def new_Ad_array_def default_Ad_array_def
  sps_diags_py_def diagvec_mul_jac_def is_Ad_array_def

lemma ad_viewD:
  assumes "ad_view h a = Some (xs, A)"
  shows "\<exists>v j. a < length h \<and> h ! a = Ad_array v j \<and> v < length h \<and> j < length h
           \<and> h ! v = NdArray xs \<and> h ! j = SpMatrix A"
  using assms by (auto simp: ad_view_def split: if_splits obj.splits)

lemma sum_list_delta:
  fixes f :: "nat \<Rightarrow> real"
  assumes "r < n"
  shows "sum_list (map (\<lambda>k. (if r = k then a else 0) * f k) [0..<n]) = a * f r"
proof -
  have "sum_list (map (\<lambda>k. (if r = k then a else 0) * f k) [0..<n])
          = (\<Sum>k\<in>{0..<n}. (if r = k then a else 0) * f k)"
    by (simp add: interv_sum_list_conv_sum_set_nat)
  also have "\<dots> = (\<Sum>k\<in>{0..<n}. if k = r then a * f k else 0)"
    by (intro sum.cong) auto
  also have "\<dots> = a * f r" using assms by (simp add: sum.delta)
  finally show ?thesis .
qed

lemma mat_mul_diags:
  assumes "nrows A = length ys"
  shows "mat_mul (sps_diags ys) A = Inr (row_scale ys A)"
proof -
  have inner: "sum_list (map (\<lambda>k. map (\<lambda>j. if r = j then ys ! r else 0) [0..<length ys] ! k * entries A ! k ! c) [0..<length ys])
            = ys ! r * mat_entry A r c" if rl: "r < length ys" for r c
  proof -
    have "sum_list (map (\<lambda>k. map (\<lambda>j. if r = j then ys ! r else 0) [0..<length ys] ! k * entries A ! k ! c) [0..<length ys])
            = sum_list (map (\<lambda>k. (if r = k then ys ! r else 0) * entries A ! k ! c) [0..<length ys])"
      by (intro arg_cong[where f = sum_list] map_cong) auto
    also have "\<dots> = ys ! r * entries A ! r ! c" by (rule sum_list_delta[OF rl])
    finally show ?thesis by (simp add: mat_entry_def)
  qed
  have "map (\<lambda>row. map (\<lambda>c. sum_list (map (\<lambda>k. row ! k * entries A ! k ! c) [0..<length ys])) [0..<ncols A])
          (map (\<lambda>i. map (\<lambda>j. if i = j then ys ! i else 0) [0..<length ys]) [0..<length ys])
        = map (\<lambda>r. map (\<lambda>c. sum_list (map (\<lambda>k. map (\<lambda>j. if r = j then ys ! r else 0) [0..<length ys] ! k
                    * entries A ! k ! c) [0..<length ys])) [0..<ncols A]) [0..<length ys]"
    by (simp add: comp_def)
  also have "\<dots> = map (\<lambda>r. map (\<lambda>c. ys ! r * mat_entry A r c) [0..<ncols A]) [0..<length ys]"
    by (intro map_cong refl) (simp add: inner)
  finally show ?thesis using assms by (simp add: mat_mul_def sps_diags_def row_scale_def)
qed

lemma map2_same: "map2 h (map f xs) (map g xs) = map (\<lambda>x. h (f x) (g x)) xs"
  by (induction xs) auto

lemma mat_add_row_scale:
  assumes "length xs = length ys" "ncols A = ncols B"
  shows "mat_add (row_scale ys A) (row_scale xs B) = Inr (product_rule_jac xs A ys B)"
  using assms by (simp add: mat_add_def row_scale_def product_rule_jac_def map2_same)

lemma Ad_array_mul_exec:
  assumes a: "ad_view h a = Some (xs, A)" and b: "ad_view h b = Some (ys, B)"
    and len: "length xs = length ys" and rA: "nrows A = length xs" and rB: "nrows B = length ys"
    and cols: "ncols A = ncols B"
  shows "\<exists>c h'. Ad_array_mul a b h = Inr (c, h')
           \<and> ad_view h' c = Some (map2 (\<lambda>x y. x * y) xs ys, product_rule_jac xs A ys B)
           \<and> take (length h) h' = h"
proof -
  from ad_viewD[OF a] obtain va ja where
    A: "a < length h" "h ! a = Ad_array va ja" "va < length h" "ja < length h"
       "h ! va = NdArray xs" "h ! ja = SpMatrix A" by blast
  from ad_viewD[OF b] obtain vb jb where
    B: "b < length h" "h ! b = Ad_array vb jb" "vb < length h" "jb < length h"
       "h ! vb = NdArray ys" "h ! jb = SpMatrix B" by blast
  have m1: "mat_mul (sps_diags ys) A = Inr (row_scale ys A)"
    by (rule mat_mul_diags) (simp add: rA len)
  have m2: "mat_mul (sps_diags xs) B = Inr (row_scale xs B)"
    by (rule mat_mul_diags) (simp add: rB len)
  note m3 = mat_add_row_scale[OF len cols]
  show ?thesis
    using A B len m1 m2 m3
    by (simp add: Ad_array_mul_def exec prim_defs nth_append ad_view_def
        mul_obj_def add_obj_def num_binop_def np_elementwise_def)
qed

lemma mat_entry_Matrix:
  "r < n \<Longrightarrow> c < m \<Longrightarrow> mat_entry (Matrix n m (map (\<lambda>r. map (\<lambda>c. f r c) [0..<m]) [0..<n])) r c = f r c"
  by (simp add: mat_entry_def)

lemma mat_entry_identity:
  "r < n \<Longrightarrow> c < n \<Longrightarrow> mat_entry (sps_diags (np_ones n)) r c = (if r = c then 1 else 0)"
  by (simp add: mat_entry_def sps_diags_def np_ones_def)

lemma product_rule_square:
  "product_rule_jac xs (sps_diags (np_ones (length xs))) xs (sps_diags (np_ones (length xs)))
     = sps_diags (map (\<lambda>x. 2 * x) xs)"
proof -
  have "map (\<lambda>r. map (\<lambda>c. xs ! r * mat_entry (sps_diags (np_ones (length xs))) r c
                          + xs ! r * mat_entry (sps_diags (np_ones (length xs))) r c) [0..<length xs])
            [0..<length xs]
        = map (\<lambda>i. map (\<lambda>j. if i = j then map (\<lambda>x. 2 * x) xs ! i else 0) [0..<length xs]) [0..<length xs]"
    by (intro map_cong refl) (auto simp: mat_entry_identity)
  then show ?thesis
    by (simp add: product_rule_jac_def sps_diags_def np_ones_def)
qed

lemmas obj_defs =
  num_of_def num_binop_def mul_obj_def add_obj_def neg_obj_def pow_obj_def map_obj_def
  np_elementwise_def size_of_def mat_mul_def mat_add_def mat_scale_def mat_neg_def sps_diags_def
  sps_zeros_def np_ones_def bmat_row_def

lemma float_pow_3: "float_pow 3 2 = 9" "float_pow 3 1 = 3"
  by (simp_all add: float_pow_def)

lemma upt_0_2: "[0..<2] = [0, 1]"
  by (simp add: upt_rec)

lemma seed_heap_eval: "initAdArrays 2 seed_heap = Inr (8, seeded_heap)"
  unfolding seeded_heap_def by code_simp

lemma seed_heap_first: "ad_view seeded_heap 5 = Some ([3], Matrix 1 2 [[1, 0]])"
  by (simp add: ad_view_def seeded_heap_def seed_heap_def)

lemma concat_zero_rows: "concat (map (\<lambda>m. replicate m (0::real)) ms) = replicate (sum_list ms) 0"
  by (induction ms) (auto simp: replicate_add)

lemma sum_list_split:
  fixes ms :: "nat list"
  assumes "i < length ms"
  shows "sum_list ms = sum_list (take i ms) + ms ! i + sum_list (drop (Suc i) ms)"
proof -
  have "ms = take i ms @ ms ! i # drop (Suc i) ms" using assms by (rule id_take_nth_drop)
  then have "sum_list ms = sum_list (take i ms @ ms ! i # drop (Suc i) ms)" by simp
  then show ?thesis by simp
qed

lemma seed_row:
  assumes i: "i < length nv" and r: "r < nv ! i"
  shows "concat (map (\<lambda>B. entries B ! r)
            ((map (\<lambda>m. sps_zeros (nv ! i) m) nv)[i := sps_diags (np_ones (nv ! i))]))
         = map (\<lambda>c. if c = sum_list (take i nv) + r then 1 else 0) [0..<sum_list nv]"
proof -
  let ?n = "nv ! i"
  let ?unit = "map (\<lambda>j. if r = j then 1 else (0::real)) [0..<?n]"
  let ?off = "sum_list (take i nv)"
  let ?rest = "sum_list (drop (Suc i) nv)"
  have rows: "map (\<lambda>B. entries B ! r) ((map (\<lambda>m. sps_zeros ?n m) nv)[i := sps_diags (np_ones ?n)])
          = (map (\<lambda>m. replicate m 0) nv)[i := ?unit]"
  proof -
    have dr: "entries (sps_diags (np_ones ?n)) ! r = ?unit"
      using r by (auto simp: sps_diags_def np_ones_def)
    have zr: "\<And>m. entries (sps_zeros ?n m) ! r = replicate m 0"
      using r by (simp add: sps_zeros_def)
    show ?thesis by (simp add: map_update comp_def dr zr)
  qed
  have "concat ((map (\<lambda>m. replicate m (0::real)) nv)[i := ?unit])
          = concat (take i (map (\<lambda>m. replicate m 0) nv)) @ ?unit
              @ concat (drop (Suc i) (map (\<lambda>m. replicate m 0) nv))"
    using i by (simp add: upd_conv_take_nth_drop)
  also have "\<dots> = replicate ?off 0 @ ?unit @ replicate ?rest 0"
    by (simp add: take_map drop_map concat_zero_rows)
  also have "\<dots> = map (\<lambda>c. if c = ?off + r then 1 else 0) [0..<sum_list nv]"
  proof (rule nth_equalityI)
    show "length (replicate ?off (0::real) @ ?unit @ replicate ?rest 0)
            = length (map (\<lambda>c. if c = ?off + r then 1 else (0::real)) [0..<sum_list nv])"
      using sum_list_split[OF i] by simp
  next
    fix c assume "c < length (replicate ?off (0::real) @ ?unit @ replicate ?rest 0)"
    then have c: "c < sum_list nv" using sum_list_split[OF i] by simp
    show "(replicate ?off (0::real) @ ?unit @ replicate ?rest 0) ! c
            = map (\<lambda>c. if c = ?off + r then 1 else (0::real)) [0..<sum_list nv] ! c"
      using c r sum_list_split[OF i] by (auto simp: nth_append)
  qed
  finally show ?thesis using rows by simp
qed

lemma seed_jacobian_block_identity:
  assumes i: "i < length nv"
  shows "seed_jacobian nv i = Inr (block_identity nv i)"
proof -
  let ?n = "nv ! i"
  let ?blocks = "(map (\<lambda>m. sps_zeros ?n m) nv)[i := sps_diags (np_ones ?n)]"
  have ne: "?blocks \<noteq> []" using i by auto
  then obtain b bs where bl: "?blocks = b # bs" by (cases ?blocks) auto
  have allrows: "\<forall>B \<in> set ?blocks. nrows B = ?n"
  proof
    fix B assume "B \<in> set ?blocks"
    then have "B \<in> insert (sps_diags (np_ones ?n)) (set (map (\<lambda>m. sps_zeros ?n m) nv))"
      using set_update_subset_insert by fastforce
    then show "nrows B = ?n" by (auto simp: sps_zeros_def sps_diags_def np_ones_def)
  qed
  have nb: "nrows b = ?n" using allrows bl by (metis list.set_intros(1))
  have cols: "map ncols ?blocks = nv"
  proof -
    have "map ncols ?blocks = (map ncols (map (\<lambda>m. sps_zeros ?n m) nv))[i := ncols (sps_diags (np_ones ?n))]"
      by (simp add: map_update)
    also have "\<dots> = nv[i := ?n]"
      by (simp add: comp_def sps_zeros_def sps_diags_def np_ones_def)
    finally show ?thesis by simp
  qed
  have rows: "map (\<lambda>r. concat (map (\<lambda>B. entries B ! r) ?blocks)) [0..<?n]
        = map (\<lambda>r. map (\<lambda>c. if c = sum_list (take i nv) + r then 1 else 0) [0..<sum_list nv]) [0..<?n]"
    by (intro map_cong refl) (simp add: seed_row[OF i])
  have "bmat_row ?blocks = Inr (Matrix ?n (sum_list (map ncols ?blocks))
          (map (\<lambda>r. concat (map (\<lambda>B. entries B ! r) ?blocks)) [0..<?n]))"
    unfolding bmat_row_def using allrows nb bl by (simp add: list_all_iff)
  then show ?thesis
    unfolding seed_jacobian_def Let_def block_identity_def using cols rows by simp
qed

lemma block_identity_entry:
  "r < nv ! i \<Longrightarrow> c < sum_list nv \<Longrightarrow>
   mat_entry (block_identity nv i) r c = (if c = sum_list (take i nv) + r then 1 else 0)"
  by (simp add: block_identity_def mat_entry_def)

lemma sizes_of_arrays: "sizes_of (map NdArray xss) = Inr (map length xss)"
  by (induction xss) (auto simp: size_of_def)

lemma seed_variable_apply:
  assumes "i < length nv"
  shows "seed_variable nv (i, v) h
           = Inr (Suc (length h), h @ [SpMatrix (block_identity nv i), Ad_array v (length h)])"
  using seed_jacobian_block_identity[OF assms]
  by (simp add: seed_variable_def exec new_Ad_array_def)

lemma prefix_nth: "take n h' = h \<Longrightarrow> a < length h \<Longrightarrow> h' ! a = h ! a"
  by (metis length_take min_less_iff_conj nth_take)

lemma prefix_length:
  assumes "take (length h) h' = h"
  shows "length h \<le> length h'"
proof -
  have "length (take (length h) h') = length h" by (simp only: assms)
  then show ?thesis by simp
qed

lemma for_each_seed:
  assumes "list_all (\<lambda>iv. fst iv < length nv) ivs"
  shows "\<exists>res h'. for_each (seed_variable nv) ivs h = Inr (res, h')
           \<and> length res = length ivs \<and> take (length h) h' = h
           \<and> (\<forall>k<length ivs. \<exists>j. res ! k < length h' \<and> j < length h'
                  \<and> h' ! (res ! k) = Ad_array (snd (ivs ! k)) j
                  \<and> h' ! j = SpMatrix (block_identity nv (fst (ivs ! k))))"
  using assms
proof (induction ivs arbitrary: h)
  case Nil
  then show ?case by (simp add: exec)
next
  case (Cons iv ivs)
  obtain i v where iv: "iv = (i, v)" by (cases iv)
  have i: "i < length nv" using Cons.prems iv by simp
  let ?h1 = "h @ [SpMatrix (block_identity nv i), Ad_array v (length h)]"
  have step: "seed_variable nv iv h = Inr (Suc (length h), ?h1)"
    unfolding iv by (rule seed_variable_apply[OF i])
  have rest: "list_all (\<lambda>iv. fst iv < length nv) ivs" using Cons.prems by simp
  from Cons.IH[OF rest, of ?h1] obtain res h' where
    r: "for_each (seed_variable nv) ivs ?h1 = Inr (res, h')" "length res = length ivs"
       "take (length ?h1) h' = ?h1"
    and each: "\<forall>k<length ivs. \<exists>j. res ! k < length h' \<and> j < length h'
                  \<and> h' ! (res ! k) = Ad_array (snd (ivs ! k)) j
                  \<and> h' ! j = SpMatrix (block_identity nv (fst (ivs ! k)))" by blast
  have len: "length ?h1 \<le> length h'"
    by (rule prefix_length[OF r(3)])
  have run: "for_each (seed_variable nv) (iv # ivs) h = Inr (Suc (length h) # res, h')"
    using step r(1) by (simp add: exec)
  have pre: "take (length h) h' = h"
  proof -
    have "take (length h) h' = take (length h) (take (length ?h1) h')" by (simp add: min_def)
    also have "\<dots> = h" by (simp only: r(3)) simp
    finally show ?thesis .
  qed
  have a0: "h' ! Suc (length h) = Ad_array v (length h)"
    using prefix_nth[OF r(3), of "Suc (length h)"] by (simp add: nth_append)
  have j0: "h' ! length h = SpMatrix (block_identity nv i)"
    using prefix_nth[OF r(3), of "length h"] by (simp add: nth_append)
  have all: "\<forall>k<length (iv # ivs). \<exists>j. (Suc (length h) # res) ! k < length h' \<and> j < length h'
                  \<and> h' ! ((Suc (length h) # res) ! k) = Ad_array (snd ((iv # ivs) ! k)) j
                  \<and> h' ! j = SpMatrix (block_identity nv (fst ((iv # ivs) ! k)))"
  proof (intro allI impI)
    fix k assume k: "k < length (iv # ivs)"
    show "\<exists>j. (Suc (length h) # res) ! k < length h' \<and> j < length h'
                  \<and> h' ! ((Suc (length h) # res) ! k) = Ad_array (snd ((iv # ivs) ! k)) j
                  \<and> h' ! j = SpMatrix (block_identity nv (fst ((iv # ivs) ! k)))"
    proof (cases k)
      case 0
      then show ?thesis using a0 j0 len iv by (intro exI[of _ "length h"]) simp
    next
      case (Suc k')
      then have "k' < length ivs" using k by simp
      with each Suc show ?thesis by simp
    qed
  qed
  show ?case using run r(2) pre all by (intro exI[of _ "Suc (length h) # res"] exI[of _ h']) simp
qed

lemma ad_viewI:
  assumes "a < length h" "h ! a = Ad_array v j" "v < length h" "j < length h"
    "h ! v = NdArray xs" "h ! j = SpMatrix A"
  shows "ad_view h a = Some (xs, A)"
  using assms by (simp add: ad_view_def)

lemma ones_times: "length xs = n \<Longrightarrow> np_elementwise (\<lambda>a b. a * b) (np_ones n) xs = Inr xs"
proof -
  assume l: "length xs = n"
  have "map2 (\<lambda>a b. a * b) (replicate (length xs) (1::real)) xs = xs"
    by (induction xs) auto
  then show ?thesis using l by (simp add: np_elementwise_def np_ones_def)
qed

lemma np_ge_arrays:
  "length xs = length ys \<Longrightarrow>
   np_ge (NdArray ys) (NdArray xs) = Inr (map2 (\<lambda>y x. y \<ge> x) ys xs)"
  by (simp add: np_ge_def num_binop_def np_elementwise_def case_prod_unfold)

lemma mask_assign_max:
  assumes "length xs = length ys"
  shows "mask_assign xs (map2 (\<lambda>y x. y \<ge> x) ys xs) ys = Inr (map2 max xs ys)"
proof -
  have "map (\<lambda>i. if map2 (\<lambda>y x. y \<ge> x) ys xs ! i then ys ! i else xs ! i) [0..<length xs]
          = map2 max xs ys"
    using assms by (intro nth_equalityI) (auto simp: max_def)
  then show ?thesis using assms by (simp add: mask_assign_def)
qed

lemma nonzero_set: "j \<in> set (nonzero inds) \<longleftrightarrow> j < length inds \<and> inds ! j"
  by (auto simp: nonzero_def)

lemma slice_merge:
  assumes "length (entries A) = nrows A" "nrows B = nrows A" "ncols A = ncols B"
    "length inds = nrows A"
  shows "slice_mat B (nonzero inds)
           = Inr (Matrix (length (nonzero inds)) (ncols B) (map (\<lambda>i. entries B ! i) (nonzero inds)))"
    and "merge_matrices A (Matrix (length (nonzero inds)) (ncols B) (map (\<lambda>i. entries B ! i) (nonzero inds)))
            (nonzero inds) = Inr (select_rows inds A B)"
proof -
  have in_range: "list_all (\<lambda>i. i < nrows A) (nonzero inds)"
    using assms(4) by (auto simp: list_all_iff nonzero_set)
  show "slice_mat B (nonzero inds)
           = Inr (Matrix (length (nonzero inds)) (ncols B) (map (\<lambda>i. entries B ! i) (nonzero inds)))"
    using in_range assms(2) by (simp add: slice_mat_def)
  have r: "list_all (\<lambda>i. i < length (entries A)) (nonzero inds)"
    using in_range assms(1) by simp
  have "fold (\<lambda>(i, row) rows. rows[i := row])
          (zip (nonzero inds) (map (\<lambda>i. entries B ! i) (nonzero inds))) (entries A)
        = map (\<lambda>j. if j \<in> set (nonzero inds) then entries B ! j else entries A ! j)
            [0..<length (entries A)]"
    by (rule fold_update_slice[OF r])
  also have "\<dots> = map (\<lambda>r. if inds ! r then entries B ! r else entries A ! r) [0..<nrows A]"
    using assms(1,4) by (intro nth_equalityI) (auto simp: nonzero_set)
  finally show "merge_matrices A (Matrix (length (nonzero inds)) (ncols B) (map (\<lambda>i. entries B ! i) (nonzero inds)))
            (nonzero inds) = Inr (select_rows inds A B)"
    using in_range assms(3) by (simp add: merge_matrices_def select_rows_def)
qed

lemmas max_defs = maximum_def value_and_jacobian_def zeros_like_jac_def broadcast_values_def
  masked_maximum_def maximum_jacobian_def ones_like_def is_number_def

lemma maximum_two_ad:
  assumes a: "ad_view h a = Some (xs, A)" and b: "ad_view h b = Some (ys, B)"
    and len: "length xs = length ys"
    and wA: "length (entries A) = nrows A" and rA: "nrows A = length xs"
    and rB: "nrows B = length ys" and cols: "ncols A = ncols B"
  shows "\<exists>c h'. maximum a b h = Inr (c, h')
           \<and> ad_view h' c = Some (map2 max xs ys, select_rows (map2 (\<lambda>y x. y \<ge> x) ys xs) A B)
           \<and> take (length h) h' = h"
proof -
  from ad_viewD[OF a] obtain va ja where
    A: "a < length h" "h ! a = Ad_array va ja" "va < length h" "ja < length h"
       "h ! va = NdArray xs" "h ! ja = SpMatrix A" by blast
  from ad_viewD[OF b] obtain vb jb where
    B: "b < length h" "h ! b = Ad_array vb jb" "vb < length h" "jb < length h"
       "h ! vb = NdArray ys" "h ! jb = SpMatrix B" by blast
  let ?inds = "map2 (\<lambda>y x. y \<ge> x) ys xs"
  have li: "length ?inds = nrows A" using len rA by simp
  have rBA: "nrows B = nrows A" using rA rB len by simp
  note sm = slice_merge[OF wA rBA cols li]
  have o: "np_elementwise (\<lambda>a b. a * b) (np_ones (length ys)) xs = Inr xs"
    by (rule ones_times) (simp add: len)
  show ?thesis
    using A B len o np_ge_arrays[OF len] mask_assign_max[OF len] sm
    by (simp add: max_defs exec prim_defs nth_append ad_view_def mul_obj_def num_binop_def)
qed

lemma maximum_ad_array:
  assumes a: "ad_view h a = Some (xs, A)" and b: "b < length h" "h ! b = NdArray ys"
    and len: "length xs = length ys"
    and wA: "length (entries A) = nrows A" and rA: "nrows A = length xs"
  shows "\<exists>c h'. maximum a b h = Inr (c, h')
           \<and> ad_view h' c = Some (map2 max xs ys,
                 select_rows (map2 (\<lambda>y x. y \<ge> x) ys xs) A (sps_zeros (nrows A) (ncols A)))
           \<and> take (length h) h' = h"
proof -
  from ad_viewD[OF a] obtain va ja where
    A: "a < length h" "h ! a = Ad_array va ja" "va < length h" "ja < length h"
       "h ! va = NdArray xs" "h ! ja = SpMatrix A" by blast
  let ?inds = "map2 (\<lambda>y x. y \<ge> x) ys xs"
  let ?Z = "sps_zeros (nrows A) (ncols A)"
  have li: "length ?inds = nrows A" using len rA by simp
  have rZ: "nrows ?Z = nrows A" and cZ: "ncols A = ncols ?Z" by (simp_all add: sps_zeros_def)
  note sm = slice_merge[OF wA rZ cZ li]
  have o: "np_elementwise (\<lambda>a b. a * b) (np_ones (length ys)) xs = Inr xs"
    by (rule ones_times) (simp add: len)
  show ?thesis
    using A b len o np_ge_arrays[OF len] mask_assign_max[OF len] sm
    by (simp add: max_defs exec prim_defs nth_append ad_view_def mul_obj_def num_binop_def)
qed

lemma select_rows_row:
  "r < nrows A \<Longrightarrow> entries (select_rows inds A B) ! r = (if inds ! r then entries B ! r else entries A ! r)"
  by (simp add: select_rows_def)

lemma hbindE:
  assumes "hbind m f h = Inr (r, h')"
  obtains x h1 where "m h = Inr (x, h1)" "f x h1 = Inr (r, h')"
  using assms by (auto simp: hbind_def split: sum.splits)

lemma extends_keeps: "extends m \<Longrightarrow> keeps_with n m (\<lambda>x. True)"
  unfolding extends_def keeps_with_def
proof (intro allI impI)
  fix h x h' assume e: "\<forall>h x h'. m h = Inr (x, h') \<longrightarrow> (\<exists>ext. h' = h @ ext)"
    and a: "n \<le> length h \<and> m h = Inr (x, h')"
  then obtain ext where "h' = h @ ext" by blast
  with a show "n \<le> length h' \<and> take n h' = take n h \<and> True" by simp
qed

lemma allocatesD:
  assumes "allocates m" and "m h = Inr (r, h')"
  obtains ext where "h' = h @ ext" "length h \<le> r" "r < length h'"
    "\<And>v j. h' ! r = Ad_array v j \<Longrightarrow> length h \<le> v \<and> length h \<le> j"
  using assms unfolding allocates_def by blast

lemma allocates_extends: "allocates m \<Longrightarrow> extends m"
  unfolding allocates_def extends_def by blast

lemma allocates_keeps:
  assumes "allocates m"
  shows "keeps_with n m (\<lambda>r. n \<le> r)"
  unfolding keeps_with_def
proof (intro allI impI)
  fix h x h' assume a: "n \<le> length h \<and> m h = Inr (x, h')"
  with assms obtain ext where "h' = h @ ext" "length h \<le> x" by (blast elim: allocatesD)
  with a show "n \<le> length h' \<and> take n h' = take n h \<and> n \<le> x" by simp
qed

lemma allocates_safe:
  assumes "allocates m"
  shows "safe n m"
  unfolding safe_def
proof (intro allI impI)
  fix h r h' assume a: "n \<le> length h \<and> m h = Inr (r, h')"
  with assms obtain ext where e: "h' = h @ ext" "length h \<le> r" "r < length h'"
    "\<And>v j. h' ! r = Ad_array v j \<Longrightarrow> length h \<le> v \<and> length h \<le> j"
    by (blast elim: allocatesD)
  have "fresh_at n r h'"
    unfolding fresh_at_def
  proof (intro conjI allI impI)
    show "n \<le> r" using a e(2) by simp
    show "r < length h'" by (rule e(3))
  next
    fix v j assume "h' ! r = Ad_array v j"
    from e(4)[OF this] a show "n \<le> v" by simp
  next
    fix v j assume "h' ! r = Ad_array v j"
    from e(4)[OF this] a show "n \<le> j" by simp
  qed
  with a e(1) show "n \<le> length h' \<and> take n h' = take n h \<and> fresh_at n r h'" by simp
qed

lemma keeps_with_weaken: "keeps_with n m P \<Longrightarrow> (\<And>x. P x \<Longrightarrow> Q x) \<Longrightarrow> keeps_with n m Q"
  unfolding keeps_with_def by blast

lemma safe_keeps: "safe n m \<Longrightarrow> keeps_with n m (\<lambda>r. n \<le> r)"
  unfolding safe_def keeps_with_def fresh_at_def by blast

lemma keeps_bind:
  assumes "keeps_with n m P" and "\<And>x. P x \<Longrightarrow> keeps_with n (f x) Q"
  shows "keeps_with n (hbind m f) Q"
  unfolding keeps_with_def
proof (intro allI impI)
  fix h y h' assume a: "n \<le> length h \<and> hbind m f h = Inr (y, h')"
  then obtain x h1 where s: "m h = Inr (x, h1)" "f x h1 = Inr (y, h')"
    by (auto simp: hbind_def split: sum.splits)
  from assms(1) a s(1) have 1: "n \<le> length h1" "take n h1 = take n h" "P x"
    by (auto simp: keeps_with_def)
  from assms(2)[OF 1(3)] 1(1) s(2) have "n \<le> length h'" "take n h' = take n h1" "Q y"
    by (auto simp: keeps_with_def)
  with 1 show "n \<le> length h' \<and> take n h' = take n h \<and> Q y" by simp
qed

lemma safe_bind:
  assumes "keeps_with n m P" and "\<And>x. P x \<Longrightarrow> safe n (f x)"
  shows "safe n (hbind m f)"
  unfolding safe_def
proof (intro allI impI)
  fix h y h' assume a: "n \<le> length h \<and> hbind m f h = Inr (y, h')"
  then obtain x h1 where s: "m h = Inr (x, h1)" "f x h1 = Inr (y, h')"
    by (auto simp: hbind_def split: sum.splits)
  from assms(1) a s(1) have 1: "n \<le> length h1" "take n h1 = take n h" "P x"
    by (auto simp: keeps_with_def)
  from assms(2)[OF 1(3)] 1(1) s(2) have "n \<le> length h'" "take n h' = take n h1" "fresh_at n y h'"
    by (auto simp: safe_def)
  with 1 show "n \<le> length h' \<and> take n h' = take n h \<and> fresh_at n y h'" by simp
qed

lemma extends_bind:
  assumes "extends m" and "\<And>x. extends (f x)"
  shows "extends (hbind m f)"
  unfolding extends_def
proof (intro allI impI)
  fix h y h' assume "hbind m f h = Inr (y, h')"
  then obtain x h1 where s: "m h = Inr (x, h1)" "f x h1 = Inr (y, h')"
    by (auto simp: hbind_def split: sum.splits)
  from assms(1) s(1) obtain e1 where "h1 = h @ e1" unfolding extends_def by blast
  moreover from assms(2)[of x] s(2) obtain e2 where "h' = h1 @ e2" unfolding extends_def by blast
  ultimately show "\<exists>ext. h' = h @ ext" by simp
qed

lemma allocates_bind:
  assumes "extends m" and "\<And>x. allocates (f x)"
  shows "allocates (hbind m f)"
  unfolding allocates_def
proof (intro allI impI)
  fix h y h' assume "hbind m f h = Inr (y, h')"
  then obtain x h1 where s: "m h = Inr (x, h1)" "f x h1 = Inr (y, h')"
    by (auto simp: hbind_def split: sum.splits)
  from assms(1) s(1) obtain e1 where e1: "h1 = h @ e1" unfolding extends_def by blast
  from assms(2)[of x] s(2) obtain e2 where e2: "h' = h1 @ e2" "length h1 \<le> y" "y < length h'"
    "\<forall>v j. h' ! y = Ad_array v j \<longrightarrow> length h1 \<le> v \<and> length h1 \<le> j"
    unfolding allocates_def by blast
  show "(\<exists>ext. h' = h @ ext) \<and> length h \<le> y \<and> y < length h'
          \<and> (\<forall>v j. h' ! y = Ad_array v j \<longrightarrow> length h \<le> v \<and> length h \<le> j)"
    using e1 e2 by auto
qed

lemma extends_prims:
  "extends (ret x)" "extends (raise_err e)" "extends (lift r)" "extends (get_obj a)"
  "extends (get_objs as)" "extends (new_obj ob)" "extends (get_val a)" "extends (get_jac a)"
  by (auto simp: extends_def ret_def raise_err_def lift_def get_obj_def get_objs_def new_obj_def
      get_val_def get_jac_def hbind_def split: sum.splits if_splits obj.splits)

lemma allocates_new_obj: "\<not> is_Ad_array ob \<Longrightarrow> allocates (new_obj ob)"
  by (auto simp: allocates_def new_obj_def is_Ad_array_def)

lemma allocates_raise: "allocates (raise_err e)"
  by (simp add: allocates_def raise_err_def)

lemma extends_if: "extends a \<Longrightarrow> extends b \<Longrightarrow> extends (if c then a else b)"
  by simp

lemma allocates_if: "allocates a \<Longrightarrow> allocates b \<Longrightarrow> allocates (if c then a else b)"
  by simp

lemma extends_for_each:
  assumes "\<And>x. extends (body x)"
  shows "extends (for_each body xs)"
proof (induction xs)
  case Nil
  show ?case by (simp add: extends_prims)
next
  case (Cons x xs)
  show ?case
    unfolding for_each.simps
    by (intro extends_bind assms Cons extends_prims)
qed

lemma extends_alloc_all: "extends (alloc_all rs)"
  unfolding alloc_all_def
  by (intro extends_for_each extends_bind extends_prims)

lemma extends_except_TypeError:
  "extends m \<Longrightarrow> extends handler \<Longrightarrow> extends (except_TypeError m handler)"
  unfolding extends_def except_TypeError_def
  by (auto split: sum.splits error.splits)

lemma extends_except_AttributeError:
  "extends m \<Longrightarrow> extends handler \<Longrightarrow> extends (except_AttributeError m handler)"
  unfolding extends_def except_AttributeError_def
  by (auto split: sum.splits error.splits)

lemma plain_simps: "plain (Inl e)" "plain (Inr ob) = (\<not> is_Ad_array ob)"
  by (simp_all add: plain_def)

lemma plain_num_binop: "plain (num_binop c f x y)"
  by (simp add: plain_simps num_binop_def is_Ad_array_def split: sum.splits obj.splits option.splits)

lemma plain_mul_obj: "plain (mul_obj x y)"
  by (simp add: plain_simps plain_num_binop mul_obj_def is_Ad_array_def
      split: sum.splits obj.splits option.splits)

lemma plain_add_obj: "plain (add_obj x y)"
  by (simp add: plain_simps plain_num_binop add_obj_def is_Ad_array_def
      split: sum.splits obj.splits option.splits)

lemma plain_neg_obj: "plain (neg_obj x)"
  by (simp add: plain_simps neg_obj_def is_Ad_array_def split: obj.splits)

lemma plain_pow_obj: "plain (pow_obj x y)"
  unfolding pow_obj_def by (rule plain_num_binop)

lemma plain_map_obj: "plain (map_obj f x)"
  by (simp add: plain_simps map_obj_def is_Ad_array_def split: obj.splits option.splits)

lemma allocates_lift_new:
  assumes "plain r"
  shows "allocates (hbind (lift r) new_obj)"
  using assms
  by (auto simp: allocates_def plain_def hbind_def lift_def new_obj_def is_Ad_array_def
      split: sum.splits)

lemma allocates_new_ObjArray: "allocates (new_obj (ObjArray rs))"
  by (simp add: allocates_new_obj is_Ad_array_def)

lemma allocates_py_unop:
  assumes "\<And>x. plain (f x)"
  shows "allocates (py_unop f a)"
  unfolding py_unop_def
  by (intro allocates_bind extends_prims)
     (auto split: obj.splits intro!: allocates_bind extends_prims extends_alloc_all
         allocates_new_ObjArray allocates_lift_new assms)

lemma allocates_py_binop:
  assumes "\<And>x y. plain (f x y)"
  shows "allocates (py_binop f a b)"
  unfolding py_binop_def
  by (intro allocates_bind extends_prims)
     (auto split: obj.splits intro!: allocates_bind extends_prims extends_alloc_all
         allocates_new_ObjArray allocates_lift_new allocates_raise assms)

lemma allocates_library:
  "allocates (py_add a b)" "allocates (py_mul a b)" "allocates (py_pow a b)"
  "allocates (py_sub a b)" "allocates (py_neg a)"
  unfolding py_add_def py_mul_def py_pow_def py_sub_def py_neg_def
  by (intro allocates_py_binop allocates_py_unop plain_add_obj plain_mul_obj plain_pow_obj
        plain_num_binop plain_neg_obj)+

lemma allocates_py_ufunc: "allocates (py_ufunc f a)"
  unfolding py_ufunc_def
  by (intro allocates_bind extends_prims allocates_lift_new plain_map_obj)

lemma allocates_py_copy: "allocates (py_copy a)"
  unfolding py_copy_def
  by (intro allocates_bind extends_prims)
     (simp add: allocates_new_obj allocates_raise is_Ad_array_def split: obj.splits)

lemma allocates_py_float: "allocates (py_float a)"
  unfolding py_float_def
  by (intro allocates_bind extends_prims)
     (simp add: allocates_new_obj allocates_raise is_Ad_array_def split: option.splits)

lemma allocates_py_astype_float: "allocates (py_astype_float a)"
  unfolding py_astype_float_def
  by (intro allocates_bind extends_prims)
     (simp add: allocates_new_obj allocates_raise is_Ad_array_def split: obj.splits)

lemma allocates_sps_diags_py: "allocates (sps_diags_py a)"
  unfolding sps_diags_py_def
  by (intro allocates_bind extends_prims)
     (simp add: allocates_new_obj allocates_raise is_Ad_array_def split: obj.splits)

lemma allocates_ones_like: "allocates (ones_like a)"
  unfolding ones_like_def
  by (intro allocates_bind extends_prims)
     (simp add: allocates_new_obj allocates_raise is_Ad_array_def split: obj.splits)

lemma allocates_zeros_like_jac: "allocates (zeros_like_jac a)"
  unfolding zeros_like_jac_def
  by (intro allocates_bind extends_prims)
     (simp add: allocates_new_obj allocates_raise is_Ad_array_def split: obj.splits)

lemma extends_new_Ad_array: "extends (new_Ad_array v j)"
  unfolding new_Ad_array_def by (rule extends_prims)

lemma allocates_default_Ad_array: "allocates default_Ad_array"
  by (auto simp: allocates_def default_Ad_array_def new_Ad_array_def hbind_def new_obj_def
      nth_append)

lemma allocates_diagvec_mul_jac: "allocates (diagvec_mul_jac self a)"
  unfolding diagvec_mul_jac_def
  by (intro allocates_bind extends_prims extends_except_TypeError
        allocates_extends[OF allocates_sps_diags_py])
     (auto split: obj.splits intro!: allocates_bind extends_for_each allocates_new_ObjArray
        allocates_raise allocates_library allocates_extends[OF allocates_library(2)])

lemma keeps_reads:
  "keeps_with n (get_obj a) (\<lambda>x. True)"
  "keeps_with n (get_val a) (\<lambda>x. True)"
  "keeps_with n (get_jac a) (\<lambda>x. True)"
  "keeps_with n (get_objs as) (\<lambda>x. True)"
  "keeps_with n (lift r) (\<lambda>x. True)"
  by (intro extends_keeps extends_prims)+

lemma keeps_allocs:
  "keeps_with n (py_add a b) (\<lambda>r. n \<le> r)"
  "keeps_with n (py_mul a b) (\<lambda>r. n \<le> r)"
  "keeps_with n (py_pow a b) (\<lambda>r. n \<le> r)"
  "keeps_with n (py_sub a b) (\<lambda>r. n \<le> r)"
  "keeps_with n (py_neg a) (\<lambda>r. n \<le> r)"
  "keeps_with n (py_ufunc f a) (\<lambda>r. n \<le> r)"
  "keeps_with n (py_copy a) (\<lambda>r. n \<le> r)"
  "keeps_with n (py_float a) (\<lambda>r. n \<le> r)"
  "keeps_with n (py_astype_float a) (\<lambda>r. n \<le> r)"
  "keeps_with n (ones_like a) (\<lambda>r. n \<le> r)"
  "keeps_with n (zeros_like_jac a) (\<lambda>r. n \<le> r)"
  "keeps_with n (diagvec_mul_jac self a) (\<lambda>r. n \<le> r)"
  "keeps_with n default_Ad_array (\<lambda>r. n \<le> r)"
  "keeps_with n (new_obj (PyInt i)) (\<lambda>r. n \<le> r)"
  "keeps_with n (new_obj (NdArray xs)) (\<lambda>r. n \<le> r)"
  "keeps_with n (new_obj (SpMatrix A)) (\<lambda>r. n \<le> r)"
  by (intro allocates_keeps allocates_library allocates_py_ufunc allocates_py_copy
        allocates_py_float allocates_py_astype_float allocates_ones_like
        allocates_zeros_like_jac allocates_diagvec_mul_jac allocates_default_Ad_array
        allocates_new_obj; simp add: is_Ad_array_def)+

lemma safe_allocs:
  "safe n (py_ufunc f a)"
  "safe n (py_binop (num_binop c g) a b)"
  "safe n (raise_err e)"
  by (intro allocates_safe allocates_py_ufunc allocates_py_binop plain_num_binop allocates_raise)+

lemma safe_new_Ad_array: "n \<le> v \<Longrightarrow> n \<le> j \<Longrightarrow> safe n (new_Ad_array v j)"
  by (auto simp: safe_def fresh_at_def new_Ad_array_def new_obj_def)

lemmas safe_steps = keeps_reads [THEN safe_bind] keeps_allocs [THEN safe_bind]

lemmas keeps_steps = keeps_reads [THEN keeps_bind] keeps_allocs [THEN keeps_bind]

lemma safe_elementary: "safe n (elementary f df var)"
  unfolding elementary_def
  by (auto intro!: safe_steps safe_allocs safe_new_Ad_array)

lemma safe_sign_ad: "safe n (sign_ad var)"
  unfolding sign_ad_def
  by (auto intro!: safe_steps safe_allocs safe_new_Ad_array)

lemma safe_heaviside: "safe n (heaviside var zerovalue)"
  unfolding heaviside_def
  by (auto intro!: safe_steps safe_allocs safe_new_Ad_array)

lemma safe_heaviside_smooth: "safe n (heaviside_smooth var eps)"
  unfolding heaviside_smooth_def by (rule safe_elementary)

lemma safe_abs_ad: "safe n (abs_ad var)"
  unfolding abs_ad_def
  by (auto intro!: safe_steps safe_allocs safe_new_Ad_array safe_keeps [OF safe_sign_ad, THEN safe_bind])

lemma safe_characteristic_function: "safe n (characteristic_function tol var)"
  unfolding characteristic_function_def
  by (auto intro!: safe_steps safe_allocs safe_new_Ad_array split: obj.splits)

lemma safe_l2_norm: "safe n (l2_norm n_dim var)"
  unfolding l2_norm_def
  by (auto intro!: safe_steps safe_allocs safe_new_Ad_array safe_abs_ad split: obj.splits)

lemma keeps_ret: "P x \<Longrightarrow> keeps_with n (ret x) P"
  by (simp add: keeps_with_def ret_def)

lemma keeps_raise: "keeps_with n (raise_err e) P"
  by (simp add: keeps_with_def raise_err_def)

lemma allocates_jac_mul_other: "allocates (hbind (get_jac self) (\<lambda>sj. py_mul sj other))"
  by (intro allocates_bind extends_prims allocates_library)

lemma safe_Ad_array_mul: "safe n (Ad_array_mul self other)"
  unfolding Ad_array_mul_def
  by (auto intro!: safe_steps safe_allocs safe_new_Ad_array
        allocates_jac_mul_other [THEN allocates_keeps, THEN safe_bind] split: obj.splits)

lemma safe_Ad_array_pow: "safe n (Ad_array_pow self other)"
  unfolding Ad_array_pow_def
  apply (rule safe_bind [OF keeps_reads(1)])
  apply (rule safe_bind [where P = "\<lambda>vj. n \<le> fst vj \<and> n \<le> snd vj"])
   apply (auto intro!: keeps_steps keeps_ret keeps_raise split: obj.splits)[1]
  apply (auto intro!: safe_new_Ad_array)
  done

lemma safe_Ad_array_truediv: "safe n (Ad_array_truediv self other)"
  unfolding Ad_array_truediv_def
  by (auto intro!: safe_steps safe_Ad_array_mul safe_Ad_array_pow [THEN safe_keeps, THEN safe_bind]
        split: obj.splits)

lemma safe_Ad_array_rmul: "safe n (Ad_array_rmul self other)"
  unfolding Ad_array_rmul_def
  by (auto intro!: safe_steps safe_allocs safe_new_Ad_array)

lemma safe_Ad_array_rpow: "safe n (Ad_array_rpow self other)"
  unfolding Ad_array_rpow_def
  by (auto intro!: safe_steps safe_allocs safe_new_Ad_array split: obj.splits)

lemma hbind_assoc: "hbind (hbind m f) g = hbind m (\<lambda>x. hbind (f x) g)"
  by (rule ext) (simp add: hbind_def split: sum.splits)

lemma set_valD:
  assumes "set_val a v h = Inr (u, h')"
  shows "a < length h \<and> (\<exists>v0 j. h ! a = Ad_array v0 j \<and> h' = h[a := Ad_array v j])"
proof -
  from assms have l: "a < length h"
    by (simp add: set_val_def exec split: if_splits)
  with assms show ?thesis
    by (cases "h ! a") (simp_all add: set_val_def exec)
qed

lemma set_jacD:
  assumes "set_jac a j h = Inr (u, h')"
  shows "a < length h \<and> (\<exists>v j0. h ! a = Ad_array v j0 \<and> h' = h[a := Ad_array v j])"
proof -
  from assms have l: "a < length h"
    by (simp add: set_jac_def exec split: if_splits)
  with assms show ?thesis
    by (cases "h ! a") (simp_all add: set_jac_def exec)
qed

lemma keeps_set_obj: "n \<le> a \<Longrightarrow> keeps_with n (set_obj a ob) (\<lambda>u. True)"
  by (simp add: keeps_with_def exec split: if_splits)

lemma keeps_set_val:
  assumes "n \<le> a"
  shows "keeps_with n (set_val a v) (\<lambda>u. True)"
  unfolding keeps_with_def
proof (intro allI impI)
  fix h x h' assume s: "n \<le> length h \<and> set_val a v h = Inr (x, h')"
  then have "set_val a v h = Inr (x, h')" by simp
  from set_valD[OF this] obtain v0 j where "h' = h[a := Ad_array v j]" by blast
  with assms s show "n \<le> length h' \<and> take n h' = take n h \<and> True" by simp
qed

lemma keeps_set_jac:
  assumes "n \<le> a"
  shows "keeps_with n (set_jac a j) (\<lambda>u. True)"
  unfolding keeps_with_def
proof (intro allI impI)
  fix h x h' assume s: "n \<le> length h \<and> set_jac a j h = Inr (x, h')"
  then have "set_jac a j h = Inr (x, h')" by simp
  from set_jacD[OF this] obtain v j0 where "h' = h[a := Ad_array v j]" by blast
  with assms s show "n \<le> length h' \<and> take n h' = take n h \<and> True" by simp
qed

lemma keeps_except_AttributeError:
  assumes m: "keeps_with n m P" and hd: "keeps_with n handler P"
  shows "keeps_with n (except_AttributeError m handler) P"
  unfolding keeps_with_def
proof (intro allI impI)
  fix h x h' assume s: "n \<le> length h \<and> except_AttributeError m handler h = Inr (x, h')"
  then have e: "except_AttributeError m handler h = Inr (x, h')" and l: "n \<le> length h" by simp_all
  have "m h = Inr (x, h') \<or> handler h = Inr (x, h')"
  proof (cases "m h")
    case (Inl err)
    with e show ?thesis by (cases err) (simp_all add: exec)
  next
    case (Inr p)
    with e show ?thesis by (simp add: exec)
  qed
  with m hd l show "n \<le> length h' \<and> take n h' = take n h \<and> P x"
    unfolding keeps_with_def by blast
qed

text \<open>
  The assignment of both fields of a new \<open>Ad_array\<close>, the second from a step that
  allocates: the object holds the two new references afterwards.
\<close>

lemma safe_assign_fields:
  assumes c: "n \<le> c" and v: "n \<le> v" and m: "allocates m"
  shows "safe n (hbind (set_val c v) (\<lambda>u1. hbind m (\<lambda>j. hbind (set_jac c j) (\<lambda>u2. ret c))))"
  unfolding safe_def
proof (intro allI impI)
  fix h r h'
  assume a: "n \<le> length h \<and>
    hbind (set_val c v) (\<lambda>u1. hbind m (\<lambda>j. hbind (set_jac c j) (\<lambda>u2. ret c))) h = Inr (r, h')"
  then obtain u1 h1 where s1: "set_val c v h = Inr (u1, h1)"
    and r1: "hbind m (\<lambda>j. hbind (set_jac c j) (\<lambda>u2. ret c)) h1 = Inr (r, h')"
    by (blast elim: hbindE)
  from r1 obtain j h2 where s2: "m h1 = Inr (j, h2)"
    and r2: "hbind (set_jac c j) (\<lambda>u2. ret c) h2 = Inr (r, h')"
    by (blast elim: hbindE)
  from r2 obtain u2 h3 where s3: "set_jac c j h2 = Inr (u2, h3)" and r3: "ret c h3 = Inr (r, h')"
    by (blast elim: hbindE)
  from set_valD[OF s1] obtain v0 j0 where 1: "c < length h" "h ! c = Ad_array v0 j0"
    "h1 = h[c := Ad_array v j0]" by blast
  from m s2 obtain ext where 2: "h2 = h1 @ ext" "length h1 \<le> j" by (blast elim: allocatesD)
  from set_jacD[OF s3] obtain v' j' where 3: "c < length h2" "h2 ! c = Ad_array v' j'"
    "h3 = h2[c := Ad_array v' j]" by blast
  have "h2 ! c = Ad_array v j0" using 1 2 by (simp add: nth_append)
  with 3 have v': "v' = v" by simp
  from r3 have 4: "r = c" "h' = h3" by (simp_all add: ret_def)
  have len: "length h' = length h + length ext" using 1 2 3 4 by simp
  have tk: "take n h' = take n h" using 1 2 3 4 c a by (simp add: take_update_cancel)
  have obj: "h' ! c = Ad_array v j" using 3 4 v' by simp
  have j: "n \<le> j" using 2 1 a by simp
  have "fresh_at n r h'"
    unfolding fresh_at_def using 4(1) c obj v j 3(1) 3(3) 4(2) by simp
  with len tk a show "n \<le> length h' \<and> take n h' = take n h \<and> fresh_at n r h'" by simp
qed

lemma safe_negate_fields:
  assumes "n \<le> b"
  shows "safe n (negate_fields b)"
proof -
  have t: "safe n (hbind (set_val b nv)
        (\<lambda>u1. hbind (hbind (get_jac b) (\<lambda>j. py_neg j)) (\<lambda>nj. hbind (set_jac b nj) (\<lambda>u2. ret b))))"
    if "n \<le> nv" for nv
    by (intro safe_assign_fields assms that allocates_bind extends_prims allocates_library)
  show ?thesis
    unfolding negate_fields_def
    by (intro safe_steps) (use t in \<open>simp add: hbind_assoc\<close>)
qed

lemma safe_Ad_array_add_tail:
  assumes "n \<le> c" "n \<le> v"
  shows "safe n (hbind (set_val c v) (\<lambda>u1.
     hbind (get_jac self) (\<lambda>sj. hbind (get_jac b) (\<lambda>bj. hbind (py_add sj bj) (\<lambda>j.
     hbind (set_jac c j) (\<lambda>u2. ret c))))))"
proof -
  have "safe n (hbind (set_val c v) (\<lambda>u1.
      hbind (hbind (get_jac self) (\<lambda>sj. hbind (get_jac b) (\<lambda>bj. py_add sj bj)))
        (\<lambda>j. hbind (set_jac c j) (\<lambda>u2. ret c))))"
    by (intro safe_assign_fields assms allocates_bind extends_prims allocates_library)
  then show ?thesis by (simp add: hbind_assoc)
qed

lemma extends_cast_one: "extends (cast_one var)"
  unfolding cast_one_def
  by (intro extends_bind extends_prims) (auto intro!: extends_bind extends_prims extends_new_Ad_array)

lemma extends_cast: "extends (cast variables)"
  unfolding cast_def
  by (intro extends_bind extends_prims)
     (auto intro!: extends_bind extends_prims extends_for_each extends_cast_one split: obj.splits)

lemma safe_Ad_array_add: "safe n (Ad_array_add self other)"
  unfolding Ad_array_add_def
  by (intro safe_bind [OF extends_keeps [OF extends_cast]] safe_steps safe_Ad_array_add_tail)

lemma keeps_Ad_array_copy: "keeps_with n (Ad_array_copy self) (\<lambda>b. n \<le> b)"
  unfolding Ad_array_copy_def
  by (intro keeps_steps keeps_bind [where P = "\<lambda>u. True"] keeps_except_AttributeError
        keeps_set_val keeps_set_jac keeps_ret)

lemma safe_Ad_array_neg: "safe n (Ad_array_neg self)"
  unfolding Ad_array_neg_def
  by (intro safe_bind [OF keeps_Ad_array_copy] safe_negate_fields)

lemma safe_Ad_array_sub: "safe n (Ad_array_sub self other)"
  unfolding Ad_array_sub_def
  by (intro safe_bind [OF extends_keeps [OF extends_cast]] safe_bind [OF keeps_Ad_array_copy]
        safe_bind [OF safe_keeps [OF safe_negate_fields]] safe_Ad_array_add)

lemma safe_Ad_array_rsub: "safe n (Ad_array_rsub self other)"
  unfolding Ad_array_rsub_def
  by (intro safe_bind [OF safe_keeps [OF safe_Ad_array_sub]] safe_Ad_array_neg)

lemma safe_Ad_array_radd: "safe n (Ad_array_radd self other)"
  unfolding Ad_array_radd_def by (rule safe_Ad_array_add)

lemma extends_value_and_jacobian: "extends (value_and_jacobian var zero_jac)"
  unfolding value_and_jacobian_def
  by (intro extends_bind extends_prims) (auto intro!: extends_bind extends_prims)

lemma extends_broadcast_values: "extends (broadcast_values v0 v1)"
  unfolding broadcast_values_def
  by (intro extends_bind extends_prims)
     (auto intro!: extends_bind extends_prims allocates_ones_like [THEN allocates_extends]
        allocates_library(2) [THEN allocates_extends])

lemma keeps_masked_maximum:
  "keeps_with n (masked_maximum w0 w1) (\<lambda>mi. n \<le> fst mi)"
  unfolding masked_maximum_def
  apply (intro keeps_steps)
  apply (rule keeps_bind [where P = "\<lambda>u. True"])
   apply (auto intro!: keeps_steps keeps_set_obj keeps_raise split: obj.splits)[1]
  apply (simp add: keeps_ret)
  done

lemma safe_maximum_jacobian:
  assumes "n \<le> max_val"
  shows "safe n (maximum_jacobian j0 j1 inds max_val)"
  unfolding maximum_jacobian_def
  using assms
  by (auto intro!: safe_steps safe_allocs safe_new_Ad_array keeps_set_obj [THEN safe_bind]
      split: obj.splits)

lemma safe_maximum: "safe n (maximum var_0 var_1)"
  unfolding maximum_def
  by (auto intro!: safe_steps safe_allocs safe_new_Ad_array safe_maximum_jacobian
        safe_bind [OF extends_keeps [OF extends_value_and_jacobian]]
        safe_bind [OF extends_keeps [OF extends_broadcast_values]]
        safe_bind [OF keeps_masked_maximum]
        safe_bind [OF allocates_keeps [OF allocates_bind [OF extends_prims(8) allocates_zeros_like_jac]]]
        safe_bind [OF allocates_keeps [OF allocates_py_binop [OF plain_num_binop]]])

lemmas elementary_defs = exp_ad_def log_ad_def sin_ad_def cos_ad_def tan_ad_def arcsin_ad_def
  arccos_ad_def arctan_ad_def sinh_ad_def cosh_ad_def tanh_ad_def arcsinh_ad_def arccosh_ad_def
  arctanh_ad_def

lemma safe_run_call: "safe n (run_call c)"
  by (cases c)
     (simp_all add: elementary_defs safe_elementary safe_sign_ad safe_abs_ad safe_l2_norm
        safe_heaviside safe_heaviside_smooth safe_maximum safe_characteristic_function
        safe_Ad_array_add safe_Ad_array_radd safe_Ad_array_sub safe_Ad_array_rsub
        safe_Ad_array_mul safe_Ad_array_rmul safe_Ad_array_pow safe_Ad_array_rpow
        safe_Ad_array_truediv safe_Ad_array_neg)

lemma operand_heap_sub:
  "\<exists>c h'. run_call (Call_sub 2 5) operand_heap = Inr (c, h')
      \<and> ad_view h' c = Some ([3], Matrix 1 1 [[- 2]])"
  by (simp add: Ad_array_sub_def Ad_array_add_def Ad_array_copy_def negate_fields_def cast_def
      cast_one_def operand_heap_def exec prim_defs obj_defs ad_view_def nth_append)

lemma operand_heap_neg:
  "\<exists>c h'. run_call (Call_neg 2) operand_heap = Inr (c, h')
      \<and> ad_view h' c = Some ([- 5], Matrix 1 1 [[- 1]])"
  by (simp add: Ad_array_neg_def Ad_array_copy_def negate_fields_def
      operand_heap_def exec prim_defs obj_defs ad_view_def nth_append)

lemma ad_view_prefix:
  assumes "take (length h) h' = h" and "ad_view h a = Some x"
  shows "ad_view h' a = Some x"
proof -
  have len: "length h \<le> length h'" by (rule prefix_length[OF assms(1)])
  have nth: "h' ! k = h ! k" if "k < length h" for k by (rule prefix_nth[OF assms(1) that])
  from assms(2) have a: "a < length h" by (simp add: ad_view_def split: if_splits)
  from assms(2) a obtain v j where o: "h ! a = Ad_array v j"
    by (cases "h ! a") (simp_all add: ad_view_def)
  from assms(2) a o have vj: "v < length h" "j < length h"
    by (simp_all add: ad_view_def split: if_splits)
  have e: "h' ! a = h ! a" "h' ! v = h ! v" "h' ! j = h ! j"
    using a vj by (simp_all add: nth)
  have "ad_view h' a = ad_view h a"
    using a o vj len by (simp add: ad_view_def e split: obj.splits)
  with assms(2) show ?thesis by simp
qed

section \<open>Claims on the degree-of-freedom manager\<close>

text \<open>
  C1. For a registry with registered blocks and a global vector \<open>v\<close> of length
  \<open>num_dofs()\<close>, \<open>distribute_variable(v, additive=False, to_iterate=False)\<close>
  followed by \<open>assemble_variable(from_iterate=False)\<close> with the same selection (the
  default, or any selection that holds every registered pair) returns \<open>v\<close>.
\<close>

theorem distribute_assemble_round_trip:
  assumes "wf_dm dm" and "full_dof dm \<noteq> []" and "length v = num_dofs dm"
    and "covers_all dm grids variables"
  shows "\<exists>mdg'. distribute_variable dm mdg v grids variables False False = Inr mdg'
           \<and> assemble_variable dm mdg' grids variables False = Inr v"
proof -
  let ?ps = "selection dm grids variables"
  have le: "num_dofs dm \<le> length v" using assms(3) by simp
  from distribute_pairs_overwrite[OF assms(1) le, of ?ps mdg] obtain mdg' where
    d: "for_loop (distribute_pair dm v False False) ?ps mdg = Inr mdg'"
    and st: "\<forall>g var. stored_value mdg' g var =
                 (if (g, var) \<in> set ?ps \<and> dict_contains (block_dof dm) (g, var)
                  then Some (block_slice dm v g var)
                  else stored_value mdg g var)" by blast
  have stored: "\<And>g var. (g, var) \<in> set ?ps \<Longrightarrow> dict_contains (block_dof dm) (g, var)
            \<Longrightarrow> stored_value mdg' g var = Some (block_slice dm v g var)"
    using st by simp
  have len0: "length (np_zeros (num_dofs dm)) = num_dofs dm" by (simp add: np_zeros_def)
  have a: "for_loop (assemble_pair dm mdg' False) ?ps (np_zeros (num_dofs dm))
             = Inr (map (\<lambda>j. if in_blocks dm ?ps j then v ! j else np_zeros (num_dofs dm) ! j)
                      [0..<num_dofs dm])"
    by (rule assemble_pairs_slices[OF assms(1) stored len0])
  have all: "\<And>j. j < num_dofs dm \<Longrightarrow> in_blocks dm ?ps j"
  proof -
    fix j assume "j < num_dofs dm"
    from index_in_block[OF assms(1) this] obtain g var dofs where
      gv: "dict_contains (block_dof dm) (g, var)" "(g, var) \<in> fst ` set (block_dof dm)"
          "grid_and_variable_to_dofs dm g var = Inr dofs" "j \<in> set dofs" by blast
    have "(g, var) \<in> set ?ps"
      using assms(4) gv(2) by (auto simp: covers_all_def list_all_iff)
    then show "in_blocks dm ?ps j"
      using gv by (auto simp: in_blocks_def list_ex_iff block_range_def)
  qed
  have "map (\<lambda>j. if in_blocks dm ?ps j then v ! j else np_zeros (num_dofs dm) ! j) [0..<num_dofs dm]
          = map (\<lambda>j. v ! j) [0..<num_dofs dm]"
    using all by (intro map_cong) auto
  also have "\<dots> = v" using assms(3) by (metis map_nth)
  finally have "for_loop (assemble_pair dm mdg' False) ?ps (np_zeros (num_dofs dm)) = Inr v"
    using a by simp
  then show ?thesis
    using d assms(2) by (simp add: distribute_variable_def assemble_variable_def selection_def)
qed

theorem distribute_assemble_round_trip_witness:
  "wf_dm example_dm \<and> full_dof example_dm \<noteq> [] \<and> length [1, 2, 3, 4, 5 :: real] = num_dofs example_dm
   \<and> covers_all example_dm None None
   \<and> (\<exists>mdg'. distribute_variable example_dm example_mdg [1, 2, 3, 4, 5] None None False False = Inr mdg'
           \<and> assemble_variable example_dm mdg' None None False = Inr [1, 2, 3, 4, 5])"
proof -
  have h2: "full_dof example_dm \<noteq> []" by (simp add: example_dm_eq)
  have h3: "length [1, 2, 3, 4, 5 :: real] = num_dofs example_dm"
    by (simp add: example_dm_eq num_dofs_def)
  show ?thesis
    using distribute_assemble_round_trip[OF example_wf h2 h3 covers_all_default, of example_mdg]
      example_wf h2 h3 covers_all_default by simp
qed

text \<open>
  C6. For every global index \<open>i\<close> with \<open>0 \<le> i < num_dofs()\<close> the inverse lookup
  \<open>dof_to_grid_and_variable(i)\<close> returns a registered pair whose index range
  \<open>grid_and_variable_to_dofs\<close> holds \<open>i\<close>; for a negative \<open>i\<close> and for
  \<open>i \<ge> num_dofs()\<close> it raises a ValueError.
\<close>

theorem dof_to_grid_and_variable_inverse:
  assumes "wf_dm dm"
  shows "(0 \<le> i \<and> i < int (num_dofs dm) \<longrightarrow>
           (\<exists>g var dofs. dof_to_grid_and_variable dm i = Inr (g, var)
              \<and> dict_contains (block_dof dm) (g, var)
              \<and> grid_and_variable_to_dofs dm g var = Inr dofs
              \<and> nat i \<in> set dofs))
       \<and> (i < 0 \<or> int (num_dofs dm) \<le> i \<longrightarrow> dof_to_grid_and_variable dm i = Inl ValueError)"
proof (intro conjI impI)
  assume "i < 0 \<or> int (num_dofs dm) \<le> i"
  then show "dof_to_grid_and_variable dm i = Inl ValueError"
    by (auto simp: dof_to_grid_and_variable_def dof_start_last)
next
  assume r: "0 \<le> i \<and> i < int (num_dofs dm)"
  then have n: "nat i < num_dofs dm" and ii: "int (nat i) = i" by auto
  from index_in_block[OF assms n] show "\<exists>g var dofs. dof_to_grid_and_variable dm i = Inr (g, var)
              \<and> dict_contains (block_dof dm) (g, var)
              \<and> grid_and_variable_to_dofs dm g var = Inr dofs
              \<and> nat i \<in> set dofs"
    unfolding ii by blast
qed

theorem dof_to_grid_and_variable_inverse_witness:
  "wf_dm example_dm
   \<and> dof_to_grid_and_variable example_dm 4 = Inr (Subdomain E2, ''p'')
   \<and> grid_and_variable_to_dofs example_dm (Subdomain E2) ''p'' = Inr [3, 4]
   \<and> (\<exists>g var dofs. dof_to_grid_and_variable example_dm 4 = Inr (g, var)
              \<and> dict_contains (block_dof example_dm) (g, var)
              \<and> grid_and_variable_to_dofs example_dm g var = Inr dofs
              \<and> nat 4 \<in> set dofs)
   \<and> dof_to_grid_and_variable example_dm (- 1) = Inl ValueError
   \<and> dof_to_grid_and_variable example_dm 5 = Inl ValueError"
proof -
  have n: "num_dofs example_dm = 5" by (simp add: example_dm_eq num_dofs_def)
  have a: "dof_to_grid_and_variable example_dm 4 = Inr (Subdomain E2, ''p'')"
    by (simp add: example_dm_eq dof_to_grid_and_variable_def dof_start_def np_cumsum_def
        np_argmax_def inv_block_dof_def dict_get_def E1_def E2_def)
  have b: "grid_and_variable_to_dofs example_dm (Subdomain E2) ''p'' = Inr [3, 4]"
    by (simp add: example_dm_eq grid_and_variable_to_dofs_def dof_start_def np_cumsum_def
        dict_get_def index_list_def np_arange_def E1_def E2_def upt_rec)
  show ?thesis
    using dof_to_grid_and_variable_inverse[OF example_wf, of 4]
      dof_to_grid_and_variable_inverse[OF example_wf, of "- 1"]
      dof_to_grid_and_variable_inverse[OF example_wf, of 5] example_wf a b n
    by simp
qed

text \<open>
  C2. The claim: with a stored value for every registered block,
  \<open>get_variable_values\<close> returns the concatenation of the stored values in block
  order, and a missing value is a KeyError. The code unpacks the items of
  \<open>block_dof\<close> into \<open>grid, name\<close>, so \<open>grid\<close> is the key tuple and neither
  \<open>isinstance\<close> test holds: with at least one block registered the first pass reads
  the unbound local \<open>data\<close> and the call ends with an UnboundLocalError, whatever is
  stored.
\<close>

theorem get_variable_values_unbound:
  "block_dof dm \<noteq> [] \<longrightarrow> get_variable_values dm mdg None from_iterate = Inl UnboundLocalError"
proof
  assume "block_dof dm \<noteq> []"
  then obtain g var b rest where bd: "block_dof dm = ((g, var), b) # rest"
    by (cases "block_dof dm") auto
  show "get_variable_values dm mdg None from_iterate = Inl UnboundLocalError"
    by (simp add: get_variable_values_def block_dof_items_def bd get_values_item_tuple)
qed

theorem get_variable_values_unbound_witness:
  "block_dof example_dm \<noteq> []
   \<and> stored_value example_stored_mdg (Subdomain E1) ''p'' = Some [7, 7, 7]
   \<and> stored_value example_stored_mdg (Subdomain E2) ''p'' = Some [7, 7]
   \<and> get_variable_values example_dm example_stored_mdg None False = Inl UnboundLocalError"
proof -
  have ne: "block_dof example_dm \<noteq> []" by (simp add: example_dm_eq)
  have s1: "stored_value example_stored_mdg (Subdomain E1) ''p'' = Some [7, 7, 7]"
    by (simp add: stored_value_def example_stored_mdg_def grid_data_def E1_def numeral_3_eq_3)
  have s2: "stored_value example_stored_mdg (Subdomain E2) ''p'' = Some [7, 7]"
    by (simp add: stored_value_def example_stored_mdg_def grid_data_def E2_def numeral_2_eq_2)
  show ?thesis
    using get_variable_values_unbound[of example_dm example_stored_mdg False] ne s1 s2 by simp
qed

text \<open>
  C10. \<open>distribute_variable\<close> skips every grid-variable combination of its selection
  that is not a registered block: the call is the loop over the registered
  combinations alone; a selection with no registered combination returns the grid
  unchanged, whatever the vector and the flags; the dictionary of an entity with no
  registered combination in the selection is left as it was; and when overwriting the
  state from a vector that is long enough the call succeeds, stores the block of every
  registered combination of the selection and leaves every other stored value alone.
\<close>

theorem distribute_variable_skips_unregistered:
  "distribute_variable dm mdg values grids variables a t
     = for_loop (distribute_pair dm values a t)
         (filter (dict_contains (block_dof dm)) (selection dm grids variables)) mdg
   \<and> (list_all (\<lambda>p. \<not> dict_contains (block_dof dm) p) (selection dm grids variables)
        \<longrightarrow> distribute_variable dm mdg values grids variables a t = Inr mdg)
   \<and> (\<forall>mdg' g. distribute_variable dm mdg values grids variables a t = Inr mdg'
        \<and> list_all (\<lambda>p. fst p = g \<longrightarrow> \<not> dict_contains (block_dof dm) p) (selection dm grids variables)
        \<longrightarrow> grid_data mdg' g = grid_data mdg g)
   \<and> (wf_dm dm \<and> num_dofs dm \<le> length values \<longrightarrow>
        (\<exists>mdg'. distribute_variable dm mdg values grids variables False False = Inr mdg'
           \<and> (\<forall>g var. stored_value mdg' g var =
                 (if (g, var) \<in> set (selection dm grids variables) \<and> dict_contains (block_dof dm) (g, var)
                  then Some (block_slice dm values g var)
                  else stored_value mdg g var))))"
proof (intro conjI impI allI)
  let ?ps = "selection dm grids variables"
  show A: "distribute_variable dm mdg values grids variables a t
     = for_loop (distribute_pair dm values a t) (filter (dict_contains (block_dof dm)) ?ps) mdg"
    unfolding distribute_variable_def
    by (subst distribute_pair_guard) (rule for_loop_skip)
  {
    assume "list_all (\<lambda>p. \<not> dict_contains (block_dof dm) p) ?ps"
    then have "filter (dict_contains (block_dof dm)) ?ps = []"
      by (simp add: list_all_iff filter_empty_conv)
    then show "distribute_variable dm mdg values grids variables a t = Inr mdg"
      using A by simp
  }
  {
    fix mdg' g
    assume h: "distribute_variable dm mdg values grids variables a t = Inr mdg'
        \<and> list_all (\<lambda>p. fst p = g \<longrightarrow> \<not> dict_contains (block_dof dm) p) ?ps"
    then have l: "for_loop (distribute_pair dm values a t) ?ps mdg = Inr mdg'"
      by (simp add: distribute_variable_def)
    have "\<And>var. (g, var) \<in> set ?ps \<Longrightarrow> \<not> dict_contains (block_dof dm) (g, var)"
      using h by (auto simp: list_all_iff)
    from distribute_pairs_frame[OF l this] show "grid_data mdg' g = grid_data mdg g" .
  }
  {
    assume "wf_dm dm \<and> num_dofs dm \<le> length values"
    then show "\<exists>mdg'. distribute_variable dm mdg values grids variables False False = Inr mdg'
           \<and> (\<forall>g var. stored_value mdg' g var =
                 (if (g, var) \<in> set ?ps \<and> dict_contains (block_dof dm) (g, var)
                  then Some (block_slice dm values g var)
                  else stored_value mdg g var))"
      using distribute_pairs_overwrite[of dm "values" ?ps mdg]
      by (simp add: distribute_variable_def)
  }
qed

theorem distribute_variable_skips_unregistered_witness:
  "wf_dm example_dm \<and> num_dofs example_dm \<le> length [1, 2, 3, 4, 5 :: real]
   \<and> \<not> dict_contains (block_dof example_dm) (Subdomain unregistered_grid, ''p'')
   \<and> \<not> dict_contains (block_dof example_dm) (Subdomain E1, ''q'')
   \<and> distribute_variable example_dm example_mdg [] (Some [Subdomain unregistered_grid])
        (Some [''p'', ''q'']) True True = Inr example_mdg
   \<and> (\<exists>mdg'. distribute_variable example_dm example_mdg [1, 2, 3, 4, 5]
          (Some [Subdomain E1, Subdomain unregistered_grid, Subdomain E2]) (Some [''p'', ''q''])
          False False = Inr mdg'
        \<and> stored_value mdg' (Subdomain E1) ''p'' = Some [1, 2, 3]
        \<and> stored_value mdg' (Subdomain E2) ''p'' = Some [4, 5]
        \<and> stored_value mdg' (Subdomain E1) ''q'' = stored_value example_mdg (Subdomain E1) ''q''
        \<and> grid_data mdg' (Subdomain unregistered_grid) = grid_data example_mdg (Subdomain unregistered_grid))"
proof -
  let ?gs = "Some [Subdomain E1, Subdomain unregistered_grid, Subdomain E2]"
  let ?vs = "Some [''p'', ''q'']"
  let ?v = "[1, 2, 3, 4, 5 :: real]"
  have n: "num_dofs example_dm \<le> length ?v" by (simp add: example_dm_eq num_dofs_def)
  have u1: "\<not> dict_contains (block_dof example_dm) (Subdomain unregistered_grid, ''p'')"
    by (simp add: example_registered unregistered_grid_def E1_def E2_def)
  have u2: "\<not> dict_contains (block_dof example_dm) (Subdomain E1, ''q'')"
    by (simp add: example_registered)
  have sel: "selection example_dm ?gs ?vs =
      [(Subdomain E1, ''p''), (Subdomain E1, ''q''), (Subdomain unregistered_grid, ''p''),
       (Subdomain unregistered_grid, ''q''), (Subdomain E2, ''p''), (Subdomain E2, ''q'')]"
    by (simp add: selection_def select_grids_def select_variables_def)
  have sel0: "selection example_dm (Some [Subdomain unregistered_grid]) ?vs =
      [(Subdomain unregistered_grid, ''p''), (Subdomain unregistered_grid, ''q'')]"
    by (simp add: selection_def select_grids_def select_variables_def)
  note T0 = distribute_variable_skips_unregistered[of example_dm example_mdg "[]"
      "Some [Subdomain unregistered_grid]" ?vs True True]
  have none: "distribute_variable example_dm example_mdg [] (Some [Subdomain unregistered_grid])
        ?vs True True = Inr example_mdg"
  proof -
    have "list_all (\<lambda>p. \<not> dict_contains (block_dof example_dm) p)
            (selection example_dm (Some [Subdomain unregistered_grid]) ?vs)"
      unfolding sel0 by (simp add: example_registered unregistered_grid_def E1_def E2_def)
    with T0 show ?thesis by blast
  qed
  note T = distribute_variable_skips_unregistered[of example_dm example_mdg ?v ?gs ?vs False False]
  from T example_wf n obtain mdg' where
    d: "distribute_variable example_dm example_mdg ?v ?gs ?vs False False = Inr mdg'"
    and st: "\<forall>g var. stored_value mdg' g var =
                 (if (g, var) \<in> set (selection example_dm ?gs ?vs)
                     \<and> dict_contains (block_dof example_dm) (g, var)
                  then Some (block_slice example_dm ?v g var)
                  else stored_value example_mdg g var)" by blast
  have fr: "grid_data mdg' (Subdomain unregistered_grid) = grid_data example_mdg (Subdomain unregistered_grid)"
  proof -
    have "list_all (\<lambda>p. fst p = Subdomain unregistered_grid \<longrightarrow> \<not> dict_contains (block_dof example_dm) p)
            (selection example_dm ?gs ?vs)"
      unfolding sel by (simp add: example_registered unregistered_grid_def E1_def E2_def)
    with T d show ?thesis by blast
  qed
  have s1: "stored_value mdg' (Subdomain E1) ''p'' = Some [1, 2, 3]"
    using st by (simp add: sel example_registered example_slices)
  have s2: "stored_value mdg' (Subdomain E2) ''p'' = Some [4, 5]"
    using st by (simp add: sel example_registered example_slices)
  have s3: "stored_value mdg' (Subdomain E1) ''q'' = stored_value example_mdg (Subdomain E1) ''q''"
    using st by (simp add: sel example_registered)
  show ?thesis using example_wf n u1 u2 none d s1 s2 s3 fr by blast
qed

text \<open>
  C4. For two \<open>Ad_array\<close>s \<open>a\<close> and \<open>b\<close> whose values are arrays of floats of
  equal size and whose Jacobians are sparse matrices with the same number of columns,
  \<open>a * b\<close> has the elementwise product of the values as value and
  \<open>diag(b.val) * a.jac + diag(a.val) * b.jac\<close> as Jacobian (entry
  \<open>(r, c)\<close> is \<open>b.val[r] * a.jac[r, c] + a.val[r] * b.jac[r, c]\<close>); for a seeded
  \<open>x\<close> with the identity as Jacobian, the Jacobian of \<open>x * x\<close> is
  \<open>diag(2 * x.val)\<close>. Values that are arrays of integers, whose products numpy
  computes modulo \<open>2^64\<close>, are outside the model.
\<close>

theorem Ad_array_mul_product_rule:
  assumes "ad_view h a = Some (xs, A)" and "ad_view h b = Some (ys, B)"
    and "length xs = length ys" and "nrows A = length xs" and "nrows B = length ys"
    and "ncols A = ncols B"
  shows "\<exists>c h' C D1 D2. Ad_array_mul a b h = Inr (c, h')
           \<and> ad_view h' c = Some (map2 (\<lambda>x y. x * y) xs ys, C)
           \<and> mat_mul (sps_diags ys) A = Inr D1 \<and> mat_mul (sps_diags xs) B = Inr D2
           \<and> mat_add D1 D2 = Inr C
           \<and> nrows C = length xs \<and> ncols C = ncols A
           \<and> (\<forall>r<length xs. \<forall>c<ncols A.
                 mat_entry C r c = ys ! r * mat_entry A r c + xs ! r * mat_entry B r c)
           \<and> (a = b \<and> A = sps_diags (np_ones (length xs))
                 \<longrightarrow> C = sps_diags (map (\<lambda>x. 2 * x) xs))"
proof -
  from Ad_array_mul_exec[OF assms] obtain c h' where
    r: "Ad_array_mul a b h = Inr (c, h')"
       "ad_view h' c = Some (map2 (\<lambda>x y. x * y) xs ys, product_rule_jac xs A ys B)" by blast
  have m1: "mat_mul (sps_diags ys) A = Inr (row_scale ys A)"
    by (rule mat_mul_diags) (simp add: assms)
  have m2: "mat_mul (sps_diags xs) B = Inr (row_scale xs B)"
    by (rule mat_mul_diags) (simp add: assms)
  note m3 = mat_add_row_scale[OF assms(3,6)]
  have e: "\<forall>r<length xs. \<forall>c<ncols A.
      mat_entry (product_rule_jac xs A ys B) r c = ys ! r * mat_entry A r c + xs ! r * mat_entry B r c"
    by (simp add: product_rule_jac_def mat_entry_Matrix)
  have sq: "a = b \<and> A = sps_diags (np_ones (length xs))
              \<longrightarrow> product_rule_jac xs A ys B = sps_diags (map (\<lambda>x. 2 * x) xs)"
  proof
    assume h: "a = b \<and> A = sps_diags (np_ones (length xs))"
    with assms(1,2) have "ys = xs" "B = A" by auto
    with h show "product_rule_jac xs A ys B = sps_diags (map (\<lambda>x. 2 * x) xs)"
      using product_rule_square[of xs] by simp
  qed
  have sh: "nrows (product_rule_jac xs A ys B) = length xs" "ncols (product_rule_jac xs A ys B) = ncols A"
    by (simp_all add: product_rule_jac_def)
  show ?thesis using r m1 m2 m3 e sq sh by blast
qed

theorem Ad_array_mul_product_rule_witness:
  "ad_view square_heap 2 = Some ([3, 4], sps_diags (np_ones 2))
   \<and> (\<exists>c h' C. Ad_array_mul 2 2 square_heap = Inr (c, h')
         \<and> ad_view h' c = Some ([9, 16], C)
         \<and> C = Matrix 2 2 [[6, 0], [0, 8]])"
proof -
  have v: "ad_view square_heap 2 = Some ([3, 4], sps_diags (np_ones 2))"
    by (simp add: ad_view_def square_heap_def)
  have o: "np_ones 2 = [1, 1]" by (simp add: np_ones_def numeral_2_eq_2)
  have d: "sps_diags (map (\<lambda>x. 2 * x) [3, 4]) = Matrix 2 2 [[6, 0], [0, 8]]"
    by (simp add: sps_diags_def upt_rec)
  have h1: "length [3, 4 :: real] = length [3, 4 :: real]" by simp
  have h2: "nrows (sps_diags (np_ones 2)) = length [3, 4 :: real]"
    by (simp add: sps_diags_def np_ones_def)
  from Ad_array_mul_product_rule[OF v v h1 h2 h2 refl]
  obtain c h' C where
    r: "Ad_array_mul 2 2 square_heap = Inr (c, h')"
       "ad_view h' c = Some (map2 (\<lambda>x y. x * y) [3, 4] [3, 4], C)"
    and sq: "(2 :: nat) = 2 \<and> sps_diags (np_ones 2) = sps_diags (np_ones (length [3, 4 :: real]))
               \<longrightarrow> C = sps_diags (map (\<lambda>x. 2 * x) [3, 4])"
    by blast
  have "length [3, 4 :: real] = 2" by simp
  then have "sps_diags (np_ones 2) = sps_diags (np_ones (length [3, 4 :: real]))" by (simp only:)
  with sq have C: "C = Matrix 2 2 [[6, 0], [0, 8]]" using d by simp
  have "ad_view h' c = Some ([9, 16], C)" using r(2) by simp
  then show ?thesis using v r(1) C by blast
qed

text \<open>
  C8, as amended. Seeding the list of the one-entry vectors [3] and [4] gives a first
  \<open>Ad_array\<close> \<open>x\<close> with value [3] and Jacobian [[1, 0]], one column for every
  entry of the two variables; \<open>y = x ** 2\<close> has value [9] and Jacobian [[6, 0]].
\<close>

theorem seed_and_square_scenario:
  "initAdArrays 2 seed_heap = Inr (8, seeded_heap)
   \<and> seeded_heap ! 8 = PyList [5, 7]
   \<and> ad_view seeded_heap 5 = Some ([3], Matrix 1 2 [[1, 0]])
   \<and> (\<exists>y h'. Ad_array_pow 5 3 seeded_heap = Inr (y, h')
         \<and> ad_view h' y = Some ([9], Matrix 1 2 [[6, 0]]))"
proof -
  have l: "seeded_heap ! 8 = PyList [5, 7]" by (simp add: seeded_heap_def seed_heap_def)
  have p: "\<exists>y h'. Ad_array_pow 5 3 seeded_heap = Inr (y, h')
         \<and> ad_view h' y = Some ([9], Matrix 1 2 [[6, 0]])"
    by (simp add: Ad_array_pow_def seeded_heap_def seed_heap_def exec prim_defs obj_defs
        float_pow_3 ad_view_def upt_0_2)
  show ?thesis using seed_heap_eval seed_heap_first l p by blast
qed

text \<open>
  C8, as stated, does not hold: the Jacobian of the first seeded variable is not the
  one-by-one matrix [[1]]. (On the list of the Python integers 3 and 4 the seeding
  raises an AttributeError, since an integer has no \<open>size\<close>.)
\<close>

theorem seed_jacobian_not_one_by_one:
  "\<not> (\<exists>r h ads xs. initAdArrays 2 seed_heap = Inr (r, h) \<and> h ! r = PyList ads
         \<and> ad_view h (hd ads) = Some (xs, Matrix 1 1 [[1]]))
   \<and> initAdArrays 2 int_seed_heap = Inl AttributeError"
proof -
  have "initAdArrays 2 int_seed_heap = Inl AttributeError"
    unfolding int_seed_heap_def by code_simp
  moreover have "\<not> (\<exists>r h ads xs. initAdArrays 2 seed_heap = Inr (r, h) \<and> h ! r = PyList ads
         \<and> ad_view h (hd ads) = Some (xs, Matrix 1 1 [[1]]))"
    by (simp add: seed_heap_eval) (simp add: seeded_heap_def seed_heap_def ad_view_def)
  ultimately show ?thesis by blast
qed

text \<open>
  C3. \<open>initAdArrays\<close> applied to a list of numeric vectors returns a list with one
  \<open>Ad_array\<close> per vector, whose value is that vector and whose Jacobian has one row
  per entry of the vector, one column per entry of the whole list and is zero except
  for the identity in the columns of its own block; applied to a single vector that is
  not in a list it returns one \<open>Ad_array\<close> with the identity matrix of the vector's
  size as Jacobian.
\<close>

theorem initAdArrays_block_identity:
  "(variables < length h \<and> h ! variables = PyList vs \<and> list_all (\<lambda>a. a < length h) vs
      \<and> map (\<lambda>a. h ! a) vs = map NdArray xss
    \<longrightarrow> (\<exists>r h' ads. initAdArrays variables h = Inr (r, h') \<and> r < length h'
           \<and> h' ! r = PyList ads \<and> length ads = length xss
           \<and> (\<forall>i<length xss. \<exists>J. ad_view h' (ads ! i) = Some (xss ! i, J)
                 \<and> nrows J = length (xss ! i) \<and> ncols J = sum_list (map length xss)
                 \<and> (\<forall>r<length (xss ! i). \<forall>c<sum_list (map length xss).
                       mat_entry J r c
                         = (if c = sum_list (map length (take i xss)) + r then 1 else 0)))))
   \<and> (variables < length h \<and> h ! variables = NdArray xs
    \<longrightarrow> (\<exists>r h' J. initAdArrays variables h = Inr (r, h')
           \<and> ad_view h' r = Some (xs, J)
           \<and> nrows J = length xs \<and> ncols J = length xs
           \<and> (\<forall>r<length xs. \<forall>c<length xs. mat_entry J r c = (if r = c then 1 else 0))))"
proof (intro conjI impI)
  assume a: "variables < length h \<and> h ! variables = NdArray xs"
  let ?J = "sps_diags (np_ones (length xs))"
  have run: "initAdArrays variables h
               = Inr (Suc (length h), h @ [SpMatrix ?J, Ad_array variables (length h)])"
    using a by (simp add: initAdArrays_def exec size_of_def new_Ad_array_def)
  have view: "ad_view (h @ [SpMatrix ?J, Ad_array variables (length h)]) (Suc (length h)) = Some (xs, ?J)"
    using a by (simp add: ad_view_def nth_append)
  have sh: "nrows ?J = length xs" "ncols ?J = length xs" by (simp_all add: sps_diags_def np_ones_def)
  have en: "\<forall>r<length xs. \<forall>c<length xs. mat_entry ?J r c = (if r = c then 1 else 0)"
    by (simp add: mat_entry_identity)
  show "\<exists>r h' J. initAdArrays variables h = Inr (r, h')
           \<and> ad_view h' r = Some (xs, J)
           \<and> nrows J = length xs \<and> ncols J = length xs
           \<and> (\<forall>r<length xs. \<forall>c<length xs. mat_entry J r c = (if r = c then 1 else 0))"
    using run view sh en by blast
next
  assume a: "variables < length h \<and> h ! variables = PyList vs \<and> list_all (\<lambda>a. a < length h) vs
      \<and> map (\<lambda>a. h ! a) vs = map NdArray xss"
  let ?nv = "map length xss"
  let ?ivs = "zip [0..<length vs] vs"
  have lens: "length vs = length xss" using a by (metis length_map)
  have ok: "list_all (\<lambda>iv. fst iv < length ?nv) ?ivs"
    using lens by (auto simp: list_all_iff dest: set_zip_leftD)
  from for_each_seed[OF ok, of h] obtain ads h1 where
    f: "for_each (seed_variable ?nv) ?ivs h = Inr (ads, h1)" "length ads = length ?ivs"
       "take (length h) h1 = h"
    and each: "\<forall>k<length ?ivs. \<exists>j. ads ! k < length h1 \<and> j < length h1
                  \<and> h1 ! (ads ! k) = Ad_array (snd (?ivs ! k)) j
                  \<and> h1 ! j = SpMatrix (block_identity ?nv (fst (?ivs ! k)))" by blast
  let ?h' = "h1 @ [PyList ads]"
  have run: "initAdArrays variables h = Inr (length h1, ?h')"
    using a f(1) by (simp add: initAdArrays_def exec sizes_of_arrays)
  have per: "\<forall>i<length xss. \<exists>J. ad_view ?h' (ads ! i) = Some (xss ! i, J)
                 \<and> nrows J = length (xss ! i) \<and> ncols J = sum_list ?nv
                 \<and> (\<forall>r<length (xss ! i). \<forall>c<sum_list ?nv.
                       mat_entry J r c = (if c = sum_list (map length (take i xss)) + r then 1 else 0))"
  proof (intro allI impI)
    fix i assume i: "i < length xss"
    then have k: "i < length ?ivs" using lens by simp
    from each k obtain j where
      j: "ads ! i < length h1" "j < length h1" "h1 ! (ads ! i) = Ad_array (snd (?ivs ! i)) j"
         "h1 ! j = SpMatrix (block_identity ?nv (fst (?ivs ! i)))" by blast
    have zi: "?ivs ! i = (i, vs ! i)" using i lens by simp
    have vi: "vs ! i < length h" using a i lens by (simp add: list_all_length)
    have "h ! (vs ! i) = map (\<lambda>a. h ! a) vs ! i" using i lens by simp
    also have "\<dots> = NdArray (xss ! i)" using a i by simp
    finally have hv: "h ! (vs ! i) = NdArray (xss ! i)" .
    have h1v: "h1 ! (vs ! i) = NdArray (xss ! i)"
      using prefix_nth[OF f(3) vi] hv by simp
    have lh: "length h \<le> length h1" by (rule prefix_length[OF f(3)])
    have view: "ad_view ?h' (ads ! i) = Some (xss ! i, block_identity ?nv i)"
      using j zi h1v vi lh by (intro ad_viewI[where v = "vs ! i" and j = j]) (simp_all add: nth_append)
    have en: "\<forall>r<length (xss ! i). \<forall>c<sum_list ?nv.
                mat_entry (block_identity ?nv i) r c
                  = (if c = sum_list (map length (take i xss)) + r then 1 else 0)"
      using i by (simp add: block_identity_entry take_map)
    have sh: "nrows (block_identity ?nv i) = length (xss ! i)" "ncols (block_identity ?nv i) = sum_list ?nv"
      using i by (simp_all add: block_identity_def)
    show "\<exists>J. ad_view ?h' (ads ! i) = Some (xss ! i, J)
                 \<and> nrows J = length (xss ! i) \<and> ncols J = sum_list ?nv
                 \<and> (\<forall>r<length (xss ! i). \<forall>c<sum_list ?nv.
                       mat_entry J r c = (if c = sum_list (map length (take i xss)) + r then 1 else 0))"
      using view en sh by blast
  qed
  show "\<exists>r h' ads. initAdArrays variables h = Inr (r, h') \<and> r < length h'
           \<and> h' ! r = PyList ads \<and> length ads = length xss
           \<and> (\<forall>i<length xss. \<exists>J. ad_view h' (ads ! i) = Some (xss ! i, J)
                 \<and> nrows J = length (xss ! i) \<and> ncols J = sum_list (map length xss)
                 \<and> (\<forall>r<length (xss ! i). \<forall>c<sum_list (map length xss).
                       mat_entry J r c
                         = (if c = sum_list (map length (take i xss)) + r then 1 else 0)))"
    using run per f(2) lens by (intro exI[of _ "length h1"] exI[of _ ?h'] exI[of _ ads]) simp
qed

theorem initAdArrays_block_identity_witness:
  "(2 < length seed_heap \<and> seed_heap ! 2 = PyList [0, 1] \<and> list_all (\<lambda>a. a < length seed_heap) [0, 1]
      \<and> map (\<lambda>a. seed_heap ! a) [0, 1] = map NdArray [[3], [4]])
   \<and> (\<exists>r h' ads. initAdArrays 2 seed_heap = Inr (r, h') \<and> h' ! r = PyList ads \<and> length ads = 2
         \<and> (\<exists>J. ad_view h' (ads ! 1) = Some ([4], J) \<and> nrows J = 1 \<and> ncols J = 2
               \<and> mat_entry J 0 0 = 0 \<and> mat_entry J 0 1 = 1))
   \<and> (0 < length square_heap \<and> square_heap ! 0 = NdArray [3, 4])
   \<and> (\<exists>r h' J. initAdArrays 0 square_heap = Inr (r, h') \<and> ad_view h' r = Some ([3, 4], J)
         \<and> mat_entry J 0 0 = 1 \<and> mat_entry J 0 1 = 0 \<and> mat_entry J 1 0 = 0 \<and> mat_entry J 1 1 = 1)"
proof -
  have p1: "2 < length seed_heap \<and> seed_heap ! 2 = PyList [0, 1]
      \<and> list_all (\<lambda>a. a < length seed_heap) [0, 1]
      \<and> map (\<lambda>a. seed_heap ! a) [0, 1] = map NdArray [[3], [4]]"
    by (simp add: seed_heap_def)
  have p2: "0 < length square_heap \<and> square_heap ! 0 = NdArray [3, 4]"
    by (simp add: square_heap_def)
  from initAdArrays_block_identity[of 2 seed_heap "[0, 1]" "[[3], [4]]" "[]"] p1
  obtain r h' ads where
    l: "initAdArrays 2 seed_heap = Inr (r, h')" "h' ! r = PyList ads" "length ads = length [[3], [4 :: real]]"
    and e: "\<forall>i<length [[3], [4 :: real]]. \<exists>J. ad_view h' (ads ! i) = Some ([[3], [4]] ! i, J)
                 \<and> nrows J = length ([[3], [4 :: real]] ! i)
                 \<and> ncols J = sum_list (map length [[3], [4 :: real]])
                 \<and> (\<forall>r<length ([[3], [4 :: real]] ! i). \<forall>c<sum_list (map length [[3], [4 :: real]]).
                       mat_entry J r c
                         = (if c = sum_list (map length (take i [[3], [4 :: real]])) + r then 1 else 0))"
    by blast
  from e[rule_format, of 1] obtain J where
    J: "ad_view h' (ads ! 1) = Some ([4], J)" "nrows J = 1" "ncols J = 2"
       "\<forall>r<1. \<forall>c<2. mat_entry J r c = (if c = 1 + r then 1 else (0::real))"
    by auto
  have J0: "mat_entry J 0 0 = 0" using J(4)[rule_format, of 0 0] by simp
  have J1: "mat_entry J 0 1 = 1" using J(4)[rule_format, of 0 1] by simp
  from initAdArrays_block_identity[of 0 square_heap "[]" "[]" "[3, 4]"] p2
  obtain r2 h2 K where
    s: "initAdArrays 0 square_heap = Inr (r2, h2)" "ad_view h2 r2 = Some ([3, 4], K)"
    and k: "\<forall>r<length [3, 4 :: real]. \<forall>c<length [3, 4 :: real]. mat_entry K r c = (if r = c then 1 else 0)"
    by blast
  have K: "mat_entry K 0 0 = 1" "mat_entry K 0 1 = 0" "mat_entry K 1 0 = 0" "mat_entry K 1 1 = 1"
    using k[rule_format, of 0 0] k[rule_format, of 0 1] k[rule_format, of 1 0] k[rule_format, of 1 1]
    by simp_all
  have la: "length ads = 2" using l(3) by simp
  show ?thesis using p1 p2 l(1,2) la J(1,2,3) J0 J1 s K by blast
qed

text \<open>
  C7, as amended. \<open>copy()\<close> returns a new \<open>Ad_array\<close> and leaves every object
  that existed untouched. Each of its two fields is what the \<open>copy\<close> method of the
  original's field returns, and the original's object itself when that is a number,
  which has no such method: a numeric array and a sparse matrix are new objects with
  the same entries, and a Jacobian stored as an array of matrices is a new array that
  holds the same matrices.
\<close>

theorem Ad_array_copy_one_level:
  assumes "ad_at h a v j"
  shows "\<exists>b h' v' j'. Ad_array_copy a h = Inr (b, h') \<and> take (length h) h' = h
           \<and> length h \<le> b \<and> b < length h' \<and> h' ! b = Ad_array v' j'
           \<and> copied_field h h' v v' \<and> copied_field h h' j j'"
proof -
  have a: "a < length h" "h ! a = Ad_array v j" "v < length h" "j < length h"
    and kv: "value_kind (h ! v)" and kj: "jacobian_kind (h ! j)"
    using assms by (simp_all add: ad_at_def)
  show ?thesis
  proof (cases "h ! v")
    case (NdArray xs)
    then show ?thesis using a kj
      by (cases "h ! j")
         (simp_all add: Ad_array_copy_def exec prim_defs nth_append copied_field_def is_number_def
            jacobian_kind_def)
  next
    case (IntArray ks)
    then show ?thesis using a kj
      by (cases "h ! j")
         (simp_all add: Ad_array_copy_def exec prim_defs nth_append copied_field_def is_number_def
            jacobian_kind_def)
  next
    case (PyFloat r)
    then show ?thesis using a kj
      by (cases "h ! j")
         (simp_all add: Ad_array_copy_def exec prim_defs nth_append copied_field_def is_number_def
            jacobian_kind_def)
  next
    case (PyInt i)
    then show ?thesis using a kj
      by (cases "h ! j")
         (simp_all add: Ad_array_copy_def exec prim_defs nth_append copied_field_def is_number_def
            jacobian_kind_def)
  qed (use kv in \<open>simp_all add: value_kind_def\<close>)
qed

theorem Ad_array_copy_one_level_witness:
  "ad_at legacy_heap 3 0 2
   \<and> (\<exists>b h' v' j'. Ad_array_copy 3 legacy_heap = Inr (b, h') \<and> take (length legacy_heap) h' = legacy_heap
         \<and> length legacy_heap \<le> b \<and> h' ! b = Ad_array v' j'
         \<and> 4 \<le> v' \<and> h' ! v' = NdArray [5] \<and> 4 \<le> j' \<and> h' ! j' = ObjArray [1])"
proof -
  have a: "ad_at legacy_heap 3 0 2"
    by (simp add: ad_at_def legacy_heap_def value_kind_def jacobian_kind_def)
  from Ad_array_copy_one_level[OF a] obtain b h' v' j' where
    r: "Ad_array_copy 3 legacy_heap = Inr (b, h')" "take (length legacy_heap) h' = legacy_heap"
       "length legacy_heap \<le> b" "h' ! b = Ad_array v' j'"
       "copied_field legacy_heap h' 0 v'" "copied_field legacy_heap h' 2 j'" by blast
  have v: "4 \<le> v' \<and> h' ! v' = NdArray [5]"
    using r(5) by (simp add: copied_field_def legacy_heap_def is_number_def)
  have j: "4 \<le> j' \<and> h' ! j' = ObjArray [1]"
    using r(6) by (simp add: copied_field_def legacy_heap_def is_number_def)
  show ?thesis using a r(1-4) v j by blast
qed

text \<open>
  C7, as stated, does not hold for a Jacobian stored as an array of matrices: the
  matrix in the copy's array is the very object in the original's array (address 1,
  which is not a new address), so overwriting it through the copy changes the component
  the original holds.
\<close>

theorem Ad_array_copy_shares_components:
  "\<exists>b h1 v' j' h2.
      Ad_array_copy 3 legacy_heap = Inr (b, h1) \<and> h1 ! b = Ad_array v' j'
      \<and> h1 ! j' = ObjArray [1] \<and> \<not> length legacy_heap \<le> 1
      \<and> h1 ! 3 = Ad_array 0 2 \<and> h1 ! 2 = ObjArray [1] \<and> h1 ! 1 = SpMatrix (Matrix 1 1 [[1]])
      \<and> set_obj 1 (SpMatrix (Matrix 1 1 [[7]])) h1 = Inr ((), h2)
      \<and> h2 ! 3 = Ad_array 0 2 \<and> h2 ! 2 = ObjArray [1] \<and> h2 ! 1 = SpMatrix (Matrix 1 1 [[7]])"
  by (simp add: Ad_array_copy_def legacy_heap_def exec prim_defs)

text \<open>
  C5. For \<open>maximum(a, b)\<close> with \<open>a\<close> an \<open>Ad_array\<close> and \<open>b\<close> an \<open>Ad_array\<close> or a
  plain array of the same length, the value is the elementwise maximum, and row \<open>r\<close>
  of the Jacobian is row \<open>r\<close> of the Jacobian of \<open>b\<close> (a row of zeros when \<open>b\<close> is
  a plain array) where \<open>b\<close>'s value is greater than or equal to \<open>a\<close>'s, and row \<open>r\<close>
  of the Jacobian of \<open>a\<close> elsewhere.
\<close>

theorem maximum_tie_break:
  assumes "ad_view h a = Some (xs, A)" and "length (entries A) = nrows A"
    and "nrows A = length xs" and "length xs = length ys"
  shows "(ad_view h b = Some (ys, B) \<and> nrows B = length ys \<and> ncols A = ncols B
          \<longrightarrow> (\<exists>c h' C. maximum a b h = Inr (c, h')
                 \<and> ad_view h' c = Some (map2 max xs ys, C)
                 \<and> nrows C = length xs \<and> ncols C = ncols A
                 \<and> (\<forall>r<length xs. entries C ! r
                       = (if ys ! r \<ge> xs ! r then entries B ! r else entries A ! r))))
       \<and> (b < length h \<and> h ! b = NdArray ys
          \<longrightarrow> (\<exists>c h' C. maximum a b h = Inr (c, h')
                 \<and> ad_view h' c = Some (map2 max xs ys, C)
                 \<and> nrows C = length xs \<and> ncols C = ncols A
                 \<and> (\<forall>r<length xs. entries C ! r
                       = (if ys ! r \<ge> xs ! r then replicate (ncols A) 0 else entries A ! r))))"
proof (intro conjI impI)
  let ?inds = "map2 (\<lambda>y x. y \<ge> x) ys xs"
  have ind: "\<And>r. r < length xs \<Longrightarrow> ?inds ! r = (ys ! r \<ge> xs ! r)"
    using assms(4) by simp
  {
    assume b: "ad_view h b = Some (ys, B) \<and> nrows B = length ys \<and> ncols A = ncols B"
    from maximum_two_ad[OF assms(1) _ assms(4,2,3)] b obtain c h' where
      r: "maximum a b h = Inr (c, h')"
         "ad_view h' c = Some (map2 max xs ys, select_rows ?inds A B)" by blast
    have rows: "\<forall>r<length xs. entries (select_rows ?inds A B) ! r
                       = (if ys ! r \<ge> xs ! r then entries B ! r else entries A ! r)"
      using assms(3) by (simp add: select_rows_row ind)
    have sh: "nrows (select_rows ?inds A B) = length xs" "ncols (select_rows ?inds A B) = ncols A"
      using assms(3) by (simp_all add: select_rows_def)
    show "\<exists>c h' C. maximum a b h = Inr (c, h')
                 \<and> ad_view h' c = Some (map2 max xs ys, C)
                 \<and> nrows C = length xs \<and> ncols C = ncols A
                 \<and> (\<forall>r<length xs. entries C ! r
                       = (if ys ! r \<ge> xs ! r then entries B ! r else entries A ! r))"
      using r rows sh by blast
  }
  {
    assume b: "b < length h \<and> h ! b = NdArray ys"
    let ?Z = "sps_zeros (nrows A) (ncols A)"
    from maximum_ad_array[OF assms(1) _ _ assms(4,2,3)] b obtain c h' where
      r: "maximum a b h = Inr (c, h')"
         "ad_view h' c = Some (map2 max xs ys, select_rows ?inds A ?Z)" by blast
    have z: "\<And>r. r < length xs \<Longrightarrow> entries ?Z ! r = replicate (ncols A) 0"
      using assms(3) by (simp add: sps_zeros_def)
    have rows: "\<forall>r<length xs. entries (select_rows ?inds A ?Z) ! r
                       = (if ys ! r \<ge> xs ! r then replicate (ncols A) 0 else entries A ! r)"
    proof (intro allI impI)
      fix r assume r: "r < length xs"
      then have "r < nrows A" using assms(3) by simp
      from select_rows_row[OF this]
      have "entries (select_rows ?inds A ?Z) ! r = (if ?inds ! r then entries ?Z ! r else entries A ! r)" .
      then show "entries (select_rows ?inds A ?Z) ! r
                       = (if ys ! r \<ge> xs ! r then replicate (ncols A) 0 else entries A ! r)"
        by (simp only: ind[OF r] z[OF r])
    qed
    have sh: "nrows (select_rows ?inds A ?Z) = length xs" "ncols (select_rows ?inds A ?Z) = ncols A"
      using assms(3) by (simp_all add: select_rows_def)
    show "\<exists>c h' C. maximum a b h = Inr (c, h')
                 \<and> ad_view h' c = Some (map2 max xs ys, C)
                 \<and> nrows C = length xs \<and> ncols C = ncols A
                 \<and> (\<forall>r<length xs. entries C ! r
                       = (if ys ! r \<ge> xs ! r then replicate (ncols A) 0 else entries A ! r))"
      using r rows sh by blast
  }
qed

theorem maximum_tie_break_witness:
  "ad_view max_heap 2 = Some ([1, 5], Matrix 2 4 [[1, 0, 0, 0], [0, 1, 0, 0]])
   \<and> ad_view max_heap 5 = Some ([1, 2], Matrix 2 4 [[0, 0, 1, 0], [0, 0, 0, 1]])
   \<and> (\<exists>c h' C. maximum 2 5 max_heap = Inr (c, h') \<and> ad_view h' c = Some ([1, 5], C)
         \<and> entries C ! 0 = [0, 0, 1, 0] \<and> entries C ! 1 = [0, 1, 0, 0])
   \<and> max_heap ! 6 = NdArray [7, 0]
   \<and> (\<exists>c h' C. maximum 2 6 max_heap = Inr (c, h') \<and> ad_view h' c = Some ([7, 5], C)
         \<and> entries C ! 0 = [0, 0, 0, 0] \<and> entries C ! 1 = [0, 1, 0, 0])"
proof -
  let ?A = "Matrix 2 4 [[1, 0, 0, 0], [0, 1, 0, 0 :: real]]"
  let ?B = "Matrix 2 4 [[0, 0, 1, 0], [0, 0, 0, 1 :: real]]"
  have va: "ad_view max_heap 2 = Some ([1, 5], ?A)" by (simp add: ad_view_def max_heap_def)
  have vb: "ad_view max_heap 5 = Some ([1, 2], ?B)" by (simp add: ad_view_def max_heap_def)
  have p: "max_heap ! 6 = NdArray [7, 0]" "6 < length max_heap" by (simp_all add: max_heap_def)
  have h2: "length (entries ?A) = nrows ?A" and h3: "nrows ?A = length [1, 5 :: real]"
    and h4: "length [1, 5 :: real] = length [1, 2 :: real]"
    and h4': "length [1, 5 :: real] = length [7, 0 :: real]" by simp_all
  from maximum_tie_break[OF va h2 h3 h4, of 5 ?B] vb obtain c h' C where
    r: "maximum 2 5 max_heap = Inr (c, h')" "ad_view h' c = Some (map2 max [1, 5] [1, 2], C)"
       "\<forall>r<length [1, 5 :: real]. entries C ! r
           = (if [1, 2] ! r \<ge> [1, 5 :: real] ! r then entries ?B ! r else entries ?A ! r)"
    by auto
  have c0: "entries C ! 0 = [0, 0, 1, 0]" using r(3)[rule_format, of 0] by simp
  have c1: "entries C ! 1 = [0, 1, 0, 0]" using r(3)[rule_format, of 1] by simp
  have v1: "ad_view h' c = Some ([1, 5], C)" using r(2) by simp
  from maximum_tie_break[OF va h2 h3 h4', of 6 ?B] p obtain d h2 D where
    s: "maximum 2 6 max_heap = Inr (d, h2)" "ad_view h2 d = Some (map2 max [1, 5] [7, 0], D)"
       "\<forall>r<length [1, 5 :: real]. entries D ! r
           = (if [7, 0] ! r \<ge> [1, 5 :: real] ! r then replicate (ncols ?A) 0 else entries ?A ! r)"
    by auto
  have d0: "entries D ! 0 = [0, 0, 0, 0]" using s(3)[rule_format, of 0] by (simp add: numeral_Bit0)
  have d1: "entries D ! 1 = [0, 1, 0, 0]" using s(3)[rule_format, of 1] by simp
  have v2: "ad_view h2 d = Some ([7, 5], D)" using s(2) by simp
  show ?thesis using va vb p(1) r(1) v1 c0 c1 s(1) v2 d0 d1 by blast
qed

text \<open>
  C9. Every arithmetic operator of \<open>Ad_array\<close> (\<open>+\<close>, \<open>-\<close>, \<open>*\<close>, \<open>**\<close>, \<open>/\<close>,
  their reflected forms and the unary minus) and every function of the library (the
  class \<open>RegularizedHeaviside\<close>, which takes its Jacobian from a function supplied by
  the caller, is not among them), when it returns, leaves every object that existed
  before the call as it was, so each operand holds its prior value and Jacobian; the
  result is a new object, and when it is an \<open>Ad_array\<close> its value and its Jacobian
  are new objects as well, hence none of them is the value or the Jacobian of an
  operand.
\<close>

theorem operators_leave_operands_unchanged:
  assumes "run_call c h = Inr (r, h')"
  shows "take (length h) h' = h \<and> length h \<le> r \<and> r < length h'
           \<and> (\<forall>v j. h' ! r = Ad_array v j \<longrightarrow> length h \<le> v \<and> length h \<le> j)"
proof -
  have "safe (length h) (run_call c)" by (rule safe_run_call)
  with assms have "take (length h) h' = take (length h) h" and "fresh_at (length h) r h'"
    unfolding safe_def by blast+
  then show ?thesis by (simp add: fresh_at_def)
qed

theorem operators_leave_operands_unchanged_witness:
  "(\<exists>c h'. run_call (Call_sub 2 5) operand_heap = Inr (c, h')
       \<and> ad_view h' c = Some ([3], Matrix 1 1 [[- 2]])
       \<and> length operand_heap \<le> c
       \<and> ad_view h' 2 = Some ([5], Matrix 1 1 [[1]])
       \<and> ad_view h' 5 = Some ([2], Matrix 1 1 [[3]]))
   \<and> (\<exists>c h'. run_call (Call_neg 2) operand_heap = Inr (c, h')
       \<and> ad_view h' c = Some ([- 5], Matrix 1 1 [[- 1]])
       \<and> length operand_heap \<le> c
       \<and> ad_view h' 2 = Some ([5], Matrix 1 1 [[1]]))"
proof -
  have a: "ad_view operand_heap 2 = Some ([5], Matrix 1 1 [[1]])"
    and b: "ad_view operand_heap 5 = Some ([2], Matrix 1 1 [[3]])"
    by (simp_all add: ad_view_def operand_heap_def)
  from operand_heap_sub obtain c h' where
    s: "run_call (Call_sub 2 5) operand_heap = Inr (c, h')"
       "ad_view h' c = Some ([3], Matrix 1 1 [[- 2]])" by blast
  from operators_leave_operands_unchanged[OF s(1)]
  have fs: "take (length operand_heap) h' = operand_heap" "length operand_heap \<le> c" by simp_all
  from operand_heap_neg obtain d k' where
    n: "run_call (Call_neg 2) operand_heap = Inr (d, k')"
       "ad_view k' d = Some ([- 5], Matrix 1 1 [[- 1]])" by blast
  from operators_leave_operands_unchanged[OF n(1)]
  have fn: "take (length operand_heap) k' = operand_heap" "length operand_heap \<le> d" by simp_all
  show ?thesis
    using s n fs(2) fn(2) ad_view_prefix[OF fs(1) a] ad_view_prefix[OF fs(1) b]
      ad_view_prefix[OF fn(1) a]
    by blast
qed

end
